(* ===== verification/Prelude.thy ===== *)
theory Prelude
  imports Complex_Main "HOL-Library.AList" "HOL-Library.List_Lexorder"
    "HOL-Library.Char_ord" "HOL-Library.Product_Lexorder" "HOL-Library.Multiset"
begin

text \<open>
  Shared vocabulary of the Josh Room development: Python exceptions as values and the
  sequencing of checks that raise, insertion-ordered dictionaries as association lists,
  the character classes and fixed regular expressions that the validators use, and the
  generic lemmas about them that every component relies on.

  A Python string is a \<^typ>\<open>string\<close> whose characters are read as code points below 256.
  A dictionary is an association list in insertion order, updated with
  \<^const>\<open>AList.update\<close> (an existing key keeps its place, a new one is appended) and
  \<^const>\<open>AList.delete\<close>, which is what CPython's \<^verbatim>\<open>dict\<close> does.
\<close>

named_theorems check_simps \<open>equations that turn a sequence of checks into a conjunction\<close>
named_theorems dict_simps \<open>facts about insertion-ordered dictionaries\<close>


section \<open>Exceptions and checks\<close>

text \<open>
  The exceptions the modelled code raises. The string of a standard exception is its
  message; the subclasses declared by the program carry what their constructors take.
\<close>

datatype py_error =
    ValueError string
  | TypeError string
  | KeyError string
  | AttributeError string
  | JSONDecodeError
  | FileNotFoundError
  | FileExistsError
  | OSError string
  | CatalogConflict
  | EnvelopeError string
  | PolicyConfigError string
  | PolicyInputError string
  | OutboxError string
  | LeaseConflict
  | InvalidTransition
  | OutboxStorageError string "bool option"

type_synonym 'a result = "py_error + 'a"

definition raise_if :: "bool \<Rightarrow> py_error \<Rightarrow> unit result" where
  "raise_if c e = (if c then Inl e else Inr ())"

text \<open>A list of checks stands for statements executed one after the other.\<close>

fun checks :: "unit result list \<Rightarrow> unit result" where
  "checks [] = Inr ()"
| "checks (Inl e # _) = Inl e"
| "checks (Inr _ # cs) = checks cs"

definition bind_r :: "'a result \<Rightarrow> ('a \<Rightarrow> 'b result) \<Rightarrow> 'b result" where
  "bind_r r k = (case r of Inl e \<Rightarrow> Inl e | Inr x \<Rightarrow> k x)"

fun map_r :: "('a \<Rightarrow> 'b result) \<Rightarrow> 'a list \<Rightarrow> 'b list result" where
  "map_r f [] = Inr []"
| "map_r f (x # xs) =
     (case f x of Inl e \<Rightarrow> Inl e
      | Inr y \<Rightarrow> (case map_r f xs of Inl e \<Rightarrow> Inl e | Inr ys \<Rightarrow> Inr (y # ys)))"

text \<open>The \<^verbatim>\<open>except ValueError\<close> clauses also catch the subclasses of ValueError.\<close>

fun is_value_error :: "py_error \<Rightarrow> bool" where
  "is_value_error (ValueError _) = True"
| "is_value_error JSONDecodeError = True"
| "is_value_error (EnvelopeError _) = True"
| "is_value_error (PolicyConfigError _) = True"
| "is_value_error (PolicyInputError _) = True"
| "is_value_error _ = False"

fun is_type_error :: "py_error \<Rightarrow> bool" where
  "is_type_error (TypeError _) = True"
| "is_type_error _ = False"

abbreviation ok :: "'a result \<Rightarrow> bool" where
  "ok r \<equiv> (\<exists>x. r = Inr x)"

lemma raise_if_Inr [check_simps]: "raise_if c e = Inr u \<longleftrightarrow> \<not> c"
  by (simp add: raise_if_def)

lemma raise_if_Inl [check_simps]: "raise_if c e = Inl e' \<longleftrightarrow> c \<and> e' = e"
  by (auto simp: raise_if_def)

lemma raise_if_False [simp]: "raise_if False e = Inr ()"
  by (simp add: raise_if_def)

lemma raise_if_True [simp]: "raise_if True e = Inl e"
  by (simp add: raise_if_def)

lemma checks_Cons [check_simps]:
  "checks (c # cs) = Inr u \<longleftrightarrow> c = Inr () \<and> checks cs = Inr u"
  by (cases c) auto

lemma checks_Inr_iff: "checks cs = Inr () \<longleftrightarrow> (\<forall>c \<in> set cs. c = Inr ())"
  by (induction cs) (auto simp: checks_Cons)

lemma checks_append [check_simps]:
  "checks (xs @ ys) = Inr u \<longleftrightarrow> checks xs = Inr u \<and> checks ys = Inr u"
  by (induction xs) (auto simp: checks_Cons)

lemma checks_map [check_simps]:
  "checks (map f xs) = Inr u \<longleftrightarrow> (\<forall>x \<in> set xs. f x = Inr ())"
  by (induction xs) (auto simp: checks_Cons)

lemma checks_Cons_cases:
  "checks (c # cs) = (case c of Inl e \<Rightarrow> Inl e | Inr _ \<Rightarrow> checks cs)"
  by (cases c) auto

lemma checks_Inl_mem: "checks cs = Inl e \<Longrightarrow> Inl e \<in> set cs"
  by (induction cs rule: checks.induct) auto

lemma unit_result_cases: "r = Inr () \<or> (\<exists>e. r = Inl e)" for r :: "unit result"
  by (cases r) auto

lemma bind_r_Inr [simp]: "bind_r (Inr x) k = k x"
  by (simp add: bind_r_def)

lemma bind_r_Inl [simp]: "bind_r (Inl e) k = Inl e"
  by (simp add: bind_r_def)

lemma bind_r_eq_Inr [check_simps]:
  "bind_r r k = Inr y \<longleftrightarrow> (\<exists>x. r = Inr x \<and> k x = Inr y)"
  by (cases r) auto

lemma bind_r_eq_Inl:
  "bind_r r k = Inl e \<longleftrightarrow> r = Inl e \<or> (\<exists>x. r = Inr x \<and> k x = Inl e)"
  by (cases r) auto

lemma map_r_Inr_iff:
  "map_r f xs = Inr ys \<longleftrightarrow> length ys = length xs \<and> (\<forall>i < length xs. f (xs ! i) = Inr (ys ! i))"
proof (induction xs arbitrary: ys)
  case Nil
  then show ?case by auto
next
  case (Cons x xs)
  have "map_r f (x # xs) = Inr ys \<longleftrightarrow>
      (\<exists>z zs. ys = z # zs \<and> f x = Inr z \<and> map_r f xs = Inr zs)"
    by (auto split: sum.splits)
  also have "\<dots> \<longleftrightarrow> (\<exists>z zs. ys = z # zs \<and> f x = Inr z \<and> length zs = length xs \<and>
      (\<forall>i < length xs. f (xs ! i) = Inr (zs ! i)))"
    by (simp add: Cons.IH)
  also have "\<dots> \<longleftrightarrow> length ys = length (x # xs) \<and>
      (\<forall>i < length (x # xs). f ((x # xs) ! i) = Inr (ys ! i))"
    by (cases ys) (auto simp: less_Suc_eq_0_disj)
  finally show ?case .
qed

lemma map_r_set: "map_r f xs = Inr ys \<Longrightarrow> y \<in> set ys \<Longrightarrow> \<exists>x \<in> set xs. f x = Inr y"
  by (metis map_r_Inr_iff in_set_conv_nth)

lemma map_r_all:
  "(\<And>x. x \<in> set xs \<Longrightarrow> f x = Inr (g x)) \<Longrightarrow> map_r f xs = Inr (map g xs)"
  by (induction xs) auto

lemma map_r_append:
  "map_r f (xs @ ys) = Inr zs \<longleftrightarrow>
     (\<exists>us vs. zs = us @ vs \<and> map_r f xs = Inr us \<and> map_r f ys = Inr vs)"
  by (induction xs arbitrary: zs) (fastforce split: sum.splits simp: Cons_eq_append_conv)+


section \<open>Insertion-ordered dictionaries\<close>

type_synonym ('k, 'v) dict = "('k \<times> 'v) list"

abbreviation keys :: "('k, 'v) dict \<Rightarrow> 'k list" where
  "keys d \<equiv> map fst d"

abbreviation vals :: "('k, 'v) dict \<Rightarrow> 'v list" where
  "vals d \<equiv> map snd d"

abbreviation wf_dict :: "('k, 'v) dict \<Rightarrow> bool" where
  "wf_dict d \<equiv> distinct (keys d)"

abbreviation has_key :: "('k, 'v) dict \<Rightarrow> 'k \<Rightarrow> bool" where
  "has_key d k \<equiv> k \<in> set (keys d)"

definition setdefault :: "'k \<Rightarrow> 'v \<Rightarrow> ('k, 'v) dict \<Rightarrow> ('k, 'v) dict" where
  "setdefault k v d = (if has_key d k then d else d @ [(k, v)])"

lemma wf_dict_update [dict_simps, intro]: "wf_dict d \<Longrightarrow> wf_dict (AList.update k v d)"
  by (rule distinct_update)

lemma wf_dict_delete [dict_simps, intro]: "wf_dict d \<Longrightarrow> wf_dict (AList.delete k d)"
  by (rule distinct_delete)

lemma keys_update [dict_simps]:
  "keys (AList.update k v d) = (if has_key d k then keys d else keys d @ [k])"
  by (rule update_keys)

lemma map_of_update [dict_simps]: "map_of (AList.update k v d) = (map_of d)(k \<mapsto> v)"
  by (rule update_conv')

lemma map_of_delete [dict_simps]: "map_of (AList.delete k d) k' = (if k' = k then None else map_of d k')"
  by (simp add: delete_conv)

lemma set_delete [dict_simps]: "set (AList.delete k d) = {x \<in> set d. fst x \<noteq> k}"
  by (auto simp: AList.delete_eq)

lemma set_update_dict:
  "wf_dict d \<Longrightarrow> set (AList.update k v d) = insert (k, v) {x \<in> set d. fst x \<noteq> k}"
  by (induction d) (auto simp: rev_image_eqI)

lemma update_new_key: "\<not> has_key d k \<Longrightarrow> AList.update k v d = d @ [(k, v)]"
  by (induction d) auto

lemma wf_dict_map_of: "wf_dict d \<Longrightarrow> (k, v) \<in> set d \<longleftrightarrow> map_of d k = Some v"
  by simp

lemma wf_dict_unique: "wf_dict d \<Longrightarrow> (k, v) \<in> set d \<Longrightarrow> (k, w) \<in> set d \<Longrightarrow> v = w"
  by (rule eq_key_imp_eq_value)

lemma has_key_map_of: "has_key d k \<longleftrightarrow> (\<exists>v. map_of d k = Some v)"
  using map_of_eq_None_iff[of d k] by (cases "map_of d k") auto

lemma map_of_None_key: "map_of d k = None \<longleftrightarrow> \<not> has_key d k"
  by (simp add: map_of_eq_None_iff)

lemma map_of_setdefault [dict_simps]:
  "map_of (setdefault k v d) k' =
     (if k' = k then Some (case map_of d k of None \<Rightarrow> v | Some w \<Rightarrow> w) else map_of d k')"
  using map_of_eq_None_iff[of d k]
  by (cases "map_of d k") (auto simp: setdefault_def map_add_def split: option.splits)

lemma wf_dict_setdefault [dict_simps, intro]: "wf_dict d \<Longrightarrow> wf_dict (setdefault k v d)"
  by (auto simp: setdefault_def)

lemma keys_setdefault [dict_simps]:
  "set (keys (setdefault k v d)) = insert k (set (keys d))"
  by (auto simp: setdefault_def)


section \<open>Strings, character classes and fixed patterns\<close>

abbreviation code :: "char \<Rightarrow> nat" where
  "code c \<equiv> of_char c"

definition is_digit :: "char \<Rightarrow> bool" where
  "is_digit c \<longleftrightarrow> 48 \<le> code c \<and> code c \<le> 57"

definition is_lower :: "char \<Rightarrow> bool" where
  "is_lower c \<longleftrightarrow> 97 \<le> code c \<and> code c \<le> 122"

definition is_upper :: "char \<Rightarrow> bool" where
  "is_upper c \<longleftrightarrow> 65 \<le> code c \<and> code c \<le> 90"

definition is_alnum :: "char \<Rightarrow> bool" where
  "is_alnum c \<longleftrightarrow> is_digit c \<or> is_lower c \<or> is_upper c"

text \<open>Membership tests that evaluate without arithmetic on code points.\<close>

lemma char_range:
  "(a \<le> code c \<and> code c \<le> b) = (c \<in> set (map char_of [a..<Suc b]))" if "b < 256" for a b :: nat
proof
  assume "a \<le> code c \<and> code c \<le> b"
  then have "code c \<in> set [a..<Suc b]" by (auto simp: less_Suc_eq_le simp del: upt_Suc)
  then have "char_of (code c) \<in> char_of ` set [a..<Suc b]" by (rule imageI)
  then show "c \<in> set (map char_of [a..<Suc b])" by simp
next
  assume "c \<in> set (map char_of [a..<Suc b])"
  then obtain n where "a \<le> n" "n \<le> b" "c = char_of n" by (auto simp: less_Suc_eq_le simp del: upt_Suc)
  then show "a \<le> code c \<and> code c \<le> b" using that by simp
qed

lemma is_digit_code [code]: "is_digit c = (c \<in> set ''0123456789'')"
  unfolding is_digit_def by (subst char_range) (simp_all add: upt_rec char_of_def bit_Suc_0_iff)

lemma is_lower_code [code]: "is_lower c = (c \<in> set ''abcdefghijklmnopqrstuvwxyz'')"
  unfolding is_lower_def by (subst char_range) (simp_all add: upt_rec char_of_def bit_Suc_0_iff)

lemma is_upper_code [code]: "is_upper c = (c \<in> set ''ABCDEFGHIJKLMNOPQRSTUVWXYZ'')"
  unfolding is_upper_def by (subst char_range) (simp_all add: upt_rec char_of_def bit_Suc_0_iff)

text \<open>The class \<^verbatim>\<open>[0-9a-f]\<close>.\<close>

definition is_hex :: "char \<Rightarrow> bool" where
  "is_hex c \<longleftrightarrow> is_digit c \<or> (97 \<le> code c \<and> code c \<le> 102)"

lemma is_hex_code [code]: "is_hex c = (c \<in> set ''0123456789abcdef'')"
  unfolding is_hex_def is_digit_code
  by (subst char_range) (simp_all add: upt_rec char_of_def bit_Suc_0_iff disj_ac)

text \<open>\<^verbatim>\<open>^[0-9a-f]{64}$\<close>, always used with \<^verbatim>\<open>fullmatch\<close>.\<close>

definition is_sha256 :: "string \<Rightarrow> bool" where
  "is_sha256 s \<longleftrightarrow> length s = 64 \<and> list_all is_hex s"

text \<open>The class \<^verbatim>\<open>[A-Za-z0-9._-]\<close>.\<close>

definition is_ident_char :: "char \<Rightarrow> bool" where
  "is_ident_char c \<longleftrightarrow> is_alnum c \<or> c \<in> set ''._-''"

text \<open>\<^verbatim>\<open>^[A-Za-z0-9][A-Za-z0-9._-]*$\<close>.\<close>

fun is_ident :: "string \<Rightarrow> bool" where
  "is_ident [] = False"
| "is_ident (c # cs) = (is_alnum c \<and> list_all is_ident_char cs)"

text \<open>\<^verbatim>\<open>^[A-Za-z0-9][A-Za-z0-9._-]{0,127}$\<close>.\<close>

definition is_ident128 :: "string \<Rightarrow> bool" where
  "is_ident128 s \<longleftrightarrow> is_ident s \<and> length s \<le> 128"

definition starts_with :: "string \<Rightarrow> string \<Rightarrow> bool" where
  "starts_with s p \<longleftrightarrow> take (length p) s = p"

definition ends_with :: "string \<Rightarrow> string \<Rightarrow> bool" where
  "ends_with s p \<longleftrightarrow> length p \<le> length s \<and> drop (length s - length p) s = p"

text \<open>\<^verbatim>\<open>s.rsplit(c, 1)[-1]\<close>: what follows the last occurrence of a character.\<close>

definition rsplit_last :: "char \<Rightarrow> string \<Rightarrow> string" where
  "rsplit_last c s = rev (takeWhile (\<lambda>x. x \<noteq> c) (rev s))"

text \<open>\<^verbatim>\<open>s.split(c)\<close> with a one-character separator: never an empty list.\<close>

fun split_on :: "char \<Rightarrow> string \<Rightarrow> string list" where
  "split_on c [] = [[]]"
| "split_on c (x # xs) =
     (if x = c then [] # split_on c xs
      else (case split_on c xs of [] \<Rightarrow> [[x]] | p # ps \<Rightarrow> (x # p) # ps))"

text \<open>\<^verbatim>\<open>c.join(parts)\<close>.\<close>

fun join_on :: "char \<Rightarrow> string list \<Rightarrow> string" where
  "join_on c [] = []"
| "join_on c [p] = p"
| "join_on c (p # q # ps) = p @ c # join_on c (q # ps)"

text \<open>\<^verbatim>\<open>needle in haystack\<close> for strings.\<close>

fun contains :: "string \<Rightarrow> string \<Rightarrow> bool" where
  "contains [] p = (p = [])"
| "contains (x # xs) p = (starts_with (x # xs) p \<or> contains xs p)"

text \<open>\<^verbatim>\<open>str.isspace()\<close> on the code points below 256.\<close>

definition is_space :: "char \<Rightarrow> bool" where
  "is_space c \<longleftrightarrow> code c \<in> {9, 10, 11, 12, 13, 28, 29, 30, 31, 32, 133, 160}"

definition strip_ws :: "string \<Rightarrow> string" where
  "strip_ws s = rev (dropWhile is_space (rev (dropWhile is_space s)))"

text \<open>\<^verbatim>\<open>s.replace(p, "")\<close> for a non-empty \<open>p\<close>.\<close>

function remove_all :: "string \<Rightarrow> string \<Rightarrow> string" where
  "remove_all p [] = []"
| "remove_all p (c # cs) =
     (if p \<noteq> [] \<and> starts_with (c # cs) p then remove_all p (drop (length p) (c # cs))
      else c # remove_all p cs)"
  by pat_completeness auto
termination
  by (relation "measure (length \<circ> snd)") auto

declare remove_all.simps(2) [simp del]

text \<open>\<^verbatim>\<open>s.strip(chars)\<close>.\<close>

definition strip_chars :: "char list \<Rightarrow> string \<Rightarrow> string" where
  "strip_chars cs s =
     rev (dropWhile (\<lambda>c. c \<in> set cs) (rev (dropWhile (\<lambda>c. c \<in> set cs) s)))"

definition rstrip_chars :: "char list \<Rightarrow> string \<Rightarrow> string" where
  "rstrip_chars cs s = rev (dropWhile (\<lambda>c. c \<in> set cs) (rev s))"

text \<open>\<^verbatim>\<open>str.lower()\<close> on the code points below 256.\<close>

definition lower_char :: "char \<Rightarrow> char" where
  "lower_char c =
     (if is_upper c \<or> (192 \<le> code c \<and> code c \<le> 222 \<and> code c \<noteq> 215) then char_of (code c + 32) else c)"

definition lower :: "string \<Rightarrow> string" where
  "lower s = map lower_char s"

text \<open>\<^verbatim>\<open>str.splitlines()\<close>.\<close>

definition is_line_end :: "char \<Rightarrow> bool" where
  "is_line_end c \<longleftrightarrow> code c \<in> {10, 11, 12, 13, 28, 29, 30, 133}"

fun splitlines_acc :: "string \<Rightarrow> string \<Rightarrow> string list" where
  "splitlines_acc acc [] = (if acc = [] then [] else [rev acc])"
| "splitlines_acc acc [c] = (if is_line_end c then [rev acc] else [rev (c # acc)])"
| "splitlines_acc acc (c # d # cs) =
     (if code c = 13 \<and> code d = 10 then rev acc # splitlines_acc [] cs
      else if is_line_end c then rev acc # splitlines_acc [] (d # cs)
      else splitlines_acc (c # acc) (d # cs))"

definition splitlines :: "string \<Rightarrow> string list" where
  "splitlines s = splitlines_acc [] s"

text \<open>\<^verbatim>\<open>min(xs)\<close> of a non-empty collection of comparable values.\<close>

definition py_min :: "'a::linorder list \<Rightarrow> 'a" where
  "py_min xs = hd (sort xs)"

lemma py_min_mem: "xs \<noteq> [] \<Longrightarrow> py_min xs \<in> set xs"
  unfolding py_min_def by (metis hd_in_set set_sort set_empty)

lemma py_min_le: "x \<in> set xs \<Longrightarrow> py_min xs \<le> x"
proof -
  assume x: "x \<in> set xs"
  then have "sort xs \<noteq> []" by (metis empty_iff empty_set set_sort)
  then obtain y ys where s: "sort xs = y # ys" by (cases "sort xs") auto
  have "sorted (y # ys)" using sorted_sort[of xs] s by simp
  moreover have "x \<in> set (y # ys)" using x s by (metis set_sort)
  ultimately show ?thesis using s by (auto simp: py_min_def)
qed

lemma is_hex_ident_char: "is_hex c \<Longrightarrow> is_ident_char c"
  by (auto simp: is_hex_def is_ident_char_def is_alnum_def is_lower_def is_digit_def)

lemma is_hex_not_slash: "is_hex c \<Longrightarrow> c \<noteq> CHR ''/''"
  by (auto simp: is_hex_def is_digit_def)

lemma is_ident_char_not_slash: "is_ident_char c \<Longrightarrow> c \<noteq> CHR ''/''"
  by (auto simp: is_ident_char_def is_alnum_def is_digit_def is_lower_def is_upper_def)

lemma is_sha256_no_slash: "is_sha256 s \<Longrightarrow> CHR ''/'' \<notin> set s"
  by (auto simp: is_sha256_def list_all_iff dest!: is_hex_not_slash)

lemma is_ident_nonempty: "is_ident s \<Longrightarrow> s \<noteq> []"
  by (cases s) auto

lemma is_ident_chars: "is_ident s \<Longrightarrow> c \<in> set s \<Longrightarrow> is_ident_char c"
  by (cases s) (auto simp: list_all_iff is_ident_char_def)

lemma is_sha256_ident128: "is_sha256 s \<Longrightarrow> is_ident128 s"
  by (cases s)
     (auto simp: is_sha256_def is_ident128_def list_all_iff is_hex_ident_char
        is_hex_def is_alnum_def is_lower_def is_digit_def)

lemma rsplit_last_append: "c \<notin> set s \<Longrightarrow> rsplit_last c (p @ c # s) = s"
  by (auto simp: rsplit_last_def takeWhile_tail takeWhile_eq_all_conv rev_swap)

lemma split_on_ne [simp]: "split_on c s \<noteq> []"
  by (induction s) (auto split: list.splits)

lemma split_on_append_sep:
  "c \<notin> set p \<Longrightarrow> split_on c (p @ c # s) = p # split_on c s"
  by (induction p) auto

lemma split_on_no_sep: "c \<notin> set p \<Longrightarrow> split_on c p = [p]"
  by (induction p) auto

lemma split_join:
  "ps \<noteq> [] \<Longrightarrow> \<forall>p \<in> set ps. c \<notin> set p \<Longrightarrow> split_on c (join_on c ps) = ps"
proof (induction ps)
  case Nil
  then show ?case by simp
next
  case (Cons p ps)
  then show ?case by (cases ps) (auto simp: split_on_no_sep split_on_append_sep)
qed

lemma split_on_parts: "p \<in> set (split_on c s) \<Longrightarrow> c \<notin> set p"
  by (induction s arbitrary: p) (auto split: list.splits if_splits)

lemma join_split: "join_on c (split_on c s) = s"
proof (induction s)
  case Nil
  then show ?case by simp
next
  case (Cons x xs)
  then show ?case
    by (cases "split_on c xs") (auto, (metis append_Cons append_Nil join_on.simps neq_Nil_conv)+)
qed

lemma replicate_sha256 [simp]: "is_hex c \<Longrightarrow> is_sha256 (replicate 64 c)"
  by (simp add: is_sha256_def list_all_iff)

end
