(* ===== verification/Json.thy ===== *)
theory Json
  imports Prelude
begin

text \<open>
  JSON values as the program handles them after \<^verbatim>\<open>json.loads\<close>, Python's equality and
  type tests on them, the canonical printer \<^verbatim>\<open>json.dumps(..., sort_keys=True,
  separators=(",", ":"))\<close> and the reader \<^verbatim>\<open>json.loads\<close>, with the theorem that reading
  what was printed gives the same value with its keys sorted.

  Finite floats are exact rationals; their text is the interpreter's shortest representation,
  which the development takes as a pair of functions (one per direction), and every statement
  that meets a float says what it needs of that pair.
\<close>

section \<open>Values\<close>

datatype json =
    JNull
  | JBool bool
  | JInt int
  | JFloat rat
  | JNonFinite string
  | JStr string
  | JList "json list"
  | JObj "(string \<times> json) list"

type_synonym jobj = "(string, json) dict"

text \<open>\<^verbatim>\<open>d.get(key)\<close>: the value, or None.\<close>

definition jget :: "jobj \<Rightarrow> string \<Rightarrow> json" where
  "jget d k = (case map_of d k of None \<Rightarrow> JNull | Some v \<Rightarrow> v)"

fun is_str :: "json \<Rightarrow> bool" where
  "is_str (JStr _) = True"
| "is_str _ = False"

fun is_obj :: "json \<Rightarrow> bool" where
  "is_obj (JObj _) = True"
| "is_obj _ = False"

fun is_list :: "json \<Rightarrow> bool" where
  "is_list (JList _) = True"
| "is_list _ = False"

text \<open>\<^verbatim>\<open>type(v) is int\<close> (booleans are excluded) and \<^verbatim>\<open>isinstance(v, int)\<close> (they are not).\<close>

fun type_is_int :: "json \<Rightarrow> bool" where
  "type_is_int (JInt _) = True"
| "type_is_int _ = False"

fun isinstance_int :: "json \<Rightarrow> bool" where
  "isinstance_int (JInt _) = True"
| "isinstance_int (JBool _) = True"
| "isinstance_int _ = False"

fun type_is_bool :: "json \<Rightarrow> bool" where
  "type_is_bool (JBool _) = True"
| "type_is_bool _ = False"

fun str_of :: "json \<Rightarrow> string" where
  "str_of (JStr s) = s"
| "str_of _ = []"

fun int_of :: "json \<Rightarrow> int" where
  "int_of (JInt i) = i"
| "int_of (JBool b) = (if b then 1 else 0)"
| "int_of _ = 0"

fun obj_of :: "json \<Rightarrow> jobj" where
  "obj_of (JObj d) = d"
| "obj_of _ = []"

fun list_of :: "json \<Rightarrow> json list" where
  "list_of (JList l) = l"
| "list_of _ = []"

text \<open>The truth value of a JSON value in a Python condition.\<close>

fun truthy :: "json \<Rightarrow> bool" where
  "truthy JNull = False"
| "truthy (JBool b) = b"
| "truthy (JInt i) = (i \<noteq> 0)"
| "truthy (JFloat r) = (r \<noteq> 0)"
| "truthy (JNonFinite _) = True"
| "truthy (JStr s) = (s \<noteq> [])"
| "truthy (JList l) = (l \<noteq> [])"
| "truthy (JObj d) = (d \<noteq> [])"

text \<open>Numbers compare by value across bool, int and float.\<close>

fun num_val :: "json \<Rightarrow> rat option" where
  "num_val (JBool b) = Some (if b then 1 else 0)"
| "num_val (JInt i) = Some (of_int i)"
| "num_val (JFloat r) = Some r"
| "num_val _ = None"

text \<open>
  \<^verbatim>\<open>==\<close> on decoded JSON: dictionaries compare as maps, so the order of their keys does
  not matter; NaN differs from everything.
\<close>

fun py_eq :: "json \<Rightarrow> json \<Rightarrow> bool" where
  "py_eq JNull j = (j = JNull)"
| "py_eq (JBool b) j = (num_val j = num_val (JBool b))"
| "py_eq (JInt i) j = (num_val j = num_val (JInt i))"
| "py_eq (JFloat r) j = (num_val j = num_val (JFloat r))"
| "py_eq (JNonFinite s) j = (j = JNonFinite s \<and> s \<noteq> ''NaN'')"
| "py_eq (JStr s) j = (j = JStr s)"
| "py_eq (JList xs) j = (case j of JList ys \<Rightarrow> list_all2 py_eq xs ys | _ \<Rightarrow> False)"
| "py_eq (JObj d) j =
     (case j of
        JObj e \<Rightarrow> length d = length e \<and>
          list_all (\<lambda>(k, v). case map_of e k of None \<Rightarrow> False | Some w \<Rightarrow> py_eq v w) d
      | _ \<Rightarrow> False)"

text \<open>
  \<^verbatim>\<open>v in {...}\<close> for a set of strings: looking a list or a dictionary up in a set raises,
  anything else is found exactly when it is one of the strings.
\<close>

fun in_str_set :: "json \<Rightarrow> string list \<Rightarrow> bool result" where
  "in_str_set (JList _) ss = Inl (TypeError ''unhashable type'')"
| "in_str_set (JObj _) ss = Inl (TypeError ''unhashable type'')"
| "in_str_set (JStr s) ss = Inr (s \<in> set ss)"
| "in_str_set _ ss = Inr False"

text \<open>\<^verbatim>\<open>if v not in {...}: raise e\<close>.\<close>

definition require_in :: "json \<Rightarrow> string list \<Rightarrow> py_error \<Rightarrow> unit result" where
  "require_in v ss e = bind_r (in_str_set v ss) (\<lambda>b. raise_if (\<not> b) e)"

text \<open>Distinct keys at every level: what a Python dictionary guarantees by construction.\<close>

fun wf_json :: "json \<Rightarrow> bool" where
  "wf_json (JList xs) = list_all wf_json xs"
| "wf_json (JObj d) = (wf_dict d \<and> list_all (\<lambda>(k, v). wf_json v) d)"
| "wf_json _ = True"

text \<open>Keys sorted at every level: the effect of \<^verbatim>\<open>sort_keys=True\<close>.\<close>

fun jsort :: "json \<Rightarrow> json" where
  "jsort (JList xs) = JList (map jsort xs)"
| "jsort (JObj d) = JObj (sort_key fst (map (\<lambda>(k, v). (k, jsort v)) d))"
| "jsort j = j"


section \<open>Printing\<close>

definition digit_char :: "nat \<Rightarrow> char" where
  "digit_char d = char_of (48 + d)"

fun nat_str :: "nat \<Rightarrow> string" where
  "nat_str n = (if n < 10 then [digit_char n] else nat_str (n div 10) @ [digit_char (n mod 10)])"

declare nat_str.simps [simp del]

definition int_str :: "int \<Rightarrow> string" where
  "int_str i = (if i < 0 then CHR ''-'' # nat_str (nat (- i)) else nat_str (nat i))"

definition hex_char :: "nat \<Rightarrow> char" where
  "hex_char d = (if d < 10 then char_of (48 + d) else char_of (87 + d))"

definition quote_char :: char where "quote_char = CHR 0x22"

definition backslash :: char where "backslash = CHR 0x5C"

text \<open>
  The escapes of \<^verbatim>\<open>json.encoder\<close>: with \<open>ensure_ascii\<close> every character outside
  space..tilde is written as \<^verbatim>\<open>\uXXXX\<close>, without it only the control characters are.
\<close>

definition esc_char :: "bool \<Rightarrow> char \<Rightarrow> string" where
  "esc_char ascii c =
     (if c = quote_char \<or> c = backslash then [backslash, c]
      else if code c = 8 then [backslash, CHR ''b'']
      else if code c = 9 then [backslash, CHR ''t'']
      else if code c = 10 then [backslash, CHR ''n'']
      else if code c = 12 then [backslash, CHR ''f'']
      else if code c = 13 then [backslash, CHR ''r'']
      else if code c < 32 \<or> ascii \<and> 126 < code c
      then [backslash, CHR ''u'', CHR ''0'', CHR ''0'', hex_char (code c div 16), hex_char (code c mod 16)]
      else [c])"

definition print_str :: "bool \<Rightarrow> string \<Rightarrow> string" where
  "print_str ascii s = quote_char # concat (map (esc_char ascii) s) @ [quote_char]"

fun commas :: "string list \<Rightarrow> string" where
  "commas [] = []"
| "commas [x] = x"
| "commas (x # y # xs) = x @ CHR '','' # commas (y # xs)"

text \<open>The compact printer; the second argument writes a float.\<close>

fun print_json :: "bool \<Rightarrow> (rat \<Rightarrow> string) \<Rightarrow> json \<Rightarrow> string" where
  "print_json a fr JNull = ''null''"
| "print_json a fr (JBool b) = (if b then ''true'' else ''false'')"
| "print_json a fr (JInt i) = int_str i"
| "print_json a fr (JFloat r) = fr r"
| "print_json a fr (JNonFinite s) = s"
| "print_json a fr (JStr s) = print_str a s"
| "print_json a fr (JList xs) = CHR ''['' # commas (map (print_json a fr) xs) @ '']''"
| "print_json a fr (JObj d) =
     CHR ''{'' # commas (map (\<lambda>(k, v). print_str a k @ CHR '':'' # print_json a fr v) d) @ ''}''"

text \<open>\<^verbatim>\<open>json.dumps(j, sort_keys=True, separators=(",", ":"))\<close>.\<close>

definition json_dumps :: "bool \<Rightarrow> (rat \<Rightarrow> string) \<Rightarrow> json \<Rightarrow> string" where
  "json_dumps ascii fr j = print_json ascii fr (jsort j)"


section \<open>Reading\<close>

definition is_ws :: "char \<Rightarrow> bool" where
  "is_ws c \<longleftrightarrow> code c \<in> {9, 10, 13, 32}"

definition skip_ws :: "string \<Rightarrow> string" where
  "skip_ws s = dropWhile is_ws s"

definition hex_val :: "char \<Rightarrow> nat option" where
  "hex_val c = (if is_digit c then Some (code c - 48)
     else if 97 \<le> code c \<and> code c \<le> 102 then Some (code c - 87)
     else if 65 \<le> code c \<and> code c \<le> 70 then Some (code c - 55) else None)"

definition simple_esc :: "char \<Rightarrow> char option" where
  "simple_esc e = (if e = quote_char \<or> e = backslash \<or> e = CHR ''/'' then Some e
     else if e = CHR ''b'' then Some (char_of (8::nat))
     else if e = CHR ''f'' then Some (char_of (12::nat))
     else if e = CHR ''n'' then Some (char_of (10::nat))
     else if e = CHR ''r'' then Some (char_of (13::nat))
     else if e = CHR ''t'' then Some (char_of (9::nat)) else None)"

text \<open>
  The body of a string literal after its opening quote: the decoded characters and what
  follows the closing quote. Code points from 256 up are outside the model's characters.
\<close>

definition unicode_esc :: "string \<Rightarrow> (char \<times> string) option" where
  "unicode_esc s =
     (case s of
        h1 # h2 # h3 # h4 # rest \<Rightarrow>
          (case (hex_val h1, hex_val h2, hex_val h3, hex_val h4) of
             (Some a, Some b, Some c, Some d) \<Rightarrow>
               (if a = 0 \<and> b = 0 then Some (char_of (16 * c + d), rest) else None)
           | _ \<Rightarrow> None)
      | _ \<Rightarrow> None)"

lemma unicode_esc_length: "unicode_esc s = Some (c, r) \<Longrightarrow> length r < length s"
  by (auto simp: unicode_esc_def split: list.splits option.splits if_splits)

function parse_str :: "string \<Rightarrow> (string \<times> string) option" where
  "parse_str [] = None"
| "parse_str (c # s) =
     (if c = quote_char then Some ([], s)
      else if c = backslash then
        (case s of
           [] \<Rightarrow> None
         | e # s1 \<Rightarrow>
             (case simple_esc e of
                Some x \<Rightarrow> map_option (\<lambda>(t, r). (x # t, r)) (parse_str s1)
              | None \<Rightarrow>
                  if e = CHR ''u'' then
                    (case unicode_esc s1 of
                       None \<Rightarrow> None
                     | Some (x, s2) \<Rightarrow> map_option (\<lambda>(t, r). (x # t, r)) (parse_str s2))
                  else None))
      else if code c < 32 then None
      else map_option (\<lambda>(t, r). (c # t, r)) (parse_str s))"
  by pat_completeness auto
termination
  by (relation "measure length") (auto dest: unicode_esc_length)

declare parse_str.simps(2) [simp del]

text \<open>A number: its literal is split off as \<^verbatim>\<open>json.scanner.NUMBER_RE\<close> does.\<close>

definition int_part :: "string \<Rightarrow> string" where
  "int_part s = (case takeWhile is_digit s of
      [] \<Rightarrow> [] | d # ds \<Rightarrow> if d = CHR ''0'' then [d] else d # ds)"

definition frac_part :: "string \<Rightarrow> string" where
  "frac_part s = (case s of
      [] \<Rightarrow> []
    | c # t \<Rightarrow> if c = CHR ''.'' \<and> takeWhile is_digit t \<noteq> [] then c # takeWhile is_digit t else [])"

definition exp_part :: "string \<Rightarrow> string" where
  "exp_part s = (case s of
      [] \<Rightarrow> []
    | c # t \<Rightarrow>
        if c = CHR ''e'' \<or> c = CHR ''E'' then
          (let sg = (case t of [] \<Rightarrow> [] | x # _ \<Rightarrow> if x = CHR ''+'' \<or> x = CHR ''-'' then [x] else []);
               ds = takeWhile is_digit (drop (length sg) t)
           in if ds = [] then [] else c # sg @ ds)
        else [])"

fun digits_val :: "nat \<Rightarrow> string \<Rightarrow> nat" where
  "digits_val acc [] = acc"
| "digits_val acc (c # cs) = digits_val (10 * acc + (code c - 48)) cs"

definition parse_num :: "(string \<Rightarrow> rat) \<Rightarrow> string \<Rightarrow> (json \<times> string) option" where
  "parse_num pf s =
     (let sg = (if s \<noteq> [] \<and> hd s = CHR ''-'' then ''-'' else []);
          s1 = drop (length sg) s;
          ip = int_part s1;
          s2 = drop (length ip) s1;
          fp = frac_part s2;
          s3 = drop (length fp) s2;
          ep = exp_part s3;
          s4 = drop (length ep) s3
      in if ip = [] then None
         else if fp = [] \<and> ep = [] then
           Some (JInt (if sg = [] then int (digits_val 0 ip) else - int (digits_val 0 ip)), s4)
         else Some (JFloat (pf (sg @ ip @ fp @ ep)), s4))"

text \<open>
  How a caller customises \<^verbatim>\<open>json.loads\<close>: the conversion of a float literal, what
  becomes of an object's pairs (\<^verbatim>\<open>object_pairs_hook\<close>) and of the constants NaN and
  Infinity (\<^verbatim>\<open>parse_constant\<close>).
\<close>

record json_hooks =
  parse_float :: "string \<Rightarrow> rat"
  pairs_hook :: "(string \<times> json) list \<Rightarrow> json result"
  constant_hook :: "string \<Rightarrow> json result"

text \<open>The default: a later pair replaces an earlier one with the same key.\<close>

definition default_pairs :: "(string \<times> json) list \<Rightarrow> json result" where
  "default_pairs ps = Inr (JObj (fold (\<lambda>(k, v) d. AList.update k v d) ps []))"

definition default_hooks :: "(string \<Rightarrow> rat) \<Rightarrow> json_hooks" where
  "default_hooks pf = \<lparr>parse_float = pf, pairs_hook = default_pairs,
     constant_hook = (\<lambda>s. Inr (JNonFinite s))\<rparr>"

definition or_decode :: "'a option \<Rightarrow> 'a result" where
  "or_decode x = (case x of None \<Rightarrow> Inl JSONDecodeError | Some v \<Rightarrow> Inr v)"

text \<open>
  The scanner. The first argument is fuel: each call of a nested production spends one
  unit, and \<open>json_loads\<close> supplies more than a text of that length can use.
\<close>

fun parse_val :: "nat \<Rightarrow> json_hooks \<Rightarrow> string \<Rightarrow> (json \<times> string) result"
and parse_elems :: "nat \<Rightarrow> json_hooks \<Rightarrow> string \<Rightarrow> (json list \<times> string) result"
and parse_members :: "nat \<Rightarrow> json_hooks \<Rightarrow> string \<Rightarrow> ((string \<times> json) list \<times> string) result" where
  "parse_val 0 h s = Inl JSONDecodeError"
| "parse_val (Suc n) h s =
     (case s of
        [] \<Rightarrow> Inl JSONDecodeError
      | c # t \<Rightarrow>
          if c = quote_char then
            bind_r (or_decode (parse_str t)) (\<lambda>(x, r). Inr (JStr x, r))
          else if c = CHR ''{'' then
            (case skip_ws t of
               [] \<Rightarrow> Inl JSONDecodeError
             | d # u \<Rightarrow>
                 if d = CHR ''}'' then bind_r (pairs_hook h []) (\<lambda>v. Inr (v, u))
                 else bind_r (parse_members n h (d # u))
                   (\<lambda>(ps, r). bind_r (pairs_hook h ps) (\<lambda>v. Inr (v, r))))
          else if c = CHR ''['' then
            (case skip_ws t of
               [] \<Rightarrow> Inl JSONDecodeError
             | d # u \<Rightarrow>
                 if d = CHR '']'' then Inr (JList [], u)
                 else bind_r (parse_elems n h (d # u)) (\<lambda>(xs, r). Inr (JList xs, r)))
          else if starts_with s ''null'' then Inr (JNull, drop 4 s)
          else if starts_with s ''true'' then Inr (JBool True, drop 4 s)
          else if starts_with s ''false'' then Inr (JBool False, drop 5 s)
          else
            (case parse_num (parse_float h) s of
               Some (v, r) \<Rightarrow> Inr (v, r)
             | None \<Rightarrow>
                 if starts_with s ''NaN'' then bind_r (constant_hook h ''NaN'') (\<lambda>v. Inr (v, drop 3 s))
                 else if starts_with s ''Infinity'' then
                   bind_r (constant_hook h ''Infinity'') (\<lambda>v. Inr (v, drop 8 s))
                 else if starts_with s ''-Infinity'' then
                   bind_r (constant_hook h ''-Infinity'') (\<lambda>v. Inr (v, drop 9 s))
                 else Inl JSONDecodeError))"
| "parse_elems 0 h s = Inl JSONDecodeError"
| "parse_elems (Suc n) h s =
     bind_r (parse_val n h s) (\<lambda>(x, r).
       (case skip_ws r of
          [] \<Rightarrow> Inl JSONDecodeError
        | c # u \<Rightarrow>
            if c = CHR '']'' then Inr ([x], u)
            else if c = CHR '','' then
              bind_r (parse_elems n h (skip_ws u)) (\<lambda>(xs, r2). Inr (x # xs, r2))
            else Inl JSONDecodeError))"
| "parse_members 0 h s = Inl JSONDecodeError"
| "parse_members (Suc n) h s =
     (case s of
        [] \<Rightarrow> Inl JSONDecodeError
      | q # t \<Rightarrow>
          if q \<noteq> quote_char then Inl JSONDecodeError
          else bind_r (or_decode (parse_str t)) (\<lambda>(k, r).
            (case skip_ws r of
               [] \<Rightarrow> Inl JSONDecodeError
             | c # u \<Rightarrow>
                 if c \<noteq> CHR '':'' then Inl JSONDecodeError
                 else bind_r (parse_val n h (skip_ws u)) (\<lambda>(v, r2).
                   (case skip_ws r2 of
                      [] \<Rightarrow> Inl JSONDecodeError
                    | e # w \<Rightarrow>
                        if e = CHR ''}'' then Inr ([(k, v)], w)
                        else if e = CHR '','' then
                          bind_r (parse_members n h (skip_ws w)) (\<lambda>(ps, r3). Inr ((k, v) # ps, r3))
                        else Inl JSONDecodeError)))))"

definition json_loads :: "json_hooks \<Rightarrow> string \<Rightarrow> json result" where
  "json_loads h s =
     bind_r (parse_val (2 * length s + 2) h (skip_ws s)) (\<lambda>(v, r).
       if skip_ws r = [] then Inr v else Inl JSONDecodeError)"


section \<open>Reading back what was printed\<close>

subsection \<open>Strings\<close>

lemma hex_val_hex_char: "d < 16 \<Longrightarrow> hex_val (hex_char d) = Some d"
  by (auto simp: hex_val_def hex_char_def is_digit_def)

lemma code_less_256 [simp]: "code c < 256"
  using nat_of_char_less_256 by simp

lemma unicode_esc_hex:
  "unicode_esc (CHR ''0'' # CHR ''0'' # hex_char (code c div 16) # hex_char (code c mod 16) # r) = Some (c, r)"
proof -
  have "hex_val CHR ''0'' = Some 0" by (simp add: hex_val_def is_digit_def)
  moreover have "code c div 16 < 16" using code_less_256[of c] by (simp add: less_mult_imp_div_less)
  ultimately show ?thesis by (simp add: unicode_esc_def hex_val_hex_char)
qed

lemma char_of_code: "code c = n \<Longrightarrow> char_of n = c"
  by auto

lemma parse_str_esc:
  "parse_str (esc_char a c @ r) = map_option (\<lambda>(t, q). (c # t, q)) (parse_str r)"
  by (auto simp: esc_char_def parse_str.simps(2) simple_esc_def quote_char_def backslash_def
      unicode_esc_hex char_of_code dest: char_of_code)

lemma parse_str_escaped:
  "parse_str (concat (map (esc_char a) s) @ quote_char # r) = Some (s, r)"
  by (induction s) (simp_all add: parse_str_esc parse_str.simps(2))

subsection \<open>Numbers\<close>

definition delim :: "string \<Rightarrow> bool" where
  "delim r \<longleftrightarrow> r = [] \<or> hd r \<in> {CHR '','', CHR '']'', CHR ''}''}"

lemma delim_not_digit: "delim (c # r) \<Longrightarrow> \<not> is_digit c"
  by (auto simp: delim_def is_digit_def)

lemma takeWhile_digit_delim: "delim r \<Longrightarrow> takeWhile is_digit (s @ r) = takeWhile is_digit s"
  by (cases r) (auto simp: takeWhile_append delim_not_digit takeWhile_eq_all_conv[THEN iffD2])

lemma int_part_delim: "delim r \<Longrightarrow> int_part (s @ r) = int_part s"
  by (simp add: int_part_def takeWhile_digit_delim)

lemma frac_part_delim: "delim r \<Longrightarrow> frac_part (s @ r) = frac_part s"
  by (cases s; cases r) (auto simp: frac_part_def delim_def takeWhile_digit_delim)

lemma exp_part_delim: "delim r \<Longrightarrow> exp_part (s @ r) = exp_part s"
proof (cases s)
  case Nil
  assume "delim r"
  with Nil show ?thesis by (cases r) (auto simp: exp_part_def delim_def)
next
  case (Cons c t)
  assume d: "delim r"
  show ?thesis
  proof (cases t)
    case Nil
    with d Cons show ?thesis
      by (cases r) (auto simp: exp_part_def delim_def is_digit_def)
  next
    case (Cons x u)
    with \<open>s = c # t\<close> d show ?thesis
      by (auto simp: exp_part_def takeWhile_digit_delim Let_def)
  qed
qed

lemma int_part_length: "length (int_part s) \<le> length s"
  by (auto simp: int_part_def length_takeWhile_le split: list.splits)
     (metis One_nat_def Suc_leI length_greater_0_conv takeWhile.simps(1) list.distinct(1),
      metis length_Cons length_takeWhile_le)

lemma frac_part_length: "length (frac_part s) \<le> length s"
  by (auto simp: frac_part_def length_takeWhile_le split: list.splits)

lemma exp_part_length: "length (exp_part s) \<le> length s"
proof (cases s)
  case Nil
  then show ?thesis by (simp add: exp_part_def)
next
  case (Cons c t)
  have "length (takeWhile is_digit (tl t)) \<le> length t - 1"
    using length_takeWhile_le[of is_digit "tl t"] by simp
  moreover have "length (takeWhile is_digit t) \<le> length t" by (rule length_takeWhile_le)
  ultimately show ?thesis using Cons
    by (cases t) (auto simp: exp_part_def Let_def)
qed

lemma parse_num_delim:
  assumes "delim r"
  shows "parse_num pf (s @ r) = map_option (\<lambda>(v, q). (v, q @ r)) (parse_num pf s)"
proof -
  define sg where "sg = (if s \<noteq> [] \<and> hd s = CHR ''-'' then ''-'' else [])"
  have sg: "(if s @ r \<noteq> [] \<and> hd (s @ r) = CHR ''-'' then ''-'' else []) = sg"
    using assms by (cases s; cases r) (auto simp: sg_def delim_def)
  have l: "length sg \<le> length s" by (cases s) (auto simp: sg_def)
  define s1 where "s1 = drop (length sg) s"
  define s2 where "s2 = drop (length (int_part s1)) s1"
  define s3 where "s3 = drop (length (frac_part s2)) s2"
  have d1: "drop (length sg) (s @ r) = s1 @ r" using l by (simp add: s1_def)
  have d2: "drop (length (int_part s1)) (s1 @ r) = s2 @ r"
    using int_part_length[of s1] by (simp add: s2_def)
  have d3: "drop (length (frac_part s2)) (s2 @ r) = s3 @ r"
    using frac_part_length[of s2] by (simp add: s3_def)
  have d4: "drop (length (exp_part s3)) (s3 @ r) = drop (length (exp_part s3)) s3 @ r"
    using exp_part_length[of s3] by simp
  show ?thesis
    unfolding parse_num_def Let_def sg d1 int_part_delim[OF assms] d2 frac_part_delim[OF assms]
      d3 exp_part_delim[OF assms] d4 sg_def[symmetric] s1_def[symmetric] s2_def[symmetric] s3_def[symmetric]
    by simp
qed

lemma nat_str_digits: "c \<in> set (nat_str n) \<Longrightarrow> is_digit c"
  by (induction n rule: nat_str.induct)
     (subst (asm) (2) nat_str.simps, auto simp: is_digit_def digit_char_def split: if_splits)

lemma nat_str_ne [simp]: "nat_str n \<noteq> []"
  by (subst nat_str.simps) simp

lemma digits_val_append: "digits_val a (xs @ ys) = digits_val (digits_val a xs) ys"
  by (induction xs arbitrary: a) auto

lemma code_digit_char: "d < 10 \<Longrightarrow> code (digit_char d) = 48 + d"
  by (simp add: digit_char_def)

lemma digits_val_nat_str: "digits_val 0 (nat_str n) = n"
proof (induction n rule: nat_str.induct)
  case (1 n)
  then show ?case
    by (subst nat_str.simps) (auto simp: digits_val_append code_digit_char)
qed

lemma digit_char_0: "digit_char 0 = CHR ''0''"
  by (simp add: digit_char_def char_of_code[of "CHR ''0''" 48])

lemma hd_nat_str: "hd (nat_str n) = CHR ''0'' \<longleftrightarrow> n = 0"
proof (induction n rule: nat_str.induct)
  case (1 n)
  show ?case
  proof (cases "n < 10")
    case True
    then have h: "hd (nat_str n) = digit_char n" by (subst nat_str.simps) simp
    have "n = 0" if "digit_char n = CHR ''0''"
    proof -
      have "code (digit_char n) = 48" unfolding that by simp
      with True show ?thesis by (simp add: code_digit_char)
    qed
    with h show ?thesis using digit_char_0 by auto
  next
    case False
    then show ?thesis using 1 by (subst nat_str.simps) (simp add: hd_append)
  qed
qed

lemma takeWhile_nat_str: "takeWhile is_digit (nat_str n) = nat_str n"
  by (simp add: takeWhile_eq_all_conv nat_str_digits)

lemma nat_str_0: "nat_str 0 = ''0''"
  by (subst nat_str.simps) (simp add: digit_char_0)

lemma int_part_nat_str: "int_part (nat_str n) = nat_str n"
proof (cases "nat_str n")
  case Nil
  then show ?thesis by simp
next
  case (Cons d ds)
  then have "d = CHR ''0'' \<longleftrightarrow> n = 0" using hd_nat_str[of n] by simp
  with Cons show ?thesis
    using takeWhile_nat_str[of n] nat_str_0 by (auto simp: int_part_def split: list.splits)
qed

lemma nat_str_hd_digit: "is_digit (hd (nat_str n))"
  by (rule nat_str_digits[of _ n]) simp

lemma nat_str_hd_not_minus: "hd (nat_str n) \<noteq> CHR ''-''"
  using nat_str_hd_digit[of n] by (auto simp: is_digit_def)

lemma parse_num_int_str: "parse_num pf (int_str i) = Some (JInt i, [])"
  by (simp add: parse_num_def int_str_def Let_def int_part_nat_str frac_part_def exp_part_def
      digits_val_nat_str nat_str_hd_not_minus)

lemma parse_num_head:
  "parse_num pf s = Some x \<Longrightarrow> \<exists>c t. s = c # t \<and> (c = CHR ''-'' \<or> is_digit c)"
  by (cases s) (auto simp: parse_num_def int_part_def Let_def split: list.splits if_splits)

subsection \<open>Values\<close>

text \<open>The floats of a value read back as themselves, and no NaN or Infinity occurs in it.\<close>

fun floats_ok :: "(rat \<Rightarrow> string) \<Rightarrow> (string \<Rightarrow> rat) \<Rightarrow> json \<Rightarrow> bool" where
  "floats_ok fr pf (JFloat r) = (parse_num pf (fr r) = Some (JFloat r, []))"
| "floats_ok fr pf (JNonFinite _) = False"
| "floats_ok fr pf (JList xs) = list_all (floats_ok fr pf) xs"
| "floats_ok fr pf (JObj d) = list_all (\<lambda>(k, v). floats_ok fr pf v) d"
| "floats_ok fr pf _ = True"

text \<open>The fuel that reading a printed value takes.\<close>

fun need :: "json \<Rightarrow> nat" where
  "need (JList xs) = Suc (sum_list (map (\<lambda>x. Suc (need x)) xs))"
| "need (JObj d) = Suc (sum_list (map (\<lambda>(k, v). Suc (need v)) d))"
| "need _ = 1"

lemma parse_val_num:
  assumes "parse_num (parse_float h) s = Some (v, [])" "delim r"
  shows "parse_val (Suc n) h (s @ r) = Inr (v, r)"
proof -
  obtain c t where s: "s = c # t" "c = CHR ''-'' \<or> is_digit c"
    using parse_num_head[OF assms(1)] by blast
  then have c: "c \<noteq> quote_char" "c \<noteq> CHR ''{''" "c \<noteq> CHR ''[''"
    "c \<noteq> CHR ''n''" "c \<noteq> CHR ''t''" "c \<noteq> CHR ''f''"
    by (auto simp: is_digit_def quote_char_def)
  have "parse_num (parse_float h) (c # t @ r) = Some (v, r)"
    using parse_num_delim[OF assms(2), of "parse_float h" s] assms(1) s(1) by simp
  with c show ?thesis unfolding s(1) by (simp add: starts_with_def)
qed

lemma print_head:
  assumes "floats_ok fr pf j"
  shows "\<exists>c t. print_json a fr j = c # t \<and> \<not> is_ws c \<and> c \<noteq> CHR '']'' \<and> c \<noteq> CHR ''}''"
proof -
  have num: "\<exists>c t. s = c # t \<and> \<not> is_ws c \<and> c \<noteq> CHR '']'' \<and> c \<noteq> CHR ''}''"
    if x: "parse_num pf s = Some x" for s x
  proof -
    obtain c t where s: "s = c # t" and c: "c = CHR ''-'' \<or> is_digit c"
      using parse_num_head[OF x] by blast
    from c have "\<not> is_ws c \<and> c \<noteq> CHR '']'' \<and> c \<noteq> CHR ''}''"
      by (auto simp: is_ws_def is_digit_def)
    with s show ?thesis by blast
  qed
  show ?thesis
  proof (cases j)
    case (JInt i)
    then show ?thesis using num[OF parse_num_int_str] by simp
  next
    case (JFloat r)
    then show ?thesis using num assms by simp
  qed (use assms in \<open>auto simp: is_ws_def print_str_def quote_char_def\<close>)
qed

lemma skip_ws_Cons: "\<not> is_ws c \<Longrightarrow> skip_ws (c # s) = c # s"
  by (simp add: skip_ws_def)

lemma delim_simps [simp]:
  "delim []" "delim (CHR '','' # r)" "delim (CHR '']'' # r)" "delim (CHR ''}'' # r)"
  by (auto simp: delim_def)

lemma not_ws_punct [simp]:
  "\<not> is_ws CHR '',''" "\<not> is_ws CHR '']''" "\<not> is_ws CHR ''}''" "\<not> is_ws CHR '':''" "\<not> is_ws quote_char"
  by (auto simp: is_ws_def quote_char_def)

text \<open>One value after another: the tail of an array and of an object.\<close>

definition reads :: "json_hooks \<Rightarrow> bool \<Rightarrow> (rat \<Rightarrow> string) \<Rightarrow> json \<Rightarrow> bool" where
  "reads h a fr j \<longleftrightarrow> (\<forall>n r. need j \<le> n \<longrightarrow> delim r \<longrightarrow> parse_val n h (print_json a fr j @ r) = Inr (j, r))"

lemma readsD: "reads h a fr j \<Longrightarrow> need j \<le> n \<Longrightarrow> delim r \<Longrightarrow> parse_val n h (print_json a fr j @ r) = Inr (j, r)"
  by (simp add: reads_def)

lemma parse_elems_print:
  assumes "xs \<noteq> []" "\<forall>x \<in> set xs. reads h a fr x \<and> floats_ok fr (parse_float h) x"
    "sum_list (map (\<lambda>x. Suc (need x)) xs) \<le> n"
  shows "parse_elems n h (commas (map (print_json a fr) xs) @ CHR '']'' # r) = Inr (xs, r)"
  using assms
proof (induction xs arbitrary: n)
  case Nil
  then show ?case by simp
next
  case (Cons x xs)
  then obtain m where n: "n = Suc m" by (cases n) auto
  show ?case
  proof (cases xs)
    case Nil
    with Cons n show ?thesis by (simp add: readsD skip_ws_Cons)
  next
    case (Cons y ys)
    obtain c t where pt: "commas (map (print_json a fr) xs) = c # t" "\<not> is_ws c"
      using print_head[of fr "parse_float h" y a] Cons \<open>\<forall>x \<in> set (x # xs). _ x\<close>
      by (cases ys) auto
    have rest: "parse_elems m h (commas (map (print_json a fr) xs) @ CHR '']'' # r) = Inr (xs, r)"
      using Cons.IH[of m] Cons.prems n Cons by auto
    have "parse_val m h (print_json a fr x @ CHR '','' # commas (map (print_json a fr) xs) @ CHR '']'' # r)
        = Inr (x, CHR '','' # commas (map (print_json a fr) xs) @ CHR '']'' # r)"
      using Cons.prems n by (intro readsD) auto
    then show ?thesis
      using rest pt Cons n by (simp add: skip_ws_Cons)
  qed
qed


lemma parse_members_print:
  assumes "d \<noteq> []" "\<forall>(k, v) \<in> set d. reads h a fr v \<and> floats_ok fr (parse_float h) v"
    "sum_list (map (\<lambda>(k, v). Suc (need v)) d) \<le> n"
  shows "parse_members n h
     (commas (map (\<lambda>(k, v). print_str a k @ CHR '':'' # print_json a fr v) d) @ CHR ''}'' # r) = Inr (d, r)"
  using assms
proof (induction d arbitrary: n)
  case Nil
  then show ?case by simp
next
  case (Cons kv d)
  obtain k v where kv: "kv = (k, v)" by force
  let ?pr = "\<lambda>(k, v). print_str a k @ CHR '':'' # print_json a fr v"
  from Cons obtain m where n: "n = Suc m" by (cases n) (auto simp: kv)
  obtain c t where hd: "print_json a fr v = c # t" "\<not> is_ws c"
    using print_head[of fr "parse_float h" v a] Cons.prems kv by auto
  have val: "parse_val m h (c # t @ q) = Inr (v, q)" if "delim q" for q
    using readsD[of h a fr v m q] Cons.prems kv n hd that by simp
  show ?case
  proof (cases d)
    case Nil
    then show ?thesis
      using hd val[of "CHR ''}'' # r"] kv n
      by (simp add: print_str_def parse_str_escaped or_decode_def skip_ws_Cons)
  next
    case (Cons kv2 ds)
    obtain u where pt: "commas (map ?pr d) = quote_char # u"
      using Cons by (cases ds; cases kv2) (auto simp: print_str_def)
    have rest: "parse_members m h (commas (map ?pr d) @ CHR ''}'' # r) = Inr (d, r)"
      using Cons.IH[of m] Cons.prems kv n Cons by auto
    show ?thesis
      using hd val[of "CHR '','' # commas (map ?pr d) @ CHR ''}'' # r"] kv n rest pt Cons
      by (simp add: print_str_def parse_str_escaped or_decode_def skip_ws_Cons)
  qed
qed

lemma reads_print:
  assumes hook: "\<And>d. wf_dict d \<Longrightarrow> pairs_hook h d = Inr (JObj d)"
  shows "wf_json j \<Longrightarrow> floats_ok fr (parse_float h) j \<Longrightarrow> reads h a fr j"
proof (induction j)
  case (JInt i)
  show ?case unfolding reads_def
    by (auto intro!: parse_val_num parse_num_int_str elim: less_natE simp: Suc_le_eq)
next
  case (JFloat q)
  then show ?case unfolding reads_def
    by (auto intro!: parse_val_num elim: less_natE simp: Suc_le_eq)
next
  case (JStr s)
  show ?case unfolding reads_def
    by (auto simp: print_str_def parse_str_escaped or_decode_def Suc_le_eq gr0_conv_Suc)
next
  case (JList xs)
  have xs: "\<forall>x \<in> set xs. reads h a fr x \<and> floats_ok fr (parse_float h) x"
    using JList by (auto simp: list_all_iff)
  show ?case unfolding reads_def
  proof (intro allI impI)
    fix n r
    assume "need (JList xs) \<le> n"
    then obtain m where n: "n = Suc m" "sum_list (map (\<lambda>x. Suc (need x)) xs) \<le> m" by (cases n) auto
    show "parse_val n h (print_json a fr (JList xs) @ r) = Inr (JList xs, r)"
    proof (cases xs)
      case Nil
      with n show ?thesis by (simp add: skip_ws_Cons quote_char_def)
    next
      case (Cons y ys)
      obtain c t where "commas (map (print_json a fr) xs) = c # t" "\<not> is_ws c" "c \<noteq> CHR '']''"
        using print_head[of fr "parse_float h" y a] Cons xs by (cases ys) auto
      with n Cons show ?thesis
        using parse_elems_print[OF _ xs n(2), of r] by (simp add: skip_ws_Cons quote_char_def)
    qed
  qed
next
  case (JObj d)
  let ?pr = "\<lambda>(k, v). print_str a k @ CHR '':'' # print_json a fr v"
  have d: "\<forall>(k, v) \<in> set d. reads h a fr v \<and> floats_ok fr (parse_float h) v"
    using JObj by (fastforce simp: list_all_iff)
  have hk: "pairs_hook h d = Inr (JObj d)" using JObj.prems hook by simp
  show ?case unfolding reads_def
  proof (intro allI impI)
    fix n r
    assume "need (JObj d) \<le> n"
    then obtain m where n: "n = Suc m" "sum_list (map (\<lambda>(k, v). Suc (need v)) d) \<le> m" by (cases n) auto
    show "parse_val n h (print_json a fr (JObj d) @ r) = Inr (JObj d, r)"
    proof (cases d)
      case Nil
      with n hk show ?thesis by (simp add: skip_ws_Cons quote_char_def)
    next
      case (Cons kv ds)
      obtain u where "commas (map ?pr d) = quote_char # u"
        using Cons by (cases ds; cases kv) (auto simp: print_str_def)
      with n Cons hk show ?thesis
        using parse_members_print[OF _ d n(2), of r]
        by (simp add: skip_ws_def is_ws_def quote_char_def)
    qed
  qed
qed (auto simp: reads_def Suc_le_eq gr0_conv_Suc starts_with_def quote_char_def)

subsection \<open>The fuel is enough, and the two directions together\<close>

lemma length_commas:
  "xs \<noteq> [] \<Longrightarrow> length (commas xs) = sum_list (map length xs) + length xs - 1"
  by (induction xs rule: commas.induct) auto

lemma need_bound: "floats_ok fr pf j \<Longrightarrow> need j \<le> 2 * length (print_json a fr j)"
proof (induction j)
  case (JInt i)
  then show ?case by (simp add: int_str_def Suc_le_eq)
next
  case (JFloat r)
  then have "fr r \<noteq> []" using parse_num_head by force
  then show ?case by (simp add: Suc_le_eq)
next
  case (JList xs)
  have "sum_list (map (\<lambda>x. Suc (need x)) xs) \<le>
      2 * sum_list (map (\<lambda>x. length (print_json a fr x)) xs) + length xs"
    using JList by (induction xs) (fastforce simp: list_all_iff)+
  then show ?case by (cases "xs = []") (auto simp: length_commas comp_def)
next
  case (JObj d)
  let ?pr = "\<lambda>(k, v). print_str a k @ CHR '':'' # print_json a fr v"
  have "sum_list (map (\<lambda>(k, v). Suc (need v)) d) \<le> 2 * sum_list (map (\<lambda>x. length (?pr x)) d)"
    using JObj by (induction d) (fastforce simp: list_all_iff)+
  then show ?case by (cases "d = []") (auto simp: length_commas comp_def)
qed (auto simp: print_str_def)

lemma fold_update_distinct:
  "wf_dict (d @ ps) \<Longrightarrow> fold (\<lambda>(k, v) d. AList.update k v d) ps d = d @ ps"
  by (induction ps arbitrary: d) (auto simp: update_new_key)

lemma default_pairs_wf: "wf_dict d \<Longrightarrow> default_pairs d = Inr (JObj d)"
  by (simp add: default_pairs_def fold_update_distinct)

lemma keys_jsort: "keys (sort_key fst (map (\<lambda>(k, v). (k, jsort v)) d)) = sort (keys d)" for d :: jobj
proof -
  have "map fst (sort_key fst xs) = sort (map fst xs)" for xs :: jobj
    by (rule properties_for_sort[symmetric]) simp_all
  moreover have "map fst (map (\<lambda>(k, v). (k, jsort v)) d) = keys d"
    by (simp add: case_prod_beta comp_def)
  ultimately show ?thesis by (simp only:)
qed

lemma wf_json_jsort: "wf_json j \<Longrightarrow> wf_json (jsort j)"
proof (induction j)
  case (JObj d)
  then have "wf_dict (sort_key fst (map (\<lambda>(k, v). (k, jsort v)) d))"
    by (simp only: keys_jsort distinct_sort wf_json.simps)
  with JObj show ?case by (fastforce simp: list_all_iff)
qed (auto simp: list_all_iff)

lemma floats_ok_jsort: "floats_ok fr pf j \<Longrightarrow> floats_ok fr pf (jsort j)"
proof (induction j)
  case (JObj d)
  then show ?case by (fastforce simp: list_all_iff)
qed (auto simp: list_all_iff)

lemma json_loads_print:
  assumes hook: "\<And>d. wf_dict d \<Longrightarrow> pairs_hook h d = Inr (JObj d)"
    and j: "wf_json j" "floats_ok fr (parse_float h) j"
  shows "json_loads h (print_json a fr j) = Inr j"
proof -
  obtain c t where ct: "print_json a fr j = c # t" "\<not> is_ws c"
    using print_head[OF j(2), of a] by blast
  have "need j \<le> 2 * length (print_json a fr j) + 2"
    using need_bound[OF j(2), of a] by simp
  then have "parse_val (2 * length (print_json a fr j) + 2) h (print_json a fr j @ []) = Inr (j, [])"
    using reads_print[OF hook j] by (intro readsD) auto
  then show ?thesis
    using ct by (simp add: json_loads_def skip_ws_Cons) (simp add: skip_ws_def)
qed

text \<open>
  The round trip of the canonical form: \<^verbatim>\<open>json.loads(json.dumps(j, sort_keys=True))\<close>
  is \<open>j\<close> with its keys sorted, for every reader whose pairs hook keeps distinct pairs.
\<close>

lemma json_loads_dumps:
  assumes "\<And>d. wf_dict d \<Longrightarrow> pairs_hook h d = Inr (JObj d)"
    and "wf_json j" "floats_ok fr (parse_float h) j"
  shows "json_loads h (json_dumps a fr j) = Inr (jsort j)"
  unfolding json_dumps_def
  using json_loads_print[OF assms(1) wf_json_jsort floats_ok_jsort] assms(2,3) by blast

text \<open>Lookups do not see the order of the keys.\<close>

lemma map_of_jsort:
  fixes d :: jobj
  assumes "wf_dict d"
  shows "map_of (sort_key fst (map (\<lambda>(k, v). (k, jsort v)) d)) k = map_option jsort (map_of d k)"
proof -
  let ?e = "map (\<lambda>(k, v). (k, jsort v)) d"
  have "wf_dict ?e" using assms by (simp add: case_prod_beta comp_def)
  then have "map_of (sort_key fst ?e) = map_of ?e"
    by (intro map_of_inject_set[THEN iffD2]) (simp_all only: keys_jsort distinct_sort set_sort assms)
  moreover have "map_of ?e k = map_option jsort (map_of d k)" by (induction d) auto
  ultimately show ?thesis by simp
qed

lemma jget_jsort:
  "wf_dict d \<Longrightarrow> jget (sort_key fst (map (\<lambda>(k, v). (k, jsort v)) d)) k = jsort (jget d k)"
  by (simp add: jget_def map_of_jsort split: option.splits)

lemma set_keys_jsort:
  "set (keys (sort_key fst (map (\<lambda>(k, v). (k, jsort v)) d))) = set (keys d)" for d :: jobj
  by (simp only: keys_jsort set_sort)

lemma jsort_strs: "map jsort (map JStr xs) = map JStr xs"
  by (induction xs) auto

text \<open>With \<^verbatim>\<open>ensure_ascii\<close> a value without floats prints in ASCII.\<close>

fun no_floats :: "json \<Rightarrow> bool" where
  "no_floats (JFloat _) = False"
| "no_floats (JNonFinite _) = False"
| "no_floats (JList xs) = list_all no_floats xs"
| "no_floats (JObj d) = list_all (\<lambda>(k, v). no_floats v) d"
| "no_floats _ = True"

lemma no_floats_ok: "no_floats j \<Longrightarrow> floats_ok fr pf j"
  by (induction j) (fastforce simp: list_all_iff)+

lemma no_floats_jsort: "no_floats j \<Longrightarrow> no_floats (jsort j)"
  by (induction j) (fastforce simp: list_all_iff)+

definition is_ascii :: "char \<Rightarrow> bool" where
  "is_ascii c \<longleftrightarrow> code c < 128"

lemma is_ascii_punct [simp]:
  "is_ascii CHR ''['' \<and> is_ascii CHR '']'' \<and> is_ascii CHR ''{'' \<and> is_ascii CHR ''}'' \<and>
   is_ascii CHR '','' \<and> is_ascii CHR '':'' \<and> is_ascii CHR ''-''"
  by (simp add: is_ascii_def)

lemma is_ascii_digit: "is_digit c \<Longrightarrow> is_ascii c"
  by (simp add: is_digit_def is_ascii_def)

lemma is_ascii_esc: "list_all is_ascii (esc_char True c)"
proof -
  have h: "code (hex_char d) < 128" if "d < 16" for d
    using that by (auto simp: hex_char_def)
  have "code c div 16 < 16" using code_less_256[of c] by (simp add: less_mult_imp_div_less)
  then have "code (hex_char (code c div 16)) < 128" by (rule h)
  then show ?thesis
    using h
    by (auto simp: esc_char_def is_ascii_def quote_char_def backslash_def)
qed

lemma is_ascii_print_str: "list_all is_ascii (print_str True s)"
  using is_ascii_esc by (auto simp: print_str_def list_all_iff is_ascii_def quote_char_def)

lemma is_ascii_commas: "list_all (list_all is_ascii) xs \<Longrightarrow> list_all is_ascii (commas xs)"
  by (induction xs rule: commas.induct) (auto simp: is_ascii_def)

lemma is_ascii_print: "no_floats j \<Longrightarrow> list_all is_ascii (print_json True fr j)"
proof (induction j)
  case (JInt i)
  have "list_all is_ascii (nat_str n)" for n
    using nat_str_digits is_ascii_digit by (auto simp: list_all_iff)
  then show ?case by (simp add: int_str_def)
next
  case (JList xs)
  then have "list_all is_ascii (commas (map (print_json True fr) xs))"
    by (intro is_ascii_commas) (auto simp: list_all_iff)
  then show ?case by simp
next
  case (JObj d)
  then have "list_all is_ascii (commas (map (\<lambda>(k, v). print_str True k @ CHR '':'' # print_json True fr v) d))"
    using is_ascii_print_str by (intro is_ascii_commas) (fastforce simp: list_all_iff is_ascii_def)
  then show ?case by simp
qed (auto simp: is_ascii_print_str is_ascii_def)

text \<open>\<^verbatim>\<open>s.encode("utf-8")\<close> for code points below 256, and its length.\<close>

definition utf8_char :: "char \<Rightarrow> string" where
  "utf8_char c = (if code c < 128 then [c] else [char_of (192 + code c div 64), char_of (128 + code c mod 64)])"

definition utf8_encode :: "string \<Rightarrow> string" where
  "utf8_encode s = concat (map utf8_char s)"

definition utf8_len :: "string \<Rightarrow> nat" where
  "utf8_len s = length (utf8_encode s)"

lemma utf8_encode_ascii: "list_all is_ascii s \<Longrightarrow> utf8_encode s = s"
  by (induction s) (auto simp: utf8_encode_def utf8_char_def is_ascii_def)

lemma utf8_len_ascii: "list_all is_ascii s \<Longrightarrow> utf8_len s = length s"
  by (simp add: utf8_len_def utf8_encode_ascii)

text \<open>The values of the listed keys decide whether a dictionary with no other keys has floats.\<close>

lemma no_floats_fields:
  assumes "wf_dict d" "set (keys d) \<subseteq> set names"
    and "\<forall>k \<in> set names. has_key d k \<longrightarrow> no_floats (jget d k)"
  shows "no_floats (JObj d)"
proof -
  have "no_floats v" if "(k, v) \<in> set d" for k v
  proof -
    have "map_of d k = Some v" using that assms(1) by simp
    then have "jget d k = v" "has_key d k" using that by (force simp: jget_def)+
    then show ?thesis using assms(2,3) by blast
  qed
  then show ?thesis by (auto simp: list_all_iff)
qed

lemma is_str_conv: "is_str v \<longleftrightarrow> (\<exists>s. v = JStr s)"
  by (cases v) auto

lemma type_is_int_conv: "type_is_int v \<longleftrightarrow> (\<exists>i. v = JInt i)"
  by (cases v) auto

lemma is_obj_conv: "is_obj v \<longleftrightarrow> (\<exists>d. v = JObj d)"
  by (cases v) auto

lemma is_list_conv: "is_list v \<longleftrightarrow> (\<exists>xs. v = JList xs)"
  by (cases v) auto

lemma type_is_bool_conv: "type_is_bool v \<longleftrightarrow> (\<exists>b. v = JBool b)"
  by (cases v) auto

lemma require_in_conv: "require_in v ss e = Inr () \<longleftrightarrow> (\<exists>s. v = JStr s \<and> s \<in> set ss)"
  by (cases v) (auto simp: require_in_def raise_if_def)

text \<open>Sorting the members of one object; sorting is idempotent and keeps lookups.\<close>

definition jsort_obj :: "jobj \<Rightarrow> jobj" where
  "jsort_obj d = sort_key fst (map (\<lambda>(k, v). (k, jsort v)) d)"

lemma jsort_JObj: "jsort (JObj d) = JObj (jsort_obj d)"
  by (simp add: jsort_obj_def)

lemma jget_jsort_obj: "wf_dict d \<Longrightarrow> jget (jsort_obj d) k = jsort (jget d k)"
  by (simp add: jsort_obj_def jget_jsort)

lemma keys_jsort_obj [simp]: "fst ` set (jsort_obj d) = fst ` set d"
  using set_keys_jsort[of d] by (simp only: jsort_obj_def set_map[symmetric])

lemma wf_dict_jsort_obj: "wf_dict d \<Longrightarrow> wf_dict (jsort_obj d)"
  by (simp only: jsort_obj_def keys_jsort distinct_sort)

lemma jsort_idem: "jsort (jsort j) = jsort j"
proof (induction j)
  case (JObj d)
  let ?f = "\<lambda>(k, v). (k, jsort v)"
  let ?e = "sort_key fst (map ?f d)"
  have "map ?f ?e = ?e"
  proof (rule map_idI)
    fix x assume "x \<in> set ?e"
    then obtain k v where "(k, v) \<in> set d" "x = (k, jsort v)" by auto
    then show "?f x = x" using JObj.IH by (cases x) fastforce
  qed
  moreover have "sort_key fst ?e = ?e"
    by (rule sort_key_id_if_sorted) simp
  ultimately show ?case by simp
qed auto

text \<open>A bound on the encoded size of a document that does not need the document itself.\<close>

fun size_bound :: "json \<Rightarrow> nat" where
  "size_bound (JStr s) = 2 + 6 * length s"
| "size_bound (JInt i) = length (int_str i)"
| "size_bound (JList xs) = 2 + sum_list (map (\<lambda>x. 1 + size_bound x) xs)"
| "size_bound (JObj d) = 2 + sum_list (map (\<lambda>(k, v). 4 + 6 * length k + size_bound v) d)"
| "size_bound _ = 5"

lemma utf8_len_append: "utf8_len (s @ t) = utf8_len s + utf8_len t"
  by (simp add: utf8_len_def utf8_encode_def)

lemma utf8_len_simps [simp]: "utf8_len [] = 0"
  "utf8_len (c # s) = (if code c < 128 then 1 else 2) + utf8_len s"
  by (simp_all add: utf8_len_def utf8_encode_def utf8_char_def)

lemma utf8_len_esc: "utf8_len (esc_char a c) \<le> 6"
proof -
  have h: "code (hex_char d) < 128" if "d < 16" for d using that by (auto simp: hex_char_def)
  have "code c div 16 < 16" using code_less_256[of c] by (simp add: less_mult_imp_div_less)
  from h[OF this] show ?thesis
    using h[of "code c mod 16"] by (auto simp: esc_char_def backslash_def quote_char_def)
qed

lemma utf8_len_print_str: "utf8_len (print_str a s) \<le> 2 + 6 * length s"
proof -
  have "utf8_len (concat (map (esc_char a) s)) \<le> 6 * length s"
    using utf8_len_esc by (induction s) (auto simp: utf8_len_append intro: add_mono)
  then show ?thesis by (simp add: print_str_def utf8_len_append quote_char_def)
qed

lemma utf8_len_commas: "utf8_len (commas xs) \<le> sum_list (map (\<lambda>x. 1 + utf8_len x) xs)"
  by (induction xs rule: commas.induct) (auto simp: utf8_len_append)

lemma utf8_len_print: "no_floats j \<Longrightarrow> utf8_len (print_json a fr j) \<le> size_bound j"
proof (induction j)
  case (JInt i)
  have "list_all is_ascii (nat_str n)" for n
    using nat_str_digits is_ascii_digit by (auto simp: list_all_iff)
  then have "list_all is_ascii (int_str i)" by (simp add: int_str_def)
  then show ?case by (simp add: utf8_len_ascii)
next
  case (JStr s)
  then show ?case using utf8_len_print_str by simp
next
  case (JList xs)
  then have "sum_list (map (\<lambda>x. 1 + utf8_len (print_json a fr x)) xs) \<le> sum_list (map (\<lambda>x. 1 + size_bound x) xs)"
    by (intro sum_list_mono) (auto simp: list_all_iff)
  with utf8_len_commas[of "map (print_json a fr) xs"] show ?case by (simp add: utf8_len_append comp_def)
next
  case (JObj d)
  have "utf8_len (print_str a k @ CHR '':'' # print_json a fr v) + 1 \<le> 4 + 6 * length k + size_bound v"
    if "(k, v) \<in> set d" for k v
    using JObj.IH[of "(k, v)" v] JObj.prems that utf8_len_print_str[of a k]
    by (fastforce simp: utf8_len_append list_all_iff)
  then have "sum_list (map (\<lambda>(k, v). 1 + utf8_len (print_str a k @ CHR '':'' # print_json a fr v)) d)
      \<le> sum_list (map (\<lambda>(k, v). 4 + 6 * length k + size_bound v) d)"
    by (intro sum_list_mono) fastforce
  with utf8_len_commas[of "map (\<lambda>(k, v). print_str a k @ CHR '':'' # print_json a fr v) d"] show ?case
    by (simp add: utf8_len_append comp_def case_prod_unfold)
qed auto

lemma size_bound_jsort: "size_bound (jsort j) = size_bound j"
proof (induction j)
  case (JList xs)
  then show ?case by (auto intro!: arg_cong[of _ _ sum_list])
next
  case (JObj d)
  let ?g = "\<lambda>(k, v). 4 + 6 * length k + size_bound v"
  have "sum_list (map ?g (sort_key fst (map (\<lambda>(k, v). (k, jsort v)) d)))
      = sum_list (map ?g (map (\<lambda>(k, v). (k, jsort v)) d))"
    unfolding sum_mset_sum_list[symmetric] mset_map mset_sort ..
  also have "map ?g (map (\<lambda>(k, v). (k, jsort v)) d) = map ?g d"
    unfolding map_map
  proof (rule map_cong)
    fix x assume x: "x \<in> set d"
    obtain k v where "x = (k, v)" by force
    then show "(?g \<circ> (\<lambda>(k, v). (k, jsort v))) x = ?g x" using JObj[OF x] by simp
  qed simp
  finally show ?case by simp
qed auto

lemma utf8_len_dumps: "no_floats j \<Longrightarrow> utf8_len (json_dumps a fr j) \<le> size_bound j"
  using utf8_len_print[OF no_floats_jsort] size_bound_jsort by (simp add: json_dumps_def)


section \<open>What reading returns\<close>

text \<open>A reader whose hooks build values with distinct keys returns such values.\<close>

definition wf_hooks :: "json_hooks \<Rightarrow> bool" where
  "wf_hooks h \<longleftrightarrow>
     (\<forall>ps v. list_all (\<lambda>(k, x). wf_json x) ps \<longrightarrow> pairs_hook h ps = Inr v \<longrightarrow> wf_json v) \<and>
     (\<forall>c v. constant_hook h c = Inr v \<longrightarrow> wf_json v)"

lemma parse_num_wf: "parse_num pf s = Some (v, r) \<Longrightarrow> wf_json v"
  by (auto simp: parse_num_def Let_def split: if_splits)

lemma parse_wf:
  "wf_hooks h \<Longrightarrow> parse_val n h s = Inr (v, r) \<Longrightarrow> wf_json v"
  "wf_hooks h \<Longrightarrow> parse_elems n h s = Inr (xs, r) \<Longrightarrow> list_all wf_json xs"
  "wf_hooks h \<Longrightarrow> parse_members n h s = Inr (ps, r) \<Longrightarrow> list_all (\<lambda>(k, x). wf_json x) ps"
proof (induction n h s and n h s and n h s arbitrary: v r and xs r and ps r
    rule: parse_val_parse_elems_parse_members.induct)
  case (2 n h s)
  have pairs: "list_all (\<lambda>(k, x). wf_json x) ps \<Longrightarrow> pairs_hook h ps = Inr v \<Longrightarrow> wf_json v" for ps v
    using 2(3) unfolding wf_hooks_def by blast
  have const: "constant_hook h c = Inr v \<Longrightarrow> wf_json v" for c v
    using 2(3) unfolding wf_hooks_def by blast
  show ?case
    using "2.prems"(2) 2(1)[OF _ _ _ _ _ "2.prems"(1)] 2(2)[OF _ _ _ _ _ _ "2.prems"(1)]
    by (auto simp: bind_r_eq_Inr const parse_num_wf split: list.splits if_splits option.splits prod.splits
        intro: pairs[of "[]"]) (metis pairs)
next
  case (4 n h s)
  from 4(4) obtain x t where x: "parse_val n h s = Inr (x, t)" by (auto simp: bind_r_eq_Inr)
  have "wf_json x" by (rule 4(1)[OF 4(3) x])
  then show ?case
    using 4(4) 4(2)[OF _ _ _ 4(3)] x by (auto simp: bind_r_eq_Inr split: list.splits if_splits)
next
  case (6 n h s)
  from 6(4) obtain t where s: "s = quote_char # t" by (auto split: list.splits if_splits)
  from 6(4) obtain k r1 where k: "or_decode (parse_str t) = Inr (k, r1)"
    unfolding s by (auto simp: bind_r_eq_Inr)
  from 6(4) obtain u where u: "skip_ws r1 = CHR '':'' # u"
    unfolding s by (auto simp: k split: list.splits if_splits)
  from 6(4) obtain v r2 where v: "parse_val n h (skip_ws u) = Inr (v, r2)"
    unfolding s by (auto simp: k u bind_r_eq_Inr)
  from 6(4) obtain e w where e: "skip_ws r2 = e # w"
    unfolding s by (auto simp: k u v split: list.splits)
  have ps: "e = CHR ''}'' \<and> ps = [(k, v)] \<or>
      e \<noteq> CHR ''}'' \<and> e = CHR '','' \<and> (\<exists>ps' r3. parse_members n h (skip_ws w) = Inr (ps', r3) \<and> ps = (k, v) # ps')"
    using 6(4) unfolding s by (auto simp: k u v e bind_r_eq_Inr split: if_splits)
  have "wf_json v" by (rule 6(1)[OF s _ u _ 6(3) v]) simp_all
  moreover have "list_all (\<lambda>(k, x). wf_json x) ps'" if "parse_members n h (skip_ws w) = Inr (ps', r3)"
    "e \<noteq> CHR ''}''" "e = CHR '',''" for ps' r3
    by (rule 6(2)[OF s _ u _ e that(2,3) 6(3) that(1)]) simp_all
  ultimately show ?case using ps by auto
qed auto

lemma wf_default_hooks: "wf_hooks (default_hooks pf)"
proof -
  have "wf_json (JObj (fold (\<lambda>(k, v). AList.update k v) ps d))"
    if "list_all (\<lambda>(k, x). wf_json x) ps" "wf_json (JObj d)" for ps d
    using that
  proof (induction ps arbitrary: d)
    case (Cons p ps)
    obtain k v where p: "p = (k, v)" by (cases p)
    have "wf_json (JObj (AList.update k v d))"
      using Cons.prems p by (auto simp: list_all_iff set_update_dict distinct_update)
    then show ?case using Cons p by simp
  qed simp
  from this[of _ "[]"] show ?thesis by (auto simp: wf_hooks_def default_hooks_def default_pairs_def)
qed

text \<open>Whatever the default reader returns has distinct keys at every level.\<close>

lemma json_loads_wf: "json_loads (default_hooks pf) s = Inr v \<Longrightarrow> wf_json v"
  by (auto simp: json_loads_def bind_r_eq_Inr simp del: parse_val.simps split: if_splits
      intro: parse_wf(1)[OF wf_default_hooks])

end
