(* ===== verification/LocalStore.thy ===== *)
theory LocalStore
  imports Json
begin

text \<open>
  \<^verbatim>\<open>src/josh_room/local_store.py\<close>: the immutable content-addressed object store on the
  local disk. The directory below the root is a map from relative paths to entries; a put
  publishes with \<^verbatim>\<open>os.link\<close>, so it never replaces an entry. The partial file of a put or
  a download exists only while the call runs (it is unlinked in a \<^verbatim>\<open>finally\<close> clause) and is
  not part of the state. SHA-256 is a parameter: any function from contents to digests.
\<close>

definition MAX_OBJECT_SIZE :: nat where
  "MAX_OBJECT_SIZE = 8 * 1024 * 1024 * 1024"

definition READ_CHUNK :: nat where
  "READ_CHUNK = 1024 * 1024"

definition OBJECT_PREFIX :: string where
  "OBJECT_PREFIX = ''objects/sha256/''"

text \<open>\<^verbatim>\<open>OBJECT_KEY.fullmatch(key)\<close>: the captured digest.\<close>

definition OBJECT_KEY :: "string \<Rightarrow> string option" where
  "OBJECT_KEY k =
     (if starts_with k OBJECT_PREFIX \<and> is_sha256 (drop (length OBJECT_PREFIX) k)
      then Some (drop (length OBJECT_PREFIX) k) else None)"

text \<open>\<^verbatim>\<open>ObjectRef\<close>: its annotations are not enforced, so the fields are arbitrary values.\<close>

record object_ref =
  or_key :: json
  or_sha256 :: json
  or_size :: json

datatype entry = Regular string | Symlink

type_synonym store = "string \<rightharpoonup> entry"

text \<open>What successive \<^verbatim>\<open>read(n)\<close> calls on a regular file return.\<close>

function file_chunks :: "nat \<Rightarrow> string \<Rightarrow> string list" where
  "file_chunks n s = (if n = 0 \<or> s = [] then [] else take n s # file_chunks n (drop n s))"
  by pat_completeness auto
termination
  by (relation "measure (length \<circ> snd)") auto

declare file_chunks.simps [simp del]

text \<open>
  The copy loop shared by publication, download and verification: it stops at an empty
  read, fails once more than \<open>limit\<close> bytes were seen, and returns what it copied.
\<close>

fun copy_loop :: "nat \<Rightarrow> string \<Rightarrow> string list \<Rightarrow> string result" where
  "copy_loop limit acc [] = Inr acc"
| "copy_loop limit acc (chunk # rest) =
     (if chunk = [] then Inr acc
      else if length acc + length chunk > limit then Inl (ValueError ''object exceeds maximum size'')
      else copy_loop limit (acc @ chunk) rest)"

definition put_stream ::
  "(string \<Rightarrow> string) \<Rightarrow> store \<Rightarrow> string option \<Rightarrow> string list \<Rightarrow> nat \<Rightarrow> (object_ref \<times> store) result" where
  "put_stream sha st key source expected_size =
     bind_r (raise_if (expected_size > MAX_OBJECT_SIZE) (ValueError ''object exceeds maximum size'')) (\<lambda>_.
     bind_r (copy_loop MAX_OBJECT_SIZE [] source) (\<lambda>body.
     bind_r (raise_if (length body \<noteq> expected_size)
       (ValueError ''object source size changed during publication'')) (\<lambda>_.
     (let observed = sha body;
          resolved_key = (case key of
              Some k \<Rightarrow> (if k = [] then OBJECT_PREFIX @ observed else k)
            | None \<Rightarrow> OBJECT_PREFIX @ observed)
      in case OBJECT_KEY resolved_key of
           None \<Rightarrow> Inl (ValueError ''invalid object key'')
         | Some digest \<Rightarrow>
             if observed \<noteq> digest then Inl (ValueError ''object key does not match content digest'')
             else if st resolved_key \<noteq> None then Inl FileExistsError
             else Inr (\<lparr>or_key = JStr resolved_key, or_sha256 = JStr observed,
                        or_size = JInt (int (length body))\<rparr>,
                       st(resolved_key \<mapsto> Regular body))))))"

text \<open>\<^verbatim>\<open>put_at_key\<close> reads from an in-memory buffer, \<^verbatim>\<open>put_file\<close> from an open file.\<close>

definition put_at_key ::
  "(string \<Rightarrow> string) \<Rightarrow> store \<Rightarrow> string \<Rightarrow> string \<Rightarrow> (object_ref \<times> store) result" where
  "put_at_key sha st key body =
     put_stream sha st (Some key) (file_chunks READ_CHUNK body) (length body)"

definition put :: "(string \<Rightarrow> string) \<Rightarrow> store \<Rightarrow> string \<Rightarrow> (object_ref \<times> store) result" where
  "put sha st body = put_at_key sha st (OBJECT_PREFIX @ sha body) body"

definition put_file :: "(string \<Rightarrow> string) \<Rightarrow> store \<Rightarrow> string \<Rightarrow> (object_ref \<times> store) result" where
  "put_file sha st source = put_stream sha st None (file_chunks READ_CHUNK source) (length source)"

text \<open>The bytes that \<^verbatim>\<open>download_file\<close> moves to its destination.\<close>

definition download_file ::
  "(string \<Rightarrow> string) \<Rightarrow> store \<Rightarrow> string \<Rightarrow> string \<Rightarrow> nat \<Rightarrow> string result" where
  "download_file sha st key expected_digest expected_size =
     (case OBJECT_KEY key of
        None \<Rightarrow> Inl (ValueError ''invalid object key'')
      | Some digest \<Rightarrow>
          (case st key of
             Some (Regular content) \<Rightarrow>
               if length content \<noteq> expected_size then Inl (ValueError ''local object size mismatch'')
               else bind_r (copy_loop MAX_OBJECT_SIZE [] (file_chunks READ_CHUNK content)) (\<lambda>body.
                 if length body \<noteq> expected_size \<or> sha body \<noteq> expected_digest \<or> expected_digest \<noteq> digest
                 then Inl (ValueError ''local object digest mismatch'') else Inr body)
           | _ \<Rightarrow> Inl (ValueError ''local object size mismatch'')))"

text \<open>\<^verbatim>\<open>get\<close> follows a symbolic link; the model's link has no readable target.\<close>

definition get ::
  "(string \<Rightarrow> string) \<Rightarrow> store \<Rightarrow> string \<Rightarrow> string option \<Rightarrow> nat option \<Rightarrow> string result" where
  "get sha st key expected_digest expected_size =
     (case OBJECT_KEY key of
        None \<Rightarrow> Inl (ValueError ''invalid object key'')
      | Some _ \<Rightarrow>
          (case st key of
             Some (Regular body) \<Rightarrow>
               if length body > MAX_OBJECT_SIZE \<or> (expected_size \<noteq> None \<and> Some (length body) \<noteq> expected_size)
               then Inl (ValueError ''local object size mismatch'')
               else if expected_digest \<noteq> None \<and> Some (sha body) \<noteq> expected_digest
               then Inl (ValueError ''local object digest mismatch'')
               else Inr body
           | _ \<Rightarrow> Inl FileNotFoundError))"

definition verify ::
  "(string \<Rightarrow> string) \<Rightarrow> store \<Rightarrow> string \<Rightarrow> string \<Rightarrow> nat \<Rightarrow> object_ref result" where
  "verify sha st key expected_digest expected_size =
     (if OBJECT_KEY key \<noteq> Some expected_digest then Inl (ValueError ''invalid object key'')
      else (case st key of
              Some (Regular content) \<Rightarrow>
                if length content \<noteq> expected_size then Inl (ValueError ''local object size mismatch'')
                else bind_r (copy_loop MAX_OBJECT_SIZE [] (file_chunks READ_CHUNK content)) (\<lambda>body.
                  if length body \<noteq> expected_size \<or> sha body \<noteq> expected_digest
                  then Inl (ValueError ''local object digest mismatch'')
                  else Inr \<lparr>or_key = JStr key, or_sha256 = JStr (sha body),
                            or_size = JInt (int (length body))\<rparr>)
            | _ \<Rightarrow> Inl (ValueError ''local object is unavailable'')))"

definition delete :: "store \<Rightarrow> string \<Rightarrow> store result" where
  "delete st key =
     (if OBJECT_KEY key = None then Inl (ValueError ''invalid object key'')
      else (case st key of
              Some Symlink \<Rightarrow> Inl (ValueError ''local object must not be a symlink'')
            | _ \<Rightarrow> Inr (st(key := None))))"


section \<open>The store invariant and the library\<close>

text \<open>Every regular entry is stored under the digest of its contents and within the bound.\<close>

definition store_inv :: "(string \<Rightarrow> string) \<Rightarrow> store \<Rightarrow> bool" where
  "store_inv sha st \<longleftrightarrow>
     (\<forall>k body. st k = Some (Regular body) \<longrightarrow>
        OBJECT_KEY k = Some (sha body) \<and> length body \<le> MAX_OBJECT_SIZE)"

lemma OBJECT_KEY_prefix: "is_sha256 d \<Longrightarrow> OBJECT_KEY (OBJECT_PREFIX @ d) = Some d"
  by (simp add: OBJECT_KEY_def starts_with_def)

lemma OBJECT_KEY_Some:
  "OBJECT_KEY k = Some d \<longleftrightarrow> k = OBJECT_PREFIX @ d \<and> is_sha256 d"
proof
  assume "OBJECT_KEY k = Some d"
  then have t: "take (length OBJECT_PREFIX) k = OBJECT_PREFIX"
    and d: "d = drop (length OBJECT_PREFIX) k" "is_sha256 d"
    by (auto simp: OBJECT_KEY_def starts_with_def split: if_splits)
  have "k = take (length OBJECT_PREFIX) k @ drop (length OBJECT_PREFIX) k"
    by (rule append_take_drop_id[symmetric])
  with t d show "k = OBJECT_PREFIX @ d \<and> is_sha256 d" by simp
qed (auto simp: OBJECT_KEY_prefix)

lemma OBJECT_KEY_rsplit: "OBJECT_KEY k = Some d \<Longrightarrow> rsplit_last CHR ''/'' k = d"
  using rsplit_last_append[OF is_sha256_no_slash, of d "''objects/sha256''"]
  by (auto simp: OBJECT_KEY_Some OBJECT_PREFIX_def)

lemma concat_file_chunks: "0 < n \<Longrightarrow> concat (file_chunks n s) = s"
proof (induction n s rule: file_chunks.induct)
  case (1 n s)
  then show ?case by (subst file_chunks.simps) auto
qed

lemma file_chunks_ne: "[] \<notin> set (file_chunks n s)"
proof (induction n s rule: file_chunks.induct)
  case (1 n s)
  then show ?case by (subst file_chunks.simps) auto
qed

text \<open>The loop's result does not depend on how the bytes are split into reads.\<close>

lemma copy_loop_concat:
  "[] \<notin> set cs \<Longrightarrow> copy_loop limit acc cs =
     (if length (acc @ concat cs) \<le> limit \<or> cs = [] then Inr (acc @ concat cs)
      else Inl (ValueError ''object exceeds maximum size''))"
  by (induction cs arbitrary: acc) auto

lemma copy_loop_file:
  "copy_loop limit [] (file_chunks READ_CHUNK s) =
     (if length s \<le> limit then Inr s else Inl (ValueError ''object exceeds maximum size''))"
proof -
  have c: "concat (file_chunks READ_CHUNK s) = s"
    by (rule concat_file_chunks) (simp add: READ_CHUNK_def)
  then have "file_chunks READ_CHUNK s = [] \<Longrightarrow> s = []" by (metis concat.simps(1))
  then show ?thesis using c by (auto simp: copy_loop_concat[OF file_chunks_ne])
qed

lemma put_stream_file:
  "put_stream sha st key (file_chunks READ_CHUNK body) (length body) =
     (let resolved = (case key of Some k \<Rightarrow> (if k = [] then OBJECT_PREFIX @ sha body else k)
                      | None \<Rightarrow> OBJECT_PREFIX @ sha body)
      in if length body > MAX_OBJECT_SIZE then Inl (ValueError ''object exceeds maximum size'')
         else case OBJECT_KEY resolved of
           None \<Rightarrow> Inl (ValueError ''invalid object key'')
         | Some digest \<Rightarrow>
             if sha body \<noteq> digest then Inl (ValueError ''object key does not match content digest'')
             else if st resolved \<noteq> None then Inl FileExistsError
             else Inr (\<lparr>or_key = JStr resolved, or_sha256 = JStr (sha body),
                        or_size = JInt (int (length body))\<rparr>, st(resolved \<mapsto> Regular body)))"
proof (cases "length body > MAX_OBJECT_SIZE")
  case True
  then show ?thesis by (simp add: put_stream_def)
next
  case False
  then show ?thesis by (simp add: put_stream_def copy_loop_file Let_def)
qed

lemma put_Inr:
  "put sha st body = Inr (ref, st') \<longleftrightarrow>
     length body \<le> MAX_OBJECT_SIZE \<and> is_sha256 (sha body) \<and>
     st (OBJECT_PREFIX @ sha body) = None \<and>
     ref = \<lparr>or_key = JStr (OBJECT_PREFIX @ sha body), or_sha256 = JStr (sha body),
            or_size = JInt (int (length body))\<rparr> \<and>
     st' = st(OBJECT_PREFIX @ sha body \<mapsto> Regular body)"
proof -
  have "OBJECT_PREFIX @ sha body \<noteq> []" by (simp add: OBJECT_PREFIX_def)
  then show ?thesis
    unfolding put_def put_at_key_def put_stream_file
    by (cases "OBJECT_KEY (OBJECT_PREFIX @ sha body)")
       (auto simp: OBJECT_KEY_Some OBJECT_KEY_prefix Let_def)
qed

lemma put_file_eq_put: "put_file sha st body = put sha st body"
proof -
  have "OBJECT_PREFIX @ sha body \<noteq> []" by (simp add: OBJECT_PREFIX_def)
  then show ?thesis
    unfolding put_def put_at_key_def put_file_def put_stream_file by simp
qed

lemma put_inv: "store_inv sha st \<Longrightarrow> put sha st body = Inr (ref, st') \<Longrightarrow> store_inv sha st'"
  by (auto simp: store_inv_def put_Inr OBJECT_KEY_prefix)

lemma put_at_key_cases:
  "put_at_key sha st key body = Inr (ref, st') \<Longrightarrow> put sha st body = Inr (ref, st')"
  unfolding put_at_key_def put_stream_file put_Inr
  by (auto simp: OBJECT_KEY_Some Let_def split: if_splits option.splits)

lemma delete_inv: "store_inv sha st \<Longrightarrow> delete st key = Inr st' \<Longrightarrow> store_inv sha st'"
  by (auto simp: store_inv_def delete_def split: if_splits option.splits entry.splits)

lemma get_stored:
  "store_inv sha st \<Longrightarrow> st key = Some (Regular body) \<Longrightarrow>
     get sha st key (Some (sha body)) (Some (length body)) = Inr body"
  using leD by (fastforce simp: store_inv_def get_def)

lemma get_Inr:
  "get sha st key dg sz = Inr body \<Longrightarrow> st key = Some (Regular body)"
  by (auto simp: get_def split: option.splits entry.splits if_splits)

lemma download_Inr:
  "download_file sha st key dg sz = Inr body \<longleftrightarrow>
     OBJECT_KEY key = Some dg \<and> st key = Some (Regular body) \<and> length body = sz \<and>
     sha body = dg \<and> sz \<le> MAX_OBJECT_SIZE"
  by (auto simp: download_file_def copy_loop_file check_simps
      split: option.splits entry.splits if_splits)

lemma verify_Inr:
  "verify sha st key dg sz = Inr ref \<longleftrightarrow>
     (\<exists>body. OBJECT_KEY key = Some dg \<and> st key = Some (Regular body) \<and> length body = sz \<and>
       sha body = dg \<and> sz \<le> MAX_OBJECT_SIZE \<and>
       ref = \<lparr>or_key = JStr key, or_sha256 = JStr dg, or_size = JInt (int sz)\<rparr>)"
  by (auto simp: verify_def copy_loop_file check_simps
      split: option.splits entry.splits if_splits)


section \<open>The contract of an object store\<close>

text \<open>
  What the callers in \<^verbatim>\<open>operations.py\<close> rely on, whatever the backend: a published object
  can be fetched with its digest and size, publishing never changes what another key holds,
  and an object that is fetched matches the digest it was asked for.
\<close>

locale object_store =
  fixes publish :: "'s \<Rightarrow> string \<Rightarrow> (object_ref \<times> 's) result"
    and fetch :: "'s \<Rightarrow> string \<Rightarrow> string \<Rightarrow> nat \<Rightarrow> string result"
    and digest :: "string \<Rightarrow> string"
    and invar :: "'s \<Rightarrow> bool"
  assumes publish_invar: "invar s \<Longrightarrow> publish s body = Inr (ref, s') \<Longrightarrow> invar s'"
    and publish_fetch: "invar s \<Longrightarrow> publish s body = Inr (ref, s') \<Longrightarrow>
          fetch s' (str_of (or_key ref)) (str_of (or_sha256 ref)) (nat (int_of (or_size ref))) = Inr body"
    and publish_keeps: "invar s \<Longrightarrow> publish s body = Inr (ref, s') \<Longrightarrow>
          fetch s k d n = Inr other \<Longrightarrow> fetch s' k d n = Inr other"
    and fetch_digest: "invar s \<Longrightarrow> fetch s k d n = Inr body \<Longrightarrow> digest body = d"
begin

text \<open>Publishing several bodies one after the other.\<close>

fun publish_all :: "'s \<Rightarrow> string list \<Rightarrow> (object_ref list \<times> 's) result" where
  "publish_all s [] = Inr ([], s)"
| "publish_all s (b # bs) =
     bind_r (publish s b) (\<lambda>(r, s1). bind_r (publish_all s1 bs) (\<lambda>(rs, s2). Inr (r # rs, s2)))"

lemma publish_all_invar:
  "invar s \<Longrightarrow> publish_all s bs = Inr (refs, s') \<Longrightarrow> invar s'"
proof (induction bs arbitrary: s refs)
  case (Cons b bs)
  then show ?case by (auto simp: check_simps dest: publish_invar)
qed simp

lemma publish_all_keeps:
  "invar s \<Longrightarrow> publish_all s bs = Inr (refs, s') \<Longrightarrow> fetch s k d n = Inr other \<Longrightarrow>
     fetch s' k d n = Inr other"
proof (induction bs arbitrary: s refs)
  case (Cons b bs)
  then show ?case
    by (auto simp: check_simps dest: publish_invar publish_keeps)
qed simp

text \<open>Every reference handed out stays fetchable, and yields the body it was made for.\<close>

lemma publish_all_fetch:
  "invar s \<Longrightarrow> publish_all s bs = Inr (refs, s') \<Longrightarrow>
     length refs = length bs \<and>
     (\<forall>i < length bs. fetch s' (str_of (or_key (refs ! i))) (str_of (or_sha256 (refs ! i)))
        (nat (int_of (or_size (refs ! i)))) = Inr (bs ! i))"
proof (induction bs arbitrary: s refs)
  case Nil
  then show ?case by simp
next
  case (Cons b bs)
  from Cons.prems obtain r s1 rs where r: "publish s b = Inr (r, s1)"
    "publish_all s1 bs = Inr (rs, s')" "refs = r # rs"
    by (auto simp: check_simps)
  have s1: "invar s1" using publish_invar Cons.prems(1) r(1) by blast
  have "fetch s' (str_of (or_key r)) (str_of (or_sha256 r)) (nat (int_of (or_size r))) = Inr b"
    using publish_all_keeps[OF s1 r(2)] publish_fetch[OF Cons.prems(1) r(1)] by blast
  with Cons.IH[OF s1 r(2)] r(3) show ?case
    by (auto simp: nth_Cons split: nat.splits)
qed

end

interpretation local_objects: object_store "put sha" "download_file sha" sha "store_inv sha" for sha
proof unfold_locales
  fix s s' body ref
  assume inv: "store_inv sha s" and p: "put sha s body = Inr (ref, s')"
  show "store_inv sha s'" using put_inv[OF inv p] .
  show "download_file sha s' (str_of (or_key ref)) (str_of (or_sha256 ref)) (nat (int_of (or_size ref))) = Inr body"
    using p by (auto simp: put_Inr download_Inr OBJECT_KEY_prefix)
  fix k d n other
  show "download_file sha s k d n = Inr other \<Longrightarrow> download_file sha s' k d n = Inr other"
    using p by (auto simp: put_Inr download_Inr)
next
  fix s k d n body
  show "download_file sha s k d n = Inr body \<Longrightarrow> sha body = d"
    by (simp add: download_Inr)
qed


section \<open>Properties of the store\<close>

lemma put_stream_Inr:
  "put_stream sha st key source n = Inr (ref, st') \<Longrightarrow>
     \<exists>k body. OBJECT_KEY k = Some (sha body) \<and> length body = n \<and> n \<le> MAX_OBJECT_SIZE \<and> st k = None \<and>
       st' = st(k \<mapsto> Regular body) \<and>
       ref = \<lparr>or_key = JStr k, or_sha256 = JStr (sha body), or_size = JInt (int n)\<rparr>"
  by (cases key; fastforce simp: put_stream_def check_simps Let_def split: option.splits if_splits)

text \<open>What a client can do to the directory: publish from a stream, or delete.\<close>

inductive store_step :: "(string \<Rightarrow> string) \<Rightarrow> store \<Rightarrow> store \<Rightarrow> bool" for sha where
  publish_step: "put_stream sha st key source n = Inr (ref, st') \<Longrightarrow> store_step sha st st'"
| delete_step: "delete st key = Inr st' \<Longrightarrow> store_step sha st st'"

inductive_cases store_stepE: "store_step sha st st'"

lemma store_step_inv: "store_step sha st st' \<Longrightarrow> store_inv sha st \<Longrightarrow> store_inv sha st'"
proof (erule store_stepE)
  fix key source n ref
  assume "store_inv sha st" "put_stream sha st key source n = Inr (ref, st')"
  then show "store_inv sha st'" by (auto simp: store_inv_def dest!: put_stream_Inr split: if_splits)
qed (auto dest: delete_inv)

lemma store_steps_inv: "(store_step sha)\<^sup>*\<^sup>* st st' \<Longrightarrow> store_inv sha st \<Longrightarrow> store_inv sha st'"
  by (induction rule: rtranclp_induct) (auto intro: store_step_inv)

text \<open>A step never replaces what a key holds by something else.\<close>

lemma store_step_keeps:
  "store_step sha st st' \<Longrightarrow> st k = Some e \<Longrightarrow> st' k = Some e \<or> st' k = None"
  by (erule store_stepE)
     (auto simp: delete_def dest!: put_stream_Inr split: if_splits option.splits entry.splits)

text \<open>C32. Publishing any number of bodies one after the other into a store in which every
  object is filed under its digest hands out references that all remain downloadable at the
  end, each yielding exactly the body it was issued for.\<close>

theorem published_objects_downloadable:
  assumes "store_inv sha st"
    and "local_objects.publish_all sha st bodies = Inr (refs, st')"
    and "i < length bodies"
  shows "download_file sha st' (str_of (or_key (refs ! i))) (str_of (or_sha256 (refs ! i)))
           (nat (int_of (or_size (refs ! i)))) = Inr (bodies ! i)"
  using local_objects.publish_all_fetch[OF assms(1,2)] assms(3) by blast

definition demo_sha :: "string \<Rightarrow> string" where
  "demo_sha s = replicate 64 (if s = ''a'' then CHR ''0'' else CHR ''1'')"

lemma demo_sha_ok [simp]: "is_sha256 (demo_sha s)"
  by (simp add: demo_sha_def is_hex_def is_digit_def)

definition demo_refs :: "object_ref list \<times> store" where
  "demo_refs =
     (let ref = (\<lambda>b. \<lparr>or_key = JStr (OBJECT_PREFIX @ demo_sha b), or_sha256 = JStr (demo_sha b),
                      or_size = JInt (int (length b))\<rparr>)
      in ([ref ''a'', ref ''bc''],
          Map.empty(OBJECT_PREFIX @ demo_sha ''a'' \<mapsto> Regular ''a'',
                    OBJECT_PREFIX @ demo_sha ''bc'' \<mapsto> Regular ''bc'')))"

lemma demo_publish: "local_objects.publish_all demo_sha Map.empty [''a'', ''bc''] = Inr demo_refs"
proof -
  have 1: "put demo_sha Map.empty ''a'' = Inr (fst demo_refs ! 0, Map.empty(OBJECT_PREFIX @ demo_sha ''a'' \<mapsto> Regular ''a''))"
    by (simp add: put_Inr demo_refs_def MAX_OBJECT_SIZE_def)
  have ne: "demo_sha ''a'' \<noteq> demo_sha ''bc''" by (simp add: demo_sha_def replicate_eq_replicate)
  have 2: "put demo_sha (Map.empty(OBJECT_PREFIX @ demo_sha ''a'' \<mapsto> Regular ''a'')) ''bc''
     = Inr (fst demo_refs ! 1, snd demo_refs)"
    using ne by (simp add: put_Inr demo_refs_def MAX_OBJECT_SIZE_def Let_def)
  show ?thesis by (simp add: 1 2) (simp add: demo_refs_def Let_def)
qed

theorem published_objects_downloadable_witness:
  "download_file demo_sha (snd demo_refs) (OBJECT_PREFIX @ demo_sha ''a'') (demo_sha ''a'') 1 = Inr ''a''"
  using published_objects_downloadable[of demo_sha Map.empty "[''a'', ''bc'']" "fst demo_refs" "snd demo_refs" 0]
    demo_publish
  by (simp add: store_inv_def) (simp add: demo_refs_def Let_def)

text \<open>C33. Whatever sequence of publications (from any stream of reads, under any requested
  key) and deletions has run on an initially empty store, a digest-checked download, a
  verification and an unchecked get all agree: what is stored under a key hashes to the digest
  in that key and fits the size limit, so the checked reads accept it and the unchecked read
  returns the same bytes.\<close>

theorem reachable_store_reads_agree:
  assumes "(store_step sha)\<^sup>*\<^sup>* Map.empty st" and "st key = Some (Regular body)"
  shows "key = OBJECT_PREFIX @ sha body \<and> length body \<le> MAX_OBJECT_SIZE \<and>
         download_file sha st key (sha body) (length body) = Inr body \<and>
         get sha st key None None = Inr body \<and>
         verify sha st key (sha body) (length body) =
           Inr \<lparr>or_key = JStr key, or_sha256 = JStr (sha body), or_size = JInt (int (length body))\<rparr>"
proof -
  have inv: "store_inv sha st" using store_steps_inv[OF assms(1)] by (simp add: store_inv_def)
  then have k: "OBJECT_KEY key = Some (sha body)" "length body \<le> MAX_OBJECT_SIZE"
    using assms(2) by (auto simp: store_inv_def)
  have "get sha st key None None = Inr body" using k assms(2) by (simp add: get_def)
  with k assms(2) show ?thesis by (simp add: download_Inr verify_Inr OBJECT_KEY_Some)
qed

theorem reachable_store_reads_agree_witness:
  "get demo_sha (Map.empty(OBJECT_PREFIX @ demo_sha ''a'' \<mapsto> Regular ''a''))
     (OBJECT_PREFIX @ demo_sha ''a'') None None = Inr ''a''"
proof -
  let ?st = "Map.empty(OBJECT_PREFIX @ demo_sha ''a'' \<mapsto> Regular ''a'') :: store"
  have "put demo_sha Map.empty ''a'' = Inr (fst demo_refs ! 0, ?st)"
    by (simp add: put_Inr demo_refs_def MAX_OBJECT_SIZE_def)
  then have "store_step demo_sha Map.empty ?st"
    unfolding put_def put_at_key_def by (rule publish_step)
  then show ?thesis
    using reachable_store_reads_agree[of demo_sha ?st "OBJECT_PREFIX @ demo_sha ''a''" "''a''"] by auto
qed

end
