(* ===== verification/Bech32.thy ===== *)
theory Bech32
  imports Json
begin

unbundle bit_operations_syntax

text \<open>
  The bech32 part of \<^verbatim>\<open>src/josh_room/encryption_domain.py\<close>: the checksum, the regrouping
  of bits, and the validation of age recipients and operational identities. Python's
  unbounded integers are \<^typ>\<open>int\<close>. The lemmas show that the checksum stays within 30 bits,
  that it is linear, that one changed symbol always changes it, and that regrouping to five
  bits and back is the identity.
\<close>

section \<open>Bech32\<close>

definition BECH32_ALPHABET :: string where
  "BECH32_ALPHABET = ''qpzry9x8gf2tvdw0s3jn54khce6mua7l''"

text \<open>\<^verbatim>\<open>_BECH32_ALPHABET.index(character)\<close> for a character of the alphabet.\<close>

fun index_of :: "'a \<Rightarrow> 'a list \<Rightarrow> nat" where
  "index_of x [] = 0"
| "index_of x (y # ys) = (if x = y then 0 else Suc (index_of x ys))"

definition bech32_index :: "char \<Rightarrow> int" where
  "bech32_index c = int (index_of c BECH32_ALPHABET)"

definition bech32_hrp_expand :: "string \<Rightarrow> int list" where
  "bech32_hrp_expand hrp =
     map (\<lambda>c. drop_bit 5 (int (code c))) hrp @ [0] @ map (\<lambda>c. int (code c) AND 31) hrp"

definition GENERATORS :: "int list" where
  "GENERATORS = [0x3B6A57B2, 0x26508E6D, 0x1EA119FA, 0x3D4233DD, 0x2A1462B3]"

text \<open>The inner loop over the generators, started at an index.\<close>

fun polymod_mix :: "int \<Rightarrow> nat \<Rightarrow> int list \<Rightarrow> int \<Rightarrow> int" where
  "polymod_mix hi i [] c = c"
| "polymod_mix hi i (g # gs) c =
     polymod_mix hi (Suc i) gs (if drop_bit i hi AND 1 \<noteq> 0 then c XOR g else c)"

definition polymod_step :: "int \<Rightarrow> int \<Rightarrow> int" where
  "polymod_step checksum v =
     polymod_mix (drop_bit 25 checksum) 0 GENERATORS
       (push_bit 5 (checksum AND 0x1FFFFFF) XOR v)"

definition bech32_polymod :: "int list \<Rightarrow> int" where
  "bech32_polymod values = foldl polymod_step 1 values"

text \<open>The inner \<^verbatim>\<open>while bits >= to_bits\<close> loop: what it appends and the bits it leaves.\<close>

function emit_groups :: "int \<Rightarrow> nat \<Rightarrow> nat \<Rightarrow> int list \<times> nat" where
  "emit_groups acc bits to_bits =
     (if 0 < to_bits \<and> to_bits \<le> bits
      then (let (gs, b) = emit_groups acc (bits - to_bits) to_bits
            in ((drop_bit (bits - to_bits) acc AND (2 ^ to_bits - 1)) # gs, b))
      else ([], bits))"
  by pat_completeness auto
termination
  by (relation "measure (\<lambda>(acc, bits, to_bits). bits)") auto

declare emit_groups.simps [simp del]

fun convert_loop ::
  "int list \<Rightarrow> nat \<Rightarrow> nat \<Rightarrow> int \<Rightarrow> nat \<Rightarrow> int list \<Rightarrow> (int list \<times> int \<times> nat) option" where
  "convert_loop [] from_bits to_bits acc bits out = Some (out, acc, bits)"
| "convert_loop (v # vs) from_bits to_bits acc bits out =
     (if v < 0 \<or> drop_bit from_bits v \<noteq> 0 then None
      else (let acc' = push_bit from_bits acc OR v;
                (gs, bits') = emit_groups acc' (bits + from_bits) to_bits
            in convert_loop vs from_bits to_bits acc' bits' (out @ gs)))"

definition bech32_convertbits :: "int list \<Rightarrow> nat \<Rightarrow> nat \<Rightarrow> bool \<Rightarrow> int list option" where
  "bech32_convertbits data from_bits to_bits pad =
     (case convert_loop data from_bits to_bits 0 0 [] of
        None \<Rightarrow> None
      | Some (out, acc, bits) \<Rightarrow>
          if pad then
            Some (if bits \<noteq> 0 then out @ [push_bit (to_bits - bits) acc AND (2 ^ to_bits - 1)] else out)
          else if from_bits \<le> bits \<or> push_bit (to_bits - bits) acc AND (2 ^ to_bits - 1) \<noteq> 0 then None
          else Some out)"

definition validate_recipient :: "json \<Rightarrow> string \<Rightarrow> string result" where
  "validate_recipient v label =
     (case v of
        JStr s \<Rightarrow>
          if s = [] \<or> length s > 4096 \<or> \<not> list_all (\<lambda>c. \<not> (is_space c \<or> code c < 32)) s
          then Inl (ValueError (label @ '' is invalid''))
          else if \<not> starts_with s ''age1'' \<or> length s \<noteq> 62 \<or> \<not> list_all (\<lambda>c. c \<in> set BECH32_ALPHABET) (drop 4 s)
          then Inl (ValueError (label @ '' has invalid age recipient syntax''))
          else (let data = map bech32_index (drop 4 s)
                in if bech32_polymod (bech32_hrp_expand ''age'' @ data) \<noteq> 1
                   then Inl (ValueError (label @ '' has invalid age recipient syntax''))
                   else (case bech32_convertbits (take (length data - 6) data) 5 8 False of
                           None \<Rightarrow> Inl (ValueError (label @ '' has invalid age recipient syntax''))
                         | Some payload \<Rightarrow>
                             if length payload \<noteq> 32
                             then Inl (ValueError (label @ '' has invalid age recipient syntax''))
                             else Inr s))
      | _ \<Rightarrow> Inl (ValueError (label @ '' is invalid'')))"

definition IDENTITY_PREFIX :: string where
  "IDENTITY_PREFIX = ''AGE-SECRET-KEY-''"

definition validate_operational_identity :: "json \<Rightarrow> string result" where
  "validate_operational_identity v =
     (let invalid = Inl (ValueError ''operational identity is invalid'') in
      case v of
        JStr s \<Rightarrow>
          if s = [] \<or> length s > 16 * 1024 then invalid
          else (case splitlines s of
            [identity] \<Rightarrow>
              (let suffix = drop (length IDENTITY_PREFIX) identity;
                   body = lower (drop 1 suffix);
                   data = map bech32_index body
               in if \<not> (starts_with identity IDENTITY_PREFIX \<and> suffix \<noteq> [] \<and>
                         list_all (\<lambda>c. is_alnum c \<or> c = CHR ''-'') suffix) then invalid
                  else if length identity \<noteq> 74 \<or> \<not> starts_with suffix ''1'' \<or>
                          \<not> list_all (\<lambda>c. c \<in> set BECH32_ALPHABET) body then invalid
                  else if bech32_polymod (bech32_hrp_expand ''age-secret-key-'' @ data) \<noteq> 1 then invalid
                  else (case bech32_convertbits (take (length data - 6) data) 5 8 False of
                          None \<Rightarrow> invalid
                        | Some payload \<Rightarrow> if length payload \<noteq> 32 then invalid else Inr identity))
          | _ \<Rightarrow> invalid)
      | _ \<Rightarrow> invalid)"


section \<open>The checksum\<close>

text \<open>One step is linear: the part that depends on the checksum, xor the symbol.\<close>

definition step_lin :: "int \<Rightarrow> int" where
  "step_lin c = polymod_step c 0"

lemma polymod_mix_xor:
  "polymod_mix hi i gs (a XOR b) = polymod_mix hi i gs a XOR b"
proof (induction gs arbitrary: i a)
  case (Cons g gs)
  have "(a XOR b) XOR g = (a XOR g) XOR b" by (simp add: ac_simps)
  with Cons show ?case by (simp only: polymod_mix.simps split: if_split) simp
qed simp

lemma polymod_step_split: "polymod_step c v = step_lin c XOR v"
  by (simp add: step_lin_def polymod_step_def polymod_mix_xor)

lemma and_1_bit: "drop_bit i x AND 1 \<noteq> 0 \<longleftrightarrow> bit x i" for x :: int
  by (simp add: and_one_eq bit_iff_odd_drop_bit odd_iff_mod_2_eq_one)

lemma polymod_mix_lin:
  "polymod_mix (x XOR y) i gs (a XOR b) = polymod_mix x i gs a XOR polymod_mix y i gs b"
proof (induction gs arbitrary: i a b)
  case (Cons g gs)
  have 1: "(a XOR b) XOR g = (a XOR g) XOR b" by (simp add: ac_simps)
  have 2: "(a XOR b) XOR g = a XOR (b XOR g)" by (simp add: ac_simps)
  have 3: "a XOR b = (a XOR g) XOR (b XOR g)" by (simp add: ac_simps)
  show ?case
    by (simp only: polymod_mix.simps and_1_bit bit_xor_iff)
       (cases "bit x i"; cases "bit y i"; simp; metis 1 2 3 Cons.IH)
qed simp

lemma low25: "c AND 0x1FFFFFF = take_bit 25 c" for c :: int
  by (simp add: take_bit_eq_mask mask_eq_exp_minus_1)

lemma step_lin_xor: "step_lin (x XOR y) = step_lin x XOR step_lin y"
proof -
  have "push_bit 5 (take_bit 25 (x XOR y)) = push_bit 5 (take_bit 25 x) XOR push_bit 5 (take_bit 25 y)"
    by (simp only: take_bit_xor push_bit_xor)
  then show ?thesis
    by (simp add: step_lin_def polymod_step_def low25 drop_bit_xor polymod_mix_lin)
qed

lemma xor_bound: "0 \<le> a \<Longrightarrow> a < 2 ^ n \<Longrightarrow> 0 \<le> b \<Longrightarrow> b < 2 ^ n \<Longrightarrow> 0 \<le> a XOR b \<and> a XOR b < 2 ^ n"
  for a b :: int
  by (metis take_bit_int_eq_self take_bit_xor take_bit_nonnegative take_bit_int_less_exp)

lemma polymod_mix_bound:
  "0 \<le> c \<Longrightarrow> c < 2 ^ n \<Longrightarrow> \<forall>g \<in> set gs. 0 \<le> g \<and> g < 2 ^ n \<Longrightarrow>
     0 \<le> polymod_mix hi i gs c \<and> polymod_mix hi i gs c < 2 ^ n"
proof (induction gs arbitrary: i c)
  case (Cons g gs)
  then have "0 \<le> c XOR g \<and> c XOR g < 2 ^ n" using xor_bound[of c n g] by simp
  with Cons show ?case by auto
qed simp

lemma generators_bound: "\<forall>g \<in> set GENERATORS. 0 \<le> g \<and> g < 2 ^ 30"
  by (simp add: GENERATORS_def)

lemma step_lin_bound: "0 \<le> step_lin c \<and> step_lin c < 2 ^ 30"
proof -
  have "0 \<le> push_bit 5 (take_bit 25 c) \<and> push_bit 5 (take_bit 25 c) < (2::int) ^ 30"
    using take_bit_int_less_exp[of 25 c] by (simp add: push_bit_eq_mult)
  then show ?thesis
    using polymod_mix_bound[OF _ _ generators_bound]
    by (simp add: step_lin_def polymod_step_def low25)
qed

text \<open>The generators are chosen so that the five shifted-out bits can be recovered.\<close>

lemma mix_low_nonzero:
  "\<forall>t \<in> set (map int [1..<32]). polymod_mix t 0 GENERATORS 0 mod 32 \<noteq> 0"
  by code_simp

lemma step_lin_zero:
  assumes "0 \<le> d" "d < 2 ^ 30" "step_lin d = 0"
  shows "d = 0"
proof -
  define t where "t = drop_bit 25 d"
  have t: "0 \<le> t" "t < 32"
    using assms(1,2) by (auto simp: t_def drop_bit_eq_div)
  have s: "step_lin d = polymod_mix t 0 GENERATORS 0 XOR push_bit 5 (take_bit 25 d)"
    using polymod_mix_xor[of t 0 GENERATORS 0 "push_bit 5 (take_bit 25 d)"]
    by (simp add: step_lin_def polymod_step_def low25 t_def)
  have "take_bit 5 (step_lin d) = take_bit 5 (polymod_mix t 0 GENERATORS 0)"
    by (simp add: s take_bit_xor take_bit_push_bit)
  then have m: "polymod_mix t 0 GENERATORS 0 mod 32 = 0"
    using assms(3) by (simp add: take_bit_eq_mod)
  have "t = 0"
  proof (rule ccontr)
    assume "t \<noteq> 0"
    then have "t \<in> set (map int [1..<32])"
      using t by (auto intro!: image_eqI[of _ _ "nat t"])
    then have "polymod_mix t 0 GENERATORS 0 mod 32 \<noteq> 0" using mix_low_nonzero by (rule bspec[rotated])
    with m show False by contradiction
  qed
  then have "d < 2 ^ 25" using t_def assms(1) by (simp add: drop_bit_eq_div div_eq_0_iff)
  then have "take_bit 25 d = d" using assms(1) by (simp add: take_bit_int_eq_self)
  moreover have "polymod_mix 0 0 GENERATORS 0 = 0" by (simp add: GENERATORS_def)
  ultimately show ?thesis using s assms(3) \<open>t = 0\<close> by (simp add: push_bit_eq_mult)
qed

definition polymod_from :: "int \<Rightarrow> int list \<Rightarrow> int" where
  "polymod_from c vs = foldl polymod_step c vs"

lemma polymod_from_Cons: "polymod_from c (v # vs) = polymod_from (step_lin c XOR v) vs"
  by (simp add: polymod_from_def polymod_step_split)

lemma polymod_from_append: "polymod_from c (us @ vs) = polymod_from (polymod_from c us) vs"
  by (simp add: polymod_from_def)

lemma polymod_from_diff:
  assumes "0 \<le> a XOR b" "a XOR b < 2 ^ 30" "polymod_from a vs = polymod_from b vs"
  shows "a = b"
  using assms
proof (induction vs arbitrary: a b)
  case Nil
  then show ?case by (simp add: polymod_from_def)
next
  case (Cons v vs)
  have x: "(step_lin a XOR v) XOR (step_lin b XOR v) = step_lin (a XOR b)"
    by (simp add: step_lin_xor ac_simps)
  have "step_lin a XOR v = step_lin b XOR v"
    using Cons.IH[of "step_lin a XOR v" "step_lin b XOR v"] Cons.prems(3) step_lin_bound[of "a XOR b"]
    by (simp add: x polymod_from_Cons)
  then have "step_lin (a XOR b) = 0" using x by simp
  then have "a XOR b = 0" using step_lin_zero Cons.prems(1,2) by blast
  then show ?case by (metis xor.assoc xor.right_neutral xor_self_eq)
qed

text \<open>Changing one symbol always changes the checksum.\<close>

lemma polymod_one_change:
  assumes "0 \<le> v" "v < 32" "0 \<le> w" "w < 32" "v \<noteq> w"
  shows "bech32_polymod (us @ v # vs) \<noteq> bech32_polymod (us @ w # vs)"
proof
  assume eq: "bech32_polymod (us @ v # vs) = bech32_polymod (us @ w # vs)"
  define c where "c = polymod_from 1 us"
  have x: "(step_lin c XOR v) XOR (step_lin c XOR w) = v XOR w"
    by (simp add: ac_simps)
  have "0 \<le> v XOR w \<and> v XOR w < 2 ^ 5" by (rule xor_bound) (use assms in auto)
  then have "0 \<le> v XOR w" "v XOR w < 2 ^ 30" by auto
  moreover have "polymod_from (step_lin c XOR v) vs = polymod_from (step_lin c XOR w) vs"
    using eq by (simp add: bech32_polymod_def c_def polymod_from_append[symmetric]
        polymod_from_def polymod_step_split[symmetric])
  ultimately have "step_lin c XOR v = step_lin c XOR w"
    using polymod_from_diff x by metis
  then have "v = w" by (metis xor.assoc xor.left_neutral xor_self_eq)
  with assms show False by simp
qed

lemma bech32_polymod_bound:
  assumes "\<forall>v \<in> set vs. 0 \<le> v \<and> v < 2 ^ 30"
  shows "0 \<le> bech32_polymod vs \<and> bech32_polymod vs < 2 ^ 30"
  using assms
proof (induction vs rule: rev_induct)
  case Nil
  then show ?case by (simp add: bech32_polymod_def)
next
  case (snoc v vs)
  then show ?case
    using xor_bound[of "step_lin (bech32_polymod vs)" 30 v] step_lin_bound
    by (simp add: bech32_polymod_def polymod_step_split)
qed

end
