(* ===== verification/EncryptionDomain.thy ===== *)
theory EncryptionDomain
  imports Bech32
begin

text \<open>
  \<^verbatim>\<open>src/josh_room/encryption_domain.py\<close>: the encryption material of one physical bucket.
  Modelled here: the canonical UUID4 check of an encryption domain id, the validation of Room Store and
  keyset records, their dictionary form, reconciliation with the remote winner, and the
  one-time binding of a repository id. \<^verbatim>\<open>urllib.parse.urlsplit\<close> and
  \<^verbatim>\<open>ipaddress.ip_address(..).is_loopback\<close> are parameters, and so are the base64 codec
  and the random secret.
\<close>

section \<open>Encryption domain ids\<close>

text \<open>\<^verbatim>\<open>int(s, 16)\<close>: white space, a sign, a prefix and single underscores are accepted.\<close>

definition is_hex_any :: "char \<Rightarrow> bool" where
  "is_hex_any c \<longleftrightarrow> hex_val c \<noteq> None"

definition int16_body :: "string \<Rightarrow> string" where
  "int16_body s =
     (let t = strip_ws s;
          u = (if t \<noteq> [] \<and> hd t \<in> set ''+-'' then tl t else t)
      in if starts_with u ''0x'' \<or> starts_with u ''0X''
         then (let v = drop 2 u in if v \<noteq> [] \<and> hd v = CHR ''_'' then tl v else v)
         else u)"

definition int16_ok :: "string \<Rightarrow> bool" where
  "int16_ok s \<longleftrightarrow> list_all (\<lambda>p. p \<noteq> [] \<and> list_all is_hex_any p) (split_on CHR ''_'' (int16_body s))"

fun hex_digits_val :: "nat \<Rightarrow> string \<Rightarrow> nat" where
  "hex_digits_val acc [] = acc"
| "hex_digits_val acc (c # cs) =
     hex_digits_val (case hex_val c of None \<Rightarrow> acc | Some d \<Rightarrow> 16 * acc + d) cs"

definition int16_val :: "string \<Rightarrow> nat" where
  "int16_val s = hex_digits_val 0 (int16_body s)"

text \<open>\<^verbatim>\<open>uuid.UUID(value).int\<close>, None where the constructor raises ValueError.\<close>

definition uuid_int :: "string \<Rightarrow> nat option" where
  "uuid_int s =
     (let h = remove_all ''-'' (strip_chars ''{}'' (remove_all ''uuid:'' (remove_all ''urn:'' s)))
      in if length h = 32 \<and> int16_ok h then Some (int16_val h) else None)"

text \<open>\<^verbatim>\<open>'%032x' % int\<close> and \<^verbatim>\<open>str(uuid)\<close>.\<close>

fun hex_print :: "nat \<Rightarrow> nat \<Rightarrow> string" where
  "hex_print 0 n = []"
| "hex_print (Suc k) n = hex_print k (n div 16) @ [hex_char (n mod 16)]"

definition dash_uuid :: "string \<Rightarrow> string" where
  "dash_uuid h = take 8 h @ ''-'' @ take 4 (drop 8 h) @ ''-'' @ take 4 (drop 12 h) @ ''-'' @
     take 4 (drop 16 h) @ ''-'' @ drop 20 h"

definition uuid_str :: "nat \<Rightarrow> string" where
  "uuid_str n = dash_uuid (hex_print 32 n)"

text \<open>\<^verbatim>\<open>uuid.version == 4\<close>: the version is defined for the RFC 4122 variant only.\<close>

definition uuid_is_v4 :: "nat \<Rightarrow> bool" where
  "uuid_is_v4 n \<longleftrightarrow> (n div 2 ^ 62) mod 4 = 2 \<and> (n div 2 ^ 76) mod 16 = 4"

definition validate_encryption_domain_id :: "json \<Rightarrow> unit result" where
  "validate_encryption_domain_id v =
     (case v of
        JStr s \<Rightarrow>
          (case uuid_int s of
             None \<Rightarrow> Inl (ValueError ''encryption domain id is invalid'')
           | Some n \<Rightarrow> raise_if (\<not> uuid_is_v4 n \<or> uuid_str n \<noteq> s)
               (ValueError ''encryption domain id must be canonical UUID4''))
      | _ \<Rightarrow> Inl (TypeError ''encryption domain id is invalid''))"


section \<open>Endpoints and the identity of a physical bucket\<close>

text \<open>The attributes of \<^verbatim>\<open>urlsplit(endpoint)\<close> the code reads; reading the port may raise.\<close>

record parsed_url =
  url_scheme :: string
  url_netloc :: string
  url_hostname :: "string option"
  url_username :: "string option"
  url_password :: "string option"
  url_port :: "int option result"
  url_path :: string

text \<open>
  What the module takes from the standard library: URL splitting and the loopback test of
  an IP literal (None where they raise ValueError), and the base64url codec.
\<close>

record host_lib =
  urlsplit :: "string \<Rightarrow> parsed_url option"
  ip_is_loopback :: "string \<Rightarrow> bool option"
  b64url_decode :: "string \<Rightarrow> string option"
  b64url_encode :: "string \<Rightarrow> string"

definition host_is_loopback :: "host_lib \<Rightarrow> string \<Rightarrow> bool" where
  "host_is_loopback lib h =
     (case ip_is_loopback lib h of Some b \<Rightarrow> b | None \<Rightarrow> lower h = ''localhost'')"

definition validate_endpoint :: "host_lib \<Rightarrow> json \<Rightarrow> unit result" where
  "validate_endpoint lib v =
     (case v of
        JStr s \<Rightarrow>
          if \<not> list_all (\<lambda>c. \<not> (is_space c \<or> code c < 32 \<or> code c = 127)) s
          then Inl (ValueError ''endpoint is invalid'')
          else (case urlsplit lib s of
             None \<Rightarrow> Inl (ValueError ''endpoint is invalid'')
           | Some u \<Rightarrow>
               if url_scheme u \<notin> {''http'', ''https''} \<or> url_hostname u = None \<or> url_hostname u = Some []
               then Inl (ValueError ''endpoint must use http/https with a hostname'')
               else if url_username u \<noteq> None \<or> url_password u \<noteq> None \<or> CHR ''@'' \<in> set (url_netloc u)
               then Inl (ValueError ''endpoint must not contain userinfo'')
               else raise_if (url_scheme u = ''http'' \<and> \<not> host_is_loopback lib (the (url_hostname u)))
                 (ValueError ''non-loopback HTTP endpoint is not allowed''))
      | _ \<Rightarrow> Inl (ValueError ''endpoint is invalid''))"

text \<open>\<^verbatim>\<open>validate_minio_transport\<close>: the CA bundle is a value or None.\<close>

definition validate_minio_transport :: "host_lib \<Rightarrow> json \<Rightarrow> json \<Rightarrow> json \<Rightarrow> unit result" where
  "validate_minio_transport lib endpoint verify_tls ca_bundle =
     bind_r (validate_endpoint lib endpoint) (\<lambda>_.
     (let u = the (urlsplit lib (str_of endpoint)) in
      checks [
        raise_if (\<not> type_is_bool verify_tls) (TypeError ''MinIO TLS verification must be a boolean''),
        raise_if (url_scheme u = ''http'' \<and> \<not> host_is_loopback lib (the (url_hostname u)))
          (ValueError ''MinIO remote endpoints must use HTTPS''),
        raise_if (verify_tls \<noteq> JBool True) (ValueError ''MinIO TLS verification cannot be disabled''),
        raise_if (ca_bundle \<noteq> JNull \<and> (\<not> is_str ca_bundle \<or> ca_bundle = JStr []))
          (ValueError ''MinIO CA bundle is invalid'')]))"

text \<open>\<^verbatim>\<open>urlunsplit\<close> for a non-empty scheme and authority and no query or fragment.\<close>

definition urlunsplit3 :: "string \<Rightarrow> string \<Rightarrow> string \<Rightarrow> string" where
  "urlunsplit3 scheme authority path =
     scheme @ ''://'' @ authority @ (if path \<noteq> [] \<and> hd path \<noteq> CHR ''/'' then CHR ''/'' # path else path)"

definition physical_bucket_identity :: "host_lib \<Rightarrow> json \<Rightarrow> json \<Rightarrow> json \<Rightarrow> string result" where
  "physical_bucket_identity lib provider endpoint bucket =
     bind_r (checks [
        require_in provider [''r2'', ''minio''] (ValueError ''unsupported encryption provider''),
        validate_endpoint lib endpoint,
        raise_if (\<not> is_str bucket \<or> \<not> is_ident (str_of bucket)) (ValueError ''bucket binding is invalid'')]) (\<lambda>_.
     (let u = the (urlsplit lib (str_of endpoint)); hostname = lower (the (url_hostname u)) in
      bind_r (url_port u) (\<lambda>port.
      (let port' = (if (url_scheme u, port) \<in> {(''http'', Some 80), (''https'', Some 443)} then None else port);
           authority = (case port' of None \<Rightarrow> hostname | Some p \<Rightarrow> hostname @ '':'' @ int_str p)
       in Inr (str_of provider @ '':'' @
            urlunsplit3 (lower (url_scheme u)) authority (rstrip_chars ''/'' (url_path u)) @
            '':'' @ str_of bucket)))))"

definition CONTROL_KEYS :: "string list" where
  "CONTROL_KEYS = [''control/encryption-keyset.v1.json'', ''control/migration-journal.v1.json'']"

definition is_control_key :: "string \<Rightarrow> bool" where
  "is_control_key k \<longleftrightarrow> k \<in> set CONTROL_KEYS"


section \<open>Room Store metadata\<close>

definition validate_room_store_secret :: "host_lib \<Rightarrow> json \<Rightarrow> unit result" where
  "validate_room_store_secret lib v =
     (let invalid = Inl (ValueError ''Room Store secret encoding is invalid'') in
      case v of
        JStr s \<Rightarrow>
          if length s \<noteq> 43 then invalid
          else (case b64url_decode lib (s @ ''='') of
                  None \<Rightarrow> invalid
                | Some decoded \<Rightarrow>
                    if length decoded \<noteq> 32 \<or> rstrip_chars ''='' (b64url_encode lib decoded) \<noteq> s
                    then invalid else Inr ())
      | _ \<Rightarrow> invalid)"

definition ROOM_STORE_PREFIX :: string where
  "ROOM_STORE_PREFIX = ''room-store/v1''"

record room_store_keyset =
  rs_secret :: string
  rs_physical_binding :: string
  rs_generation :: int
  rs_repository_id :: "string option"
  rs_repository_prefix :: string
  rs_repository_format :: int
  rs_format_version :: int

text \<open>\<^verbatim>\<open>RoomStoreKeyset.__post_init__\<close> on the constructor's arguments.\<close>

definition room_store_make ::
  "host_lib \<Rightarrow> json \<Rightarrow> json \<Rightarrow> json \<Rightarrow> json \<Rightarrow> json \<Rightarrow> json \<Rightarrow> json \<Rightarrow> room_store_keyset result" where
  "room_store_make lib secret physical_binding generation repository_id repository_prefix
       repository_format format_version =
     bind_r (checks [
        validate_room_store_secret lib secret,
        raise_if (format_version \<noteq> JInt 1) (ValueError ''unsupported Room Store metadata format''),
        raise_if (repository_prefix \<noteq> JStr ROOM_STORE_PREFIX) (ValueError ''unsupported Room Store repository prefix''),
        raise_if (repository_format \<noteq> JInt 2) (ValueError ''unsupported Room Store repository format''),
        raise_if (\<not> is_str physical_binding \<or> physical_binding = JStr [])
          (ValueError ''Room Store physical binding is invalid''),
        raise_if (\<not> type_is_int generation \<or> int_of generation < 1)
          (ValueError ''Room Store generation must be positive''),
        raise_if (repository_id \<noteq> JNull \<and> (\<not> is_str repository_id \<or> \<not> is_sha256 (str_of repository_id)))
          (ValueError ''Room Store repository id is invalid'')]) (\<lambda>_.
     Inr \<lparr>rs_secret = str_of secret, rs_physical_binding = str_of physical_binding,
          rs_generation = int_of generation,
          rs_repository_id = (if repository_id = JNull then None else Some (str_of repository_id)),
          rs_repository_prefix = str_of repository_prefix,
          rs_repository_format = int_of repository_format, rs_format_version = int_of format_version\<rparr>)"

definition ROOM_STORE_FIELDS :: "string list" where
  "ROOM_STORE_FIELDS = [''format_version'', ''secret'', ''repository_prefix'', ''repository_format'',
     ''physical_binding'', ''generation'', ''repository_id'']"

text \<open>
  The common shape test of the module's \<^verbatim>\<open>from_dict\<close> methods: unknown keys first, then
  missing ones; the message names the smallest.
\<close>

definition check_fields :: "string \<Rightarrow> string list \<Rightarrow> jobj \<Rightarrow> unit result" where
  "check_fields what names d =
     (let unknown = filter (\<lambda>k. k \<notin> set names) (keys d);
          missing = filter (\<lambda>k. k \<notin> set (keys d)) names
      in if unknown \<noteq> [] then Inl (ValueError (''unknown '' @ what @ '' field: '' @ py_min unknown))
         else if missing \<noteq> [] then Inl (ValueError (''missing '' @ what @ '' field: '' @ py_min missing))
         else Inr ())"

definition room_store_from_dict :: "host_lib \<Rightarrow> json \<Rightarrow> room_store_keyset result" where
  "room_store_from_dict lib v =
     (case v of
        JObj d \<Rightarrow>
          bind_r (check_fields ''Room Store'' ROOM_STORE_FIELDS d) (\<lambda>_.
            room_store_make lib (jget d ''secret'') (jget d ''physical_binding'') (jget d ''generation'')
              (jget d ''repository_id'') (jget d ''repository_prefix'') (jget d ''repository_format'')
              (jget d ''format_version''))
      | _ \<Rightarrow> Inl (TypeError ''Room Store metadata must be an object''))"

fun opt_str :: "string option \<Rightarrow> json" where
  "opt_str None = JNull"
| "opt_str (Some s) = JStr s"

definition room_store_to_dict :: "room_store_keyset \<Rightarrow> json" where
  "room_store_to_dict rs = JObj [
     (''format_version'', JInt (rs_format_version rs)),
     (''secret'', JStr (rs_secret rs)),
     (''repository_prefix'', JStr (rs_repository_prefix rs)),
     (''repository_format'', JInt (rs_repository_format rs)),
     (''physical_binding'', JStr (rs_physical_binding rs)),
     (''generation'', JInt (rs_generation rs)),
     (''repository_id'', opt_str (rs_repository_id rs))]"


section \<open>Encryption keysets\<close>

record keyset =
  ks_encryption_domain_id :: string
  ks_provider :: string
  ks_endpoint :: string
  ks_bucket :: string
  ks_key_generation :: int
  ks_operational_identity :: string
  ks_operational_recipient :: string
  ks_recovery_recipients :: "string list"
  ks_format_version :: int
  ks_room_store :: "room_store_keyset option"

text \<open>The property \<^verbatim>\<open>binding\<close> of a keyset.\<close>

definition ks_binding :: "host_lib \<Rightarrow> keyset \<Rightarrow> string result" where
  "ks_binding lib k =
     physical_bucket_identity lib (JStr (ks_provider k)) (JStr (ks_endpoint k)) (JStr (ks_bucket k))"

text \<open>\<^verbatim>\<open>EncryptionKeyset.__post_init__\<close> on the constructor's arguments.\<close>

definition keyset_make ::
  "host_lib \<Rightarrow> json \<Rightarrow> json \<Rightarrow> json \<Rightarrow> json \<Rightarrow> json \<Rightarrow> json \<Rightarrow> json \<Rightarrow> json list \<Rightarrow> json
     \<Rightarrow> room_store_keyset option \<Rightarrow> keyset result" where
  "keyset_make lib domain provider endpoint bucket key_generation identity recipient recovery
       format_version room_store =
     bind_r (checks [
        raise_if (format_version \<noteq> JInt 1 \<and> format_version \<noteq> JInt 2) (ValueError ''unsupported keyset format''),
        raise_if (format_version = JInt 1 \<and> room_store \<noteq> None)
          (ValueError ''version 1 keyset cannot contain Room Store metadata''),
        (if format_version = JInt 2 then
           (case room_store of
              None \<Rightarrow> Inl (ValueError ''version 2 keyset requires Room Store metadata'')
            | Some rs \<Rightarrow> bind_r (physical_bucket_identity lib provider endpoint bucket) (\<lambda>b.
                raise_if (rs_physical_binding rs \<noteq> b) (ValueError ''Room Store physical binding mismatch'')))
         else Inr ()),
        validate_encryption_domain_id domain,
        require_in provider [''r2'', ''minio''] (ValueError ''keyset provider is invalid''),
        validate_endpoint lib endpoint,
        raise_if (\<not> is_str bucket \<or> bucket = JStr [] \<or> length (str_of bucket) > 63)
          (ValueError ''keyset bucket is invalid''),
        raise_if (\<not> type_is_int key_generation \<or> int_of key_generation < 1)
          (ValueError ''key generation must be positive'')]) (\<lambda>_.
     bind_r (validate_operational_identity identity) (\<lambda>ident.
     bind_r (validate_recipient recipient ''operational recipient'') (\<lambda>operational.
     bind_r (map_r (\<lambda>v. validate_recipient v ''recovery recipient'') recovery) (\<lambda>rec.
     bind_r (checks [
        raise_if (rec = []) (ValueError ''at least one recovery recipient is required''),
        raise_if (\<not> distinct (operational # rec)) (ValueError ''duplicate recipient'')]) (\<lambda>_.
     Inr \<lparr>ks_encryption_domain_id = str_of domain, ks_provider = str_of provider,
          ks_endpoint = str_of endpoint, ks_bucket = str_of bucket,
          ks_key_generation = int_of key_generation, ks_operational_identity = ident,
          ks_operational_recipient = operational, ks_recovery_recipients = rec,
          ks_format_version = int_of format_version, ks_room_store = room_store\<rparr>)))))"

definition KEYSET_FIELDS :: "string list" where
  "KEYSET_FIELDS = [''format_version'', ''encryption_domain_id'', ''provider'', ''endpoint'', ''bucket'',
     ''key_generation'', ''operational_identity'', ''operational_recipient'', ''recovery_recipients'']"

definition keyset_from_dict ::
  "host_lib \<Rightarrow> json \<Rightarrow> string option \<Rightarrow> string option \<Rightarrow> string option \<Rightarrow> keyset result" where
  "keyset_from_dict lib v provider endpoint bucket =
     (case v of
        JObj d \<Rightarrow>
          (let version = jget d ''format_version'' in
           if version \<noteq> JInt 1 \<and> version \<noteq> JInt 2 then Inl (ValueError ''unsupported keyset format'')
           else
           bind_r (check_fields ''keyset''
             (if version = JInt 1 then KEYSET_FIELDS else KEYSET_FIELDS @ [''room_store'']) d) (\<lambda>_.
           bind_r (if version = JInt 2
                   then bind_r (room_store_from_dict lib (jget d ''room_store'')) (\<lambda>rs. Inr (Some rs))
                   else Inr None) (\<lambda>room_store.
           bind_r (checks [
             raise_if (provider \<noteq> None \<and> jget d ''provider'' \<noteq> opt_str provider)
               (ValueError ''provider binding mismatch''),
             (case endpoint of None \<Rightarrow> Inr () | Some e \<Rightarrow>
                bind_r (physical_bucket_identity lib (jget d ''provider'') (jget d ''endpoint'') (jget d ''bucket'')) (\<lambda>a.
                bind_r (physical_bucket_identity lib (jget d ''provider'') (JStr e) (jget d ''bucket'')) (\<lambda>b.
                  raise_if (a \<noteq> b) (ValueError ''endpoint binding mismatch'')))),
             raise_if (bucket \<noteq> None \<and> jget d ''bucket'' \<noteq> opt_str bucket)
               (ValueError ''bucket binding mismatch''),
             raise_if (\<not> is_list (jget d ''recovery_recipients'')) (TypeError ''recovery recipients are invalid'')]) (\<lambda>_.
           keyset_make lib (jget d ''encryption_domain_id'') (jget d ''provider'') (jget d ''endpoint'')
             (jget d ''bucket'') (jget d ''key_generation'') (jget d ''operational_identity'')
             (jget d ''operational_recipient'') (list_of (jget d ''recovery_recipients'')) version room_store))))
      | _ \<Rightarrow> Inl (TypeError ''keyset must be an object''))"

definition keyset_to_dict :: "keyset \<Rightarrow> json" where
  "keyset_to_dict k = JObj ([
     (''format_version'', JInt (ks_format_version k)),
     (''encryption_domain_id'', JStr (ks_encryption_domain_id k)),
     (''provider'', JStr (ks_provider k)),
     (''endpoint'', JStr (ks_endpoint k)),
     (''bucket'', JStr (ks_bucket k)),
     (''key_generation'', JInt (ks_key_generation k)),
     (''operational_identity'', JStr (ks_operational_identity k)),
     (''operational_recipient'', JStr (ks_operational_recipient k)),
     (''recovery_recipients'', JList (map JStr (ks_recovery_recipients k)))] @
     (case ks_room_store k of
        Some rs \<Rightarrow> (if ks_format_version k = 2 then [(''room_store'', room_store_to_dict rs)] else [])
      | None \<Rightarrow> []))"

text \<open>
  \<^verbatim>\<open>upgrade_for_room_store\<close>: \<open>secret\<close> is the encoding of the 32 random bytes.
\<close>

definition upgrade_for_room_store :: "host_lib \<Rightarrow> string \<Rightarrow> keyset \<Rightarrow> keyset result" where
  "upgrade_for_room_store lib secret k =
     (if ks_format_version k = 2 then Inr k
      else bind_r (ks_binding lib k) (\<lambda>b.
           bind_r (room_store_make lib (JStr secret) (JStr b) (JInt 1) JNull (JStr ROOM_STORE_PREFIX)
                     (JInt 2) (JInt 1)) (\<lambda>rs.
           keyset_make lib (JStr (ks_encryption_domain_id k)) (JStr (ks_provider k)) (JStr (ks_endpoint k))
             (JStr (ks_bucket k)) (JInt (ks_key_generation k)) (JStr (ks_operational_identity k))
             (JStr (ks_operational_recipient k)) (map JStr (ks_recovery_recipients k)) (JInt 2) (Some rs))))"

text \<open>
  \<^verbatim>\<open>bind_repository\<close>. The two \<^verbatim>\<open>dataclasses.replace\<close> calls run the constructors
  again, on a record that already passed them.
\<close>

definition bind_repository :: "host_lib \<Rightarrow> keyset \<Rightarrow> json \<Rightarrow> json \<Rightarrow> keyset result" where
  "bind_repository lib k repository_id expected_generation =
     (case ks_room_store k of
        None \<Rightarrow> Inl (ValueError ''Room Store keyset upgrade is required'')
      | Some rs \<Rightarrow>
          if ks_format_version k \<noteq> 2 then Inl (ValueError ''Room Store keyset upgrade is required'')
          else if expected_generation \<noteq> JInt (rs_generation rs) then Inl (ValueError ''Room Store generation mismatch'')
          else if \<not> is_str repository_id \<or> \<not> is_sha256 (str_of repository_id)
          then Inl (ValueError ''Room Store repository id is invalid'')
          else (case rs_repository_id rs of
             Some r \<Rightarrow> if JStr r = repository_id then Inr k
                       else Inl (ValueError ''Room Store repository id is immutable'')
           | None \<Rightarrow>
               bind_r (room_store_make lib (JStr (rs_secret rs)) (JStr (rs_physical_binding rs))
                         (JInt (rs_generation rs + 1)) repository_id (JStr (rs_repository_prefix rs))
                         (JInt (rs_repository_format rs)) (JInt (rs_format_version rs))) (\<lambda>rs'.
               keyset_make lib (JStr (ks_encryption_domain_id k)) (JStr (ks_provider k)) (JStr (ks_endpoint k))
                 (JStr (ks_bucket k)) (JInt (ks_key_generation k)) (JStr (ks_operational_identity k))
                 (JStr (ks_operational_recipient k)) (map JStr (ks_recovery_recipients k))
                 (JInt (ks_format_version k)) (Some rs'))))"

text \<open>The loop over the occupied keysets of \<^verbatim>\<open>reconcile_keyset\<close>.\<close>

fun check_occupied :: "host_lib \<Rightarrow> keyset \<Rightarrow> keyset list \<Rightarrow> unit result" where
  "check_occupied lib candidate [] = Inr ()"
| "check_occupied lib candidate (item # items) =
     (if ks_operational_identity item = ks_operational_identity candidate then
        bind_r (ks_binding lib item) (\<lambda>a. bind_r (ks_binding lib candidate) (\<lambda>b.
          if a \<noteq> b then Inl (ValueError ''operational identity is already bound to another bucket'')
          else check_occupied lib candidate items))
      else check_occupied lib candidate items)"

definition reconcile_keyset ::
  "host_lib \<Rightarrow> keyset option \<Rightarrow> keyset \<Rightarrow> keyset list \<Rightarrow> keyset result" where
  "reconcile_keyset lib existing candidate occupied =
     (case existing of
        Some e \<Rightarrow>
          bind_r (ks_binding lib e) (\<lambda>a. bind_r (ks_binding lib candidate) (\<lambda>b.
            if a \<noteq> b then Inl (ValueError ''keyset physical bucket binding mismatch'')
            else if ks_format_version e \<noteq> ks_format_version candidate
            then Inl (ValueError ''keyset version mismatch'')
            else if ks_format_version e = 2 then
              (case (ks_room_store e, ks_room_store candidate) of
                 (Some x, Some y) \<Rightarrow>
                   if rs_secret x \<noteq> rs_secret y then Inl (ValueError ''Room Store secret mismatch'')
                   else if rs_repository_id x \<noteq> rs_repository_id y
                   then Inl (ValueError ''Room Store repository id mismatch'')
                   else Inr e
               | _ \<Rightarrow> Inl (AttributeError ''secret''))
            else Inr e))
      | None \<Rightarrow> bind_r (check_occupied lib candidate occupied) (\<lambda>_. Inr candidate))"


text \<open>\<^verbatim>\<open>EncryptionKeyset.create\<close>; \<open>fresh\<close> is the text of the new random UUID.\<close>

definition keyset_create ::
  "host_lib \<Rightarrow> string \<Rightarrow> json \<Rightarrow> json \<Rightarrow> json \<Rightarrow> json \<Rightarrow> json \<Rightarrow> json list option \<Rightarrow> json \<Rightarrow> string option \<Rightarrow>
     json \<Rightarrow> keyset option \<Rightarrow> keyset list \<Rightarrow> keyset result" where
  "keyset_create lib fresh provider endpoint bucket identity recipient recipients recovery_recipient
       domain generation existing occupied =
     bind_r (case recipients of
               None \<Rightarrow> Inr (if recovery_recipient \<noteq> JNull then [recovery_recipient] else [])
             | Some rs \<Rightarrow> if recovery_recipient \<noteq> JNull
                 then Inl (ValueError ''recovery recipients are ambiguous'') else Inr rs) (\<lambda>recovery.
     bind_r (keyset_make lib
               (JStr (case domain of Some d \<Rightarrow> if d = [] then fresh else d | None \<Rightarrow> fresh))
               provider endpoint bucket generation identity recipient recovery (JInt 1) None) (\<lambda>candidate.
     reconcile_keyset lib existing candidate occupied))"

definition MAX_KEYSET_SIZE :: nat where
  "MAX_KEYSET_SIZE = 64 * 1024"

definition keyset_to_json :: "(rat \<Rightarrow> string) \<Rightarrow> keyset \<Rightarrow> string result" where
  "keyset_to_json fr k =
     (let body = json_dumps True fr (keyset_to_dict k)
      in if length body > MAX_KEYSET_SIZE then Inl (ValueError ''keyset exceeds maximum size'')
         else Inr body)"

definition keyset_from_json ::
  "host_lib \<Rightarrow> (string \<Rightarrow> rat) \<Rightarrow> string \<Rightarrow> string option \<Rightarrow> string option \<Rightarrow> string option \<Rightarrow> keyset result" where
  "keyset_from_json lib pf body provider endpoint bucket =
     (if utf8_len body > MAX_KEYSET_SIZE then Inl (ValueError ''keyset exceeds maximum size'')
      else (case json_loads (default_hooks pf) body of
              Inl e \<Rightarrow> if e = JSONDecodeError then Inl (ValueError ''keyset JSON is invalid'') else Inl e
            | Inr v \<Rightarrow> keyset_from_dict lib v provider endpoint bucket))"

end
