(* ===== verification/UuidLaws.thy ===== *)
theory UuidLaws
  imports EncryptionDomain
begin

text \<open>
  \<^verbatim>\<open>validate_encryption_domain_id\<close> parses with the permissive \<^verbatim>\<open>uuid.UUID\<close> and then
  compares with the printed form. The lemmas follow both directions and show that what is
  accepted is exactly the canonical lower-case 8-4-4-4-12 form of a version 4 UUID.
\<close>

lemma hex_char_hex: "d < 16 \<Longrightarrow> is_hex (hex_char d)"
  by (auto simp: hex_char_def is_hex_def is_digit_def)

lemma hex_char_val: "is_hex c \<Longrightarrow> \<exists>d < 16. hex_val c = Some d \<and> hex_char d = c"
  by (rule exI[of _ "if is_digit c then code c - 48 else code c - 87"])
     (auto simp: is_hex_def is_digit_def hex_val_def hex_char_def)

lemma hex_digits_val_snoc:
  "hex_digits_val acc (s @ [c]) =
     (case hex_val c of None \<Rightarrow> hex_digits_val acc s | Some d \<Rightarrow> 16 * hex_digits_val acc s + d)"
  by (induction s arbitrary: acc) (auto split: option.splits)

lemma hex_print_val: "list_all is_hex h \<Longrightarrow> hex_print (length h) (hex_digits_val 0 h) = h"
proof (induction h rule: rev_induct)
  case (snoc c h)
  then obtain d where "d < 16" "hex_val c = Some d" "hex_char d = c"
    using hex_char_val[of c] by auto
  with snoc show ?case by (simp add: hex_digits_val_snoc)
qed simp

lemma hex_print_length [simp]: "length (hex_print k n) = k"
  by (induction k arbitrary: n) auto

lemma hex_print_hex: "list_all is_hex (hex_print k n)"
  by (induction k arbitrary: n) (auto simp: hex_char_hex)

lemma hex_print_nth: "i < k \<Longrightarrow> hex_print k n ! i = hex_char (n div 16 ^ (k - 1 - i) mod 16)"
proof (induction k arbitrary: n)
  case (Suc k)
  show ?case
  proof (cases "i = k")
    case False
    then have "i < k" using Suc.prems by simp
    moreover have "k - i = Suc (k - Suc i)" using \<open>i < k\<close> by simp
    ultimately show ?thesis using Suc.IH[of "n div 16"] by (simp add: nth_append div_mult2_eq)
  qed (simp add: nth_append)
qed simp

lemma remove_all_absent: "p \<noteq> [] \<Longrightarrow> hd p \<notin> set s \<Longrightarrow> remove_all p s = s"
proof (induction p s rule: remove_all.induct)
  case (2 p c cs)
  have "\<not> starts_with (c # cs) p" using 2(3,4) by (cases p) (auto simp: starts_with_def)
  then show ?case using 2 by (simp add: remove_all.simps)
qed simp

lemma remove_all_char: "remove_all [x] s = filter (\<lambda>c. c \<noteq> x) s"
proof (induction "[x]" s rule: remove_all.induct)
  case (2 c cs)
  then show ?case by (cases "c = x") (auto simp: remove_all.simps starts_with_def)
qed simp

lemma dropWhile_hd: "s \<noteq> [] \<Longrightarrow> \<not> P (hd s) \<Longrightarrow> dropWhile P s = s"
  by (cases s) auto

lemma rev_dropWhile_last: "s \<noteq> [] \<Longrightarrow> \<not> P (last s) \<Longrightarrow> rev (dropWhile P (rev s)) = s"
  by (simp add: dropWhile_hd hd_rev)

lemma strip_chars_absent: "s \<noteq> [] \<Longrightarrow> \<forall>c \<in> set cs. c \<notin> set s \<Longrightarrow> strip_chars cs s = s"
  unfolding strip_chars_def by (metis dropWhile_hd hd_in_set last_in_set rev_dropWhile_last)

text \<open>The five groups of a UUID text.\<close>

definition canonical_uuid4 :: "string \<Rightarrow> bool" where
  "canonical_uuid4 s \<longleftrightarrow>
     (\<exists>a b c d e. s = a @ ''-'' @ b @ ''-'' @ c @ ''-'' @ d @ ''-'' @ e \<and>
        map length [a, b, c, d, e] = [8, 4, 4, 4, 12] \<and>
        list_all (list_all is_hex) [a, b, c, d, e] \<and> hd c = CHR ''4'' \<and> hd d \<in> set ''89ab'')"

lemma dash_uuid_groups:
  "map length [a, b, c, d, e] = [8, 4, 4, 4, 12] \<Longrightarrow>
     dash_uuid (a @ b @ c @ d @ e) = a @ ''-'' @ b @ ''-'' @ c @ ''-'' @ d @ ''-'' @ e"
  by (simp add: dash_uuid_def)

lemma groups_of_32:
  assumes "length h = 32"
  obtains a b c d e where "h = a @ b @ c @ d @ e" "map length [a, b, c, d, e] = [8, 4, 4, 4, 12]"
    "h ! 12 = hd c" "h ! 16 = hd d"
proof (rule that[of "take 8 h" "take 4 (drop 8 h)" "take 4 (drop 12 h)" "take 4 (drop 16 h)" "drop 20 h"])
  have "drop 16 h = take 4 (drop 16 h) @ drop 20 h"
    using append_take_drop_id[of 4 "drop 16 h"] by simp
  moreover have "drop 12 h = take 4 (drop 12 h) @ drop 16 h"
    using append_take_drop_id[of 4 "drop 12 h"] by simp
  moreover have "drop 8 h = take 4 (drop 8 h) @ drop 12 h"
    using append_take_drop_id[of 4 "drop 8 h"] by simp
  ultimately show "h = take 8 h @ take 4 (drop 8 h) @ take 4 (drop 12 h) @ take 4 (drop 16 h) @ drop 20 h"
    by (metis append_take_drop_id)
qed (use assms in \<open>auto simp: hd_drop_conv_nth\<close>)

lemma hex_not_special:
  "is_hex c \<Longrightarrow> \<not> is_space c \<and> c \<notin> set ''+-_xXu{}n''"
  by (auto simp: is_hex_def is_digit_def is_space_def)

lemma int16_hex:
  assumes "list_all is_hex h" "h \<noteq> []"
  shows "int16_ok h" "int16_val h = hex_digits_val 0 h"
proof -
  have hx: "is_hex c" if "c \<in> set h" for c using assms(1) that by (simp add: list_all_iff)
  have "strip_ws h = h"
    unfolding strip_ws_def
    using assms(2) hex_not_special[OF hx[OF hd_in_set]] hex_not_special[OF hx[OF last_in_set]]
    by (simp add: dropWhile_hd rev_dropWhile_last)
  moreover have "hd h \<notin> set ''+-''" using hex_not_special[OF hx[OF hd_in_set[OF assms(2)]]] by simp
  moreover have "\<not> starts_with h ''0x''" "\<not> starts_with h ''0X''"
    using hex_not_special hx by (cases h; cases "tl h"; fastforce simp: starts_with_def)+
  ultimately have b: "int16_body h = h" by (simp add: int16_body_def Let_def)
  have "CHR ''_'' \<notin> set h" using hex_not_special hx by fastforce
  moreover have "list_all is_hex_any h"
    using hx hex_char_val by (fastforce simp: list_all_iff is_hex_any_def)
  ultimately show "int16_ok h" by (simp add: int16_ok_def b split_on_no_sep assms(2))
  show "int16_val h = hex_digits_val 0 h" by (simp add: int16_val_def b)
qed

lemma uuid_int_groups:
  assumes len: "map length [a, b, c, d, e] = [8, 4, 4, 4, 12]"
    and hx: "list_all (list_all is_hex) [a, b, c, d, e]"
  shows "uuid_int (a @ ''-'' @ b @ ''-'' @ c @ ''-'' @ d @ ''-'' @ e) =
           Some (hex_digits_val 0 (a @ b @ c @ d @ e))"
proof -
  let ?s = "a @ ''-'' @ b @ ''-'' @ c @ ''-'' @ d @ ''-'' @ e"
  let ?h = "a @ b @ c @ d @ e"
  have chars: "is_hex x \<or> x = CHR ''-''" if "x \<in> set ?s" for x
    using that hx by (auto simp: list_all_iff)
  have "x \<notin> set ''u{}''" if "x \<in> set ?s" for x
    using chars[OF that] hex_not_special[of x] by auto
  then have no: "CHR ''u'' \<notin> set ?s" "\<forall>x \<in> set ''{}''. x \<notin> set ?s" by fastforce+
  have ne: "?s \<noteq> []" using len by auto
  have "strip_chars ''{}'' ?s = ?s"
    by (rule strip_chars_absent[OF ne no(2)])
  then have u: "remove_all ''-'' (strip_chars ''{}'' (remove_all ''uuid:'' (remove_all ''urn:'' ?s))) =
      filter (\<lambda>x. x \<noteq> CHR ''-'') ?s"
    using no(1) by (simp add: remove_all_absent remove_all_char)
  have f: "filter (\<lambda>x. x \<noteq> CHR ''-'') p = p" if "list_all is_hex p" for p
    using that hex_not_special by (fastforce simp: filter_id_conv list_all_iff)
  have h: "filter (\<lambda>x. x \<noteq> CHR ''-'') ?s = ?h" using hx f by simp
  have "length ?h = 32" "list_all is_hex ?h" "?h \<noteq> []" using len hx by auto
  then show ?thesis unfolding uuid_int_def u h Let_def using int16_hex by simp
qed

lemma hex_char_inj: "a < 16 \<Longrightarrow> hex_char a = c \<longleftrightarrow> hex_val c = Some a \<and> is_hex c"
  using hex_val_hex_char hex_char_val[of c] hex_char_hex by (metis option.inject)

lemma uuid_v4_digits:
  "uuid_is_v4 n \<longleftrightarrow> hex_print 32 n ! 12 = CHR ''4'' \<and> hex_print 32 n ! 16 \<in> set ''89ab''"
proof -
  define v where "v = n div 2 ^ 76 mod 16"
  define w where "w = n div 2 ^ 60 mod 16"
  have "n div 2 ^ 62 mod 4 = w div 4"
  proof -
    have "n div 2 ^ 62 = n div 2 ^ 60 div 4" by (simp add: div_mult2_eq[symmetric])
    moreover have "m div 4 mod 4 = (m mod 16) div 4" for m :: nat
      using mod_mult2_eq[of m 4 4] by simp
    ultimately show ?thesis by (simp only: w_def)
  qed
  moreover have "hex_print 32 n ! 12 = hex_char v" "hex_print 32 n ! 16 = hex_char w"
    by (simp_all add: hex_print_nth v_def w_def)
  moreover have "hex_char v = CHR ''4'' \<longleftrightarrow> v = 4"
    using hex_char_inj[of v "CHR ''4''"] by (auto simp: v_def hex_val_def is_digit_def is_hex_def)
  moreover have "hex_char w \<in> set ''89ab'' \<longleftrightarrow> w div 4 = 2"
  proof -
    have "w < 16" by (simp add: w_def)
    then have "hex_char w \<in> set ''89ab'' \<longleftrightarrow> w = 8 \<or> w = 9 \<or> w = 10 \<or> w = 11"
      by (simp add: hex_char_inj) (auto simp: hex_val_def is_hex_def is_digit_def)
    then show ?thesis using \<open>w < 16\<close> by presburger
  qed
  ultimately show ?thesis by (simp add: uuid_is_v4_def v_def conj_commute)
qed

lemma canonical_uuid4_accepted:
  assumes "canonical_uuid4 s"
  shows "validate_encryption_domain_id (JStr s) = Inr ()"
proof -
  from assms obtain a b c d e where s: "s = a @ ''-'' @ b @ ''-'' @ c @ ''-'' @ d @ ''-'' @ e"
    and len: "map length [a, b, c, d, e] = [8, 4, 4, 4, 12]"
    and hx: "list_all (list_all is_hex) [a, b, c, d, e]" and v: "hd c = CHR ''4''" "hd d \<in> set ''89ab''"
    unfolding canonical_uuid4_def by (elim exE conjE) (rule that)
  let ?h = "a @ b @ c @ d @ e" let ?n = "hex_digits_val 0 ?h"
  have l32: "length ?h = 32" using len by simp
  have "hex_print (length ?h) ?n = ?h" by (rule hex_print_val) (use hx in simp)
  then have p: "hex_print 32 ?n = ?h" by (simp only: l32)
  have "?h ! 12 = hd c" "?h ! 16 = hd d"
    using len by (cases c; cases d; simp add: nth_append)+
  then have "uuid_is_v4 ?n" using v by (simp only: uuid_v4_digits p)
  moreover have "uuid_str ?n = s" using dash_uuid_groups[OF len] by (simp only: uuid_str_def p s)
  ultimately show ?thesis
    using uuid_int_groups[OF len hx] by (simp add: validate_encryption_domain_id_def s)
qed

definition demo_domain :: string where
  "demo_domain = ''01234567-89ab-4def-8123-456789abcdef''"

lemma demo_domain_ok: "validate_encryption_domain_id (JStr demo_domain) = Inr ()"
proof (rule canonical_uuid4_accepted)
  show "canonical_uuid4 demo_domain"
    unfolding canonical_uuid4_def
    by (rule exI[of _ "''01234567''"], rule exI[of _ "''89ab''"], rule exI[of _ "''4def''"],
        rule exI[of _ "''8123''"], rule exI[of _ "''456789abcdef''"])
       (simp add: demo_domain_def is_hex_def is_digit_def)
qed

text \<open>C37. The encryption domain ids accepted are exactly the canonical version 4 UUIDs: five groups
  of 8, 4, 4, 4 and 12 lower-case hexadecimal digits, the third starting with 4 and the fourth
  with 8, 9, a or b. The braces, URN prefixes, capitals, signs and underscores that the UUID
  parser tolerates are all refused.\<close>

theorem encryption_domain_id_canonical:
  "validate_encryption_domain_id (JStr s) = Inr () \<longleftrightarrow> canonical_uuid4 s"
proof
  assume "validate_encryption_domain_id (JStr s) = Inr ()"
  then obtain n where n: "uuid_is_v4 n" "s = uuid_str n"
    by (auto simp: validate_encryption_domain_id_def check_simps split: option.splits)
  obtain a b c d e where h: "hex_print 32 n = a @ b @ c @ d @ e" "map length [a, b, c, d, e] = [8, 4, 4, 4, 12]"
    "hex_print 32 n ! 12 = hd c" "hex_print 32 n ! 16 = hd d"
    by (rule groups_of_32[OF hex_print_length]) (rule that)
  have "list_all is_hex (a @ b @ c @ d @ e)" using hex_print_hex[of 32 n] by (simp only: h)
  then have "list_all (list_all is_hex) [a, b, c, d, e]" by simp
  moreover have "s = a @ ''-'' @ b @ ''-'' @ c @ ''-'' @ d @ ''-'' @ e"
    using n(2) dash_uuid_groups[OF h(2)] by (simp only: uuid_str_def h(1))
  ultimately show "canonical_uuid4 s"
    unfolding canonical_uuid4_def using h(2-4) n(1)[unfolded uuid_v4_digits] by metis
qed (rule canonical_uuid4_accepted)


end
