(* ===== verification/Versioned.thy ===== *)
theory Versioned
  imports Prelude
begin

text \<open>
  Optimistic concurrency. A component keeps a record with a generation number and accepts a
  change only from a writer that names the current one, as the Room Store metadata of
  \<^verbatim>\<open>encryption_domain.py\<close> does. The locale states what such a cell promises for one
  attempt and derives what holds of any interleaving of writers.
\<close>

locale cas_cell =
  fixes version :: "'s \<Rightarrow> int"
    and attempt :: "int \<Rightarrow> 'u \<Rightarrow> 's \<Rightarrow> 's result"
    and invar :: "'s \<Rightarrow> bool"
  assumes attempt_invar: "invar s \<Longrightarrow> attempt v u s = Inr s' \<Longrightarrow> invar s'"
    and attempt_stale: "invar s \<Longrightarrow> version s \<noteq> v \<Longrightarrow> \<exists>e. attempt v u s = Inl e"
    and attempt_bump: "invar s \<Longrightarrow> attempt v u s = Inr s' \<Longrightarrow> s' = s \<or> version s' = version s + 1"
begin

text \<open>
  A schedule of attempts, each with the version its writer has seen; a refused attempt leaves
  the cell alone. The flags say which attempts changed the cell.
\<close>

fun run :: "'s \<Rightarrow> (int \<times> 'u) list \<Rightarrow> 's \<times> bool list" where
  "run s [] = (s, [])"
| "run s ((v, u) # as) =
     (case attempt v u s of
        Inl _ \<Rightarrow> (let (t, fs) = run s as in (t, False # fs))
      | Inr s' \<Rightarrow> (let (t, fs) = run s' as in (t, (version s' \<noteq> version s) # fs)))"

lemma run_length: "length (snd (run s as)) = length as"
  by (induction s as rule: run.induct) (auto simp: Let_def case_prod_beta split: sum.splits)

lemma attempt_cases:
  assumes "invar s"
  obtains (refused) e where "attempt v u s = Inl e"
    | (same) "attempt v u s = Inr s" "v = version s"
    | (changed) s' where "attempt v u s = Inr s'" "v = version s" "version s' = version s + 1" "invar s'"
  using assms attempt_invar attempt_stale attempt_bump by (metis sumE sum.distinct(1))

lemma run_invar: "invar s \<Longrightarrow> invar (fst (run s as))"
proof (induction as arbitrary: s)
  case (Cons a as)
  obtain v u where a: "a = (v, u)" by force
  show ?case
    by (rule attempt_cases[OF Cons.prems, of v u]) (use Cons a in \<open>auto simp: Let_def case_prod_beta\<close>)
qed simp

text \<open>The version counts the changes: none is lost and none is invented.\<close>

lemma run_version:
  "invar s \<Longrightarrow> version (fst (run s as)) = version s + int (length (filter id (snd (run s as))))"
proof (induction as arbitrary: s)
  case (Cons a as)
  obtain v u where a: "a = (v, u)" by force
  show ?case
    by (rule attempt_cases[OF Cons.prems, of v u]) (use Cons a in \<open>auto simp: Let_def case_prod_beta\<close>)
qed simp

lemma run_monotone: "invar s \<Longrightarrow> version s \<le> version (fst (run s as))"
  by (simp add: run_version)

text \<open>An attempt that took effect named a version that was current, not an older one.\<close>

lemma run_winner:
  "invar s \<Longrightarrow> i < length as \<Longrightarrow> snd (run s as) ! i \<Longrightarrow>
     fst (as ! i) = version s + int (length (filter id (take i (snd (run s as)))))"
proof (induction as arbitrary: s i)
  case (Cons a as)
  obtain v u where a: "a = (v, u)" by force
  show ?case
  proof (cases i)
    case 0
    show ?thesis
      by (rule attempt_cases[OF Cons.prems(1), of v u])
         (use Cons.prems a 0 in \<open>auto simp: Let_def case_prod_beta\<close>)
  next
    case (Suc j)
    show ?thesis
      by (rule attempt_cases[OF Cons.prems(1), of v u])
         (use Cons a Suc in \<open>auto simp: Let_def case_prod_beta\<close>)
  qed
qed simp

text \<open>Of the writers that saw one version at most one wins.\<close>

lemma run_one_winner:
  assumes "invar s" "i < j" "j < length as" "fst (as ! i) = fst (as ! j)" "snd (run s as) ! i"
  shows "\<not> snd (run s as) ! j"
proof
  let ?fs = "snd (run s as)"
  assume "?fs ! j"
  then have eq: "length (filter id (take i ?fs)) = length (filter id (take j ?fs))"
    using run_winner[of s i as] run_winner[of s j as] assms by simp
  define gs where "gs = drop (Suc i) (take j ?fs)"
  have "take j ?fs = take i ?fs @ ?fs ! i # gs"
    unfolding gs_def using assms(2,3) id_take_nth_drop[of i "take j ?fs"] by (simp add: run_length min_def)
  then have "take j ?fs = take i ?fs @ True # gs" using assms(5) by simp
  then have "filter id (take j ?fs) = filter id (take i ?fs) @ True # filter id gs"
    by (simp del: take_append)
  then show False using eq by simp
qed

end

end
