(* ===== verification/KeysetLaws.thy ===== *)
theory KeysetLaws
  imports UuidLaws Versioned
begin

text \<open>
  What \<^verbatim>\<open>src/josh_room/encryption_domain.py\<close> guarantees of a keyset: every constructed
  keyset can be written and read back, the repository of a bucket is bound once under the
  metadata generation, reconciliation never replaces the remote winner, a mistyped age
  recipient is refused, and an encryption domain id is a canonical UUID4.
\<close>

section \<open>Constructed records\<close>

definition room_store_valid :: "host_lib \<Rightarrow> room_store_keyset \<Rightarrow> bool" where
  "room_store_valid lib rs \<longleftrightarrow>
     room_store_make lib (JStr (rs_secret rs)) (JStr (rs_physical_binding rs)) (JInt (rs_generation rs))
       (opt_str (rs_repository_id rs)) (JStr (rs_repository_prefix rs)) (JInt (rs_repository_format rs))
       (JInt (rs_format_version rs)) = Inr rs"

definition keyset_valid :: "host_lib \<Rightarrow> keyset \<Rightarrow> bool" where
  "keyset_valid lib k \<longleftrightarrow>
     keyset_make lib (JStr (ks_encryption_domain_id k)) (JStr (ks_provider k)) (JStr (ks_endpoint k))
       (JStr (ks_bucket k)) (JInt (ks_key_generation k)) (JStr (ks_operational_identity k))
       (JStr (ks_operational_recipient k)) (map JStr (ks_recovery_recipients k))
       (JInt (ks_format_version k)) (ks_room_store k) = Inr k \<and>
     (\<forall>rs. ks_room_store k = Some rs \<longrightarrow> room_store_valid lib rs)"

lemma opt_str_eq [simp]: "opt_str a = opt_str b \<longleftrightarrow> a = b"
  by (cases a; cases b) auto

lemma opt_str_JNull [simp]: "opt_str a = JNull \<longleftrightarrow> a = None"
  by (cases a) auto

lemma validate_room_store_secret_str: "validate_room_store_secret lib v = Inr () \<Longrightarrow> is_str v"
  by (cases v) (auto simp: validate_room_store_secret_def Let_def)

lemma validate_endpoint_str: "validate_endpoint lib v = Inr () \<Longrightarrow> is_str v"
  by (cases v) (auto simp: validate_endpoint_def)

lemma validate_domain_str: "validate_encryption_domain_id v = Inr () \<Longrightarrow> is_str v"
  by (cases v) (auto simp: validate_encryption_domain_id_def)

lemma validate_recipient_same: "validate_recipient v l = Inr s \<Longrightarrow> v = JStr s"
  by (cases v) (auto simp: validate_recipient_def Let_def split: if_splits option.splits)

lemma validate_recipient_label: "validate_recipient v l = Inr s \<Longrightarrow> validate_recipient v l' = Inr s"
  by (cases v) (auto simp: validate_recipient_def Let_def split: if_splits option.splits)

lemma room_store_make_valid:
  assumes "room_store_make lib secret binding gen rid prefix fmt ver = Inr rs"
  shows "room_store_valid lib rs"
proof -
  have "is_str secret" using assms validate_room_store_secret_str
    by (auto simp: room_store_make_def check_simps)
  then show ?thesis
    using assms
    by (cases "rid = JNull")
       (auto simp: room_store_make_def room_store_valid_def check_simps is_str_conv type_is_int_conv)
qed

lemma splitlines_no_end:
  "\<forall>c \<in> set (rev acc @ s). \<not> is_line_end c \<Longrightarrow> rev acc @ s \<noteq> [] \<Longrightarrow> splitlines_acc acc s = [rev acc @ s]"
proof (induction acc s rule: splitlines_acc.induct)
  case (3 acc c d cs)
  then have "\<not> is_line_end c" by simp
  moreover have "code c = 13 \<Longrightarrow> is_line_end c" by (simp add: is_line_end_def)
  ultimately show ?case using 3 by auto
qed auto

lemma identity_char_no_end: "is_alnum c \<or> c = CHR ''-'' \<Longrightarrow> \<not> is_line_end c"
  by (auto simp: is_alnum_def is_line_end_def is_digit_def is_lower_def is_upper_def)

lemma IDENTITY_PREFIX_chars: "\<forall>c \<in> set IDENTITY_PREFIX. is_alnum c \<or> c = CHR ''-''"
  by (simp add: IDENTITY_PREFIX_def is_alnum_def is_upper_def)

lemma validate_identity_idem:
  assumes "validate_operational_identity v = Inr s"
  shows "validate_operational_identity (JStr s) = Inr s"
proof -
  obtain raw where v: "v = JStr raw" using assms
    by (cases v) (auto simp: validate_operational_identity_def)
  have lines: "splitlines raw = [s]" and len: "length s = 74" and pre: "starts_with s IDENTITY_PREFIX"
    and suf: "list_all (\<lambda>c. is_alnum c \<or> c = CHR ''-'') (drop (length IDENTITY_PREFIX) s)"
    using assms by (auto simp: v validate_operational_identity_def Let_def split: list.splits if_splits option.splits)
  have s: "s = IDENTITY_PREFIX @ drop (length IDENTITY_PREFIX) s"
    using pre by (metis append_take_drop_id starts_with_def)
  have "set s = set IDENTITY_PREFIX \<union> set (drop (length IDENTITY_PREFIX) s)"
    using arg_cong[OF s, of set] by simp
  then have "\<forall>c \<in> set s. \<not> is_line_end c"
    using suf IDENTITY_PREFIX_chars identity_char_no_end by (auto simp: list_all_iff)
  moreover have "s \<noteq> []" using len by auto
  ultimately have "splitlines s = [s]"
    unfolding splitlines_def using splitlines_no_end[of "[]" s] by simp
  then show ?thesis
    using assms lines len by (auto simp: v validate_operational_identity_def Let_def split: if_splits option.splits)
qed

lemma keyset_make_fields:
  assumes "keyset_make lib did prov ep bucket gen ident rcp recov ver rst = Inr k"
  shows "did = JStr (ks_encryption_domain_id k)" "prov = JStr (ks_provider k)" "ep = JStr (ks_endpoint k)"
    "bucket = JStr (ks_bucket k)" "gen = JInt (ks_key_generation k)"
    "validate_operational_identity ident = Inr (ks_operational_identity k)"
    "rcp = JStr (ks_operational_recipient k)" "recov = map JStr (ks_recovery_recipients k)"
    "ver = JInt (ks_format_version k)" "rst = ks_room_store k"
proof -
  note A = assms[unfolded keyset_make_def]
  obtain id op rec where i: "validate_operational_identity ident = Inr id"
      "validate_recipient rcp ''operational recipient'' = Inr op"
      "map_r (\<lambda>v. validate_recipient v ''recovery recipient'') recov = Inr rec"
    and k: "k = \<lparr>ks_encryption_domain_id = str_of did, ks_provider = str_of prov,
          ks_endpoint = str_of ep, ks_bucket = str_of bucket,
          ks_key_generation = int_of gen, ks_operational_identity = id,
          ks_operational_recipient = op, ks_recovery_recipients = rec,
          ks_format_version = int_of ver, ks_room_store = rst\<rparr>"
    using A by (auto simp: check_simps)
  have c: "is_str did" "is_str ep" "is_str bucket" "type_is_int gen" "is_str prov" "type_is_int ver"
    using A validate_domain_str validate_endpoint_str
    by (auto simp: check_simps require_in_conv)
  have "recov = map JStr rec"
    using i(3) validate_recipient_same by (auto simp: map_r_Inr_iff intro!: nth_equalityI)
  moreover have "rcp = JStr op" using i(2) validate_recipient_same by blast
  ultimately show "did = JStr (ks_encryption_domain_id k)" "prov = JStr (ks_provider k)" "ep = JStr (ks_endpoint k)"
    "bucket = JStr (ks_bucket k)" "gen = JInt (ks_key_generation k)"
    "validate_operational_identity ident = Inr (ks_operational_identity k)"
    "rcp = JStr (ks_operational_recipient k)" "recov = map JStr (ks_recovery_recipients k)"
    "ver = JInt (ks_format_version k)" "rst = ks_room_store k"
    using i k c by (auto simp: is_str_conv type_is_int_conv)
qed

lemma keyset_make_identity:
  "validate_operational_identity a = validate_operational_identity b \<Longrightarrow>
     keyset_make lib did prov ep bucket gen a rcp recov ver rst =
     keyset_make lib did prov ep bucket gen b rcp recov ver rst"
  by (simp add: keyset_make_def)

lemma keyset_make_valid:
  assumes "keyset_make lib did prov ep bucket gen ident rcp recov ver rst = Inr k"
    and "\<And>rs. rst = Some rs \<Longrightarrow> room_store_valid lib rs"
  shows "keyset_valid lib k"
proof -
  note f = keyset_make_fields[OF assms(1)]
  have "validate_operational_identity (JStr (ks_operational_identity k)) = validate_operational_identity ident"
    using validate_identity_idem[OF f(6)] f(6) by simp
  from keyset_make_identity[OF this] assms(1)
  show ?thesis using assms(2) f unfolding keyset_valid_def by metis
qed

lemma keyset_validD:
  assumes "keyset_valid lib k"
  shows "ks_format_version k = 1 \<and> ks_room_store k = None \<or>
    ks_format_version k = 2 \<and> (\<exists>rs. ks_room_store k = Some rs \<and> room_store_valid lib rs \<and>
      ks_binding lib k = Inr (rs_physical_binding rs))"
  using assms
  by (auto simp: keyset_valid_def keyset_make_def check_simps ks_binding_def split: if_splits option.splits)

section \<open>Binding the repository\<close>

text \<open>What \<^verbatim>\<open>bind_repository\<close> does on a constructed keyset, on every branch.\<close>

definition with_repository :: "string \<Rightarrow> keyset \<Rightarrow> keyset" where
  "with_repository rid k = k\<lparr>ks_room_store :=
     map_option (\<lambda>rs. rs\<lparr>rs_repository_id := Some rid, rs_generation := rs_generation rs + 1\<rparr>) (ks_room_store k)\<rparr>"

lemma room_store_rebind:
  "room_store_valid lib rs \<Longrightarrow> is_sha256 rid \<Longrightarrow>
     room_store_make lib (JStr (rs_secret rs)) (JStr (rs_physical_binding rs)) (JInt (rs_generation rs + 1))
       (JStr rid) (JStr (rs_repository_prefix rs)) (JInt (rs_repository_format rs)) (JInt (rs_format_version rs))
     = Inr (rs\<lparr>rs_repository_id := Some rid, rs_generation := rs_generation rs + 1\<rparr>)"
  by (auto simp: room_store_valid_def room_store_make_def check_simps)

lemma keyset_make_room_store:
  assumes "keyset_valid lib k" "ks_room_store k = Some rs" "rs_physical_binding rs' = rs_physical_binding rs"
  shows "keyset_make lib (JStr (ks_encryption_domain_id k)) (JStr (ks_provider k)) (JStr (ks_endpoint k))
       (JStr (ks_bucket k)) (JInt (ks_key_generation k)) (JStr (ks_operational_identity k))
       (JStr (ks_operational_recipient k)) (map JStr (ks_recovery_recipients k))
       (JInt (ks_format_version k)) (Some rs') = Inr (k\<lparr>ks_room_store := Some rs'\<rparr>)"
  using assms by (cases k) (auto simp: keyset_valid_def keyset_make_def check_simps)

lemma bind_repository_first:
  assumes "keyset_valid lib k" "ks_room_store k = Some rs" "rs_repository_id rs = None" "is_sha256 rid"
  shows "bind_repository lib k (JStr rid) (JInt (rs_generation rs)) = Inr (with_repository rid k)"
proof -
  have rs: "room_store_valid lib rs" "ks_format_version k = 2"
    using keyset_validD[OF assms(1)] assms(2) by auto
  show ?thesis
    using assms rs room_store_rebind[OF rs(1) assms(4)]
    by (simp add: bind_repository_def with_repository_def
        keyset_make_room_store[OF assms(1,2), unfolded rs(2)])
qed

lemma bind_repository_cases:
  assumes "keyset_valid lib k" "bind_repository lib k rid gen = Inr k'"
  obtains rs r where "ks_room_store k = Some rs" "gen = JInt (rs_generation rs)" "rid = JStr r" "is_sha256 r"
    "rs_repository_id rs = Some r \<and> k' = k \<or> rs_repository_id rs = None \<and> k' = with_repository r k"
proof -
  from assms(2) obtain rs r where *: "ks_room_store k = Some rs" "gen = JInt (rs_generation rs)" "rid = JStr r" "is_sha256 r"
    by (auto simp: bind_repository_def is_str_conv split: option.splits if_splits)
  show thesis
  proof (cases "rs_repository_id rs")
    case None
    with bind_repository_first[OF assms(1) *(1) None *(4)] * assms(2) that show ?thesis by auto
  next
    case (Some x)
    with * assms(2) that show ?thesis by (auto simp: bind_repository_def split: if_splits)
  qed
qed

lemma with_repository_valid:
  assumes "keyset_valid lib k" "ks_room_store k = Some rs" "rs_repository_id rs = None" "is_sha256 rid"
  shows "keyset_valid lib (with_repository rid k)"
proof -
  have rs: "room_store_valid lib rs" using keyset_validD[OF assms(1)] assms(2) by auto
  note r = room_store_rebind[OF rs assms(4)]
  show ?thesis
    using keyset_make_valid[OF keyset_make_room_store[OF assms(1,2)]] room_store_make_valid[OF r] assms(2)
    by (simp add: with_repository_def)
qed

text \<open>The metadata generation of a keyset, and one attempt to bind at a generation.\<close>

definition ks_generation :: "keyset \<Rightarrow> int" where
  "ks_generation k = (case ks_room_store k of None \<Rightarrow> 0 | Some rs \<Rightarrow> rs_generation rs)"

lemma bind_repository_invar:
  assumes "keyset_valid lib k" "bind_repository lib k (JStr rid) (JInt v) = Inr k'"
  shows "keyset_valid lib k'"
  by (rule bind_repository_cases[OF assms]) (use assms(1) with_repository_valid in auto)

lemma bind_repository_bump:
  assumes "keyset_valid lib k" "bind_repository lib k (JStr rid) (JInt v) = Inr k'"
  shows "k' = k \<or> ks_generation k' = ks_generation k + 1"
  by (rule bind_repository_cases[OF assms]) (auto simp: ks_generation_def with_repository_def)

lemma bind_repository_stale:
  "ks_generation k \<noteq> v \<Longrightarrow> \<exists>e. bind_repository lib k rid (JInt v) = Inl e"
  by (auto simp: bind_repository_def ks_generation_def split: option.splits)

interpretation binding: cas_cell ks_generation "\<lambda>v rid k. bind_repository lib k (JStr rid) (JInt v)"
  "keyset_valid lib" for lib
  by unfold_locales (auto dest: bind_repository_invar bind_repository_bump bind_repository_stale)


section \<open>A concrete keyset\<close>

definition demo_recipient :: string where
  "demo_recipient = ''age1qqqqqqqqqqqqqqqqqqqqqqqqqqqqqqqqqqqqqqqqqqqqqqqqqqqq5cu47z''"

definition demo_recovery :: string where
  "demo_recovery = ''age1pppppppppppppppppppppppppppppppppppppppppppppppppppsrcxpmy''"

definition demo_identity :: string where
  "demo_identity = ''AGE-SECRET-KEY-1QQQQQQQQQQQQQQQQQQQQQQQQQQQQQQQQQQQQQQQQQQQQQQQQQQQQ8H00W3''"

lemma demo_recipient_ok: "validate_recipient (JStr demo_recipient) l = Inr demo_recipient"
proof -
  have "validate_recipient (JStr demo_recipient) [] = Inr demo_recipient" by code_simp
  then show ?thesis by (rule validate_recipient_label)
qed

lemma demo_recovery_ok: "validate_recipient (JStr demo_recovery) l = Inr demo_recovery"
proof -
  have "validate_recipient (JStr demo_recovery) [] = Inr demo_recovery" by code_simp
  then show ?thesis by (rule validate_recipient_label)
qed

lemma demo_identity_ok: "validate_operational_identity (JStr demo_identity) = Inr demo_identity"
  by code_simp

definition demo_lib :: host_lib where
  "demo_lib = \<lparr>urlsplit = (\<lambda>s. if s = ''https://h'' then
       Some \<lparr>url_scheme = ''https'', url_netloc = ''h'', url_hostname = Some ''h'', url_username = None,
             url_password = None, url_port = Inr None, url_path = []\<rparr> else None),
     ip_is_loopback = (\<lambda>_. None), b64url_decode = (\<lambda>_. Some (replicate 32 CHR ''x'')),
     b64url_encode = (\<lambda>_. replicate 43 CHR ''A'' @ ''='')\<rparr>"

definition demo_room_store :: room_store_keyset where
  "demo_room_store = \<lparr>rs_secret = replicate 43 CHR ''A'', rs_physical_binding = ''r2:https://h:b'',
     rs_generation = 1, rs_repository_id = None, rs_repository_prefix = ROOM_STORE_PREFIX,
     rs_repository_format = 2, rs_format_version = 1\<rparr>"

definition demo_keyset :: keyset where
  "demo_keyset = \<lparr>ks_encryption_domain_id = demo_domain, ks_provider = ''r2'', ks_endpoint = ''https://h'',
     ks_bucket = ''b'', ks_key_generation = 1, ks_operational_identity = demo_identity,
     ks_operational_recipient = demo_recipient, ks_recovery_recipients = [demo_recovery],
     ks_format_version = 2, ks_room_store = Some demo_room_store\<rparr>"

lemma demo_room_store_valid: "room_store_valid demo_lib demo_room_store"
  by code_simp

lemma demo_endpoint_ok: "validate_endpoint demo_lib (JStr ''https://h'') = Inr ()"
  by code_simp

lemma demo_binding:
  "physical_bucket_identity demo_lib (JStr ''r2'') (JStr ''https://h'') (JStr ''b'') = Inr ''r2:https://h:b''"
  by code_simp

lemma demo_keyset_valid: "keyset_valid demo_lib demo_keyset"
proof -
  have "keyset_make demo_lib (JStr demo_domain) (JStr ''r2'') (JStr ''https://h'') (JStr ''b'') (JInt 1)
      (JStr demo_identity) (JStr demo_recipient) [JStr demo_recovery] (JInt 2) (Some demo_room_store)
    = Inr demo_keyset"
    by (simp add: keyset_make_def demo_domain_ok demo_endpoint_ok demo_binding demo_identity_ok
        demo_recipient_ok demo_recovery_ok require_in_def)
       (simp add: demo_keyset_def demo_room_store_def demo_recipient_def demo_recovery_def)
  then show ?thesis
    using demo_room_store_valid by (intro keyset_make_valid) auto
qed


section \<open>Properties\<close>

subsection \<open>The repository of a bucket is bound once\<close>

lemma ks_generation_with [simp]:
  "ks_room_store k = Some rs \<Longrightarrow> ks_generation (with_repository r k) = ks_generation k + 1"
  by (simp add: ks_generation_def with_repository_def)

lemma bound_stays:
  assumes "keyset_valid lib k" "ks_room_store k = Some rs" "rs_repository_id rs = Some r"
  shows "binding.run lib k as = (k, replicate (length as) False)"
proof (induction as)
  case (Cons a as)
  obtain v rid where a: "a = (v, rid)" by force
  have "bind_repository lib k (JStr rid) (JInt v) = Inr k' \<Longrightarrow> k' = k" for k'
    by (rule bind_repository_cases[OF assms(1)]) (use assms in auto)
  then show ?case using Cons a by (auto simp: Let_def case_prod_beta split: sum.splits)
qed simp

lemma run_binds_once:
  assumes "keyset_valid lib k" "ks_room_store k = Some rs" "rs_repository_id rs = None"
    "binding.run lib k as = (k', fs)"
  shows "k' = k \<and> fs = replicate (length as) False \<or>
    (\<exists>i < length as. fs = (replicate (length as) False)[i := True] \<and> is_sha256 (snd (as ! i)) \<and>
       k' = with_repository (snd (as ! i)) k)"
  using assms(4)
proof (induction as arbitrary: fs)
  case (Cons a as)
  obtain v rid where a: "a = (v, rid)" by force
  obtain t gs where run: "binding.run lib k as = (t, gs)" by force
  show ?case
  proof (cases "bind_repository lib k (JStr rid) (JInt v)")
    case (Inl e)
    then have r: "k' = t" "fs = False # gs" using Cons.prems a run by auto
    from Cons.IH[OF run[folded r(1)]] show ?thesis
    proof (elim disjE exE conjE)
      fix i assume "i < length as" "gs = (replicate (length as) False)[i := True]"
        "is_sha256 (snd (as ! i))" "k' = with_repository (snd (as ! i)) k"
      then show ?thesis by (intro disjI2 exI[of _ "Suc i"]) (simp add: r)
    qed (simp add: r)
  next
    case (Inr k1)
    obtain r where r: "rid = r" "is_sha256 r" "k1 = with_repository r k"
      by (rule bind_repository_cases[OF assms(1) Inr]) (use assms in auto)
    have "keyset_valid lib k1" using bind_repository_invar[OF assms(1) Inr] .
    then have "binding.run lib k1 as = (k1, replicate (length as) False)"
      by (rule bound_stays) (use r assms in \<open>auto simp: with_repository_def\<close>)
    then have "k' = k1" "fs = True # replicate (length as) False"
      using Cons.prems a Inr r assms by auto
    then show ?thesis using a r by (intro disjI2 exI[of _ 0]) simp
  qed
qed simp

text \<open>C30. Binding the Restic repository of a bucket is a compare-and-swap that succeeds once: of
  any sequence of bind attempts by any number of devices, each naming the metadata generation it
  has seen, at most one changes an unbound keyset, the generation advances by exactly one with
  it, the repository id is that attempt's and is never replaced, nothing else of the keyset
  changes, and the result is again a keyset the constructor accepts.\<close>

theorem repository_bound_once:
  assumes "keyset_valid lib k" "ks_room_store k = Some rs" "rs_repository_id rs = None"
    and "binding.run lib k attempts = (k', changed)"
  shows "keyset_valid lib k' \<and> length (filter id changed) \<le> 1 \<and>
    ks_generation k' = ks_generation k + int (length (filter id changed)) \<and>
    (\<forall>i < length attempts. changed ! i \<longrightarrow> fst (attempts ! i) = ks_generation k \<and>
       k' = k\<lparr>ks_room_store := Some (rs\<lparr>rs_repository_id := Some (snd (attempts ! i)),
                rs_generation := rs_generation rs + 1\<rparr>)\<rparr>)"
proof -
  have v: "keyset_valid lib k'" "ks_generation k' = ks_generation k + int (length (filter id changed))"
    using binding.run_invar[OF assms(1), of attempts] binding.run_version[OF assms(1), of attempts] assms(4) by auto
  have len: "length changed = length attempts" using binding.run_length[of lib k attempts] assms(4) by simp
  from run_binds_once[OF assms] show ?thesis
  proof (elim disjE exE conjE)
    assume "k' = k" "changed = replicate (length attempts) False"
    then show ?thesis using v by simp
  next
    fix i assume i: "i < length attempts" "changed = (replicate (length attempts) False)[i := True]"
      "k' = with_repository (snd (attempts ! i)) k"
    have "filter id changed = [True]" using i(1,2) by (simp add: upd_conv_take_nth_drop)
    moreover have "fst (attempts ! i) = ks_generation k"
      using binding.run_winner[OF assms(1), of i attempts] assms(4) i(1,2) by simp
    moreover have "changed ! j \<Longrightarrow> j < length attempts \<Longrightarrow> j = i" for j
      using i(2) by (cases "j = i") auto
    ultimately show ?thesis using v i(3) assms(2) by (auto simp: with_repository_def)
  qed
qed

theorem repository_bound_once_witness:
  "ks_generation (fst (binding.run demo_lib demo_keyset
     [(1, replicate 64 CHR ''a''), (1, replicate 64 CHR ''b'')])) = 2"
proof -
  let ?as = "[(1::int, replicate 64 CHR ''a''), (1, replicate 64 CHR ''b'')]"
  have rs: "ks_room_store demo_keyset = Some demo_room_store" "rs_repository_id demo_room_store = None"
    "rs_generation demo_room_store = 1"
    by (simp_all add: demo_keyset_def demo_room_store_def)
  have sha: "is_sha256 (replicate 64 CHR ''a'')" by (simp add: is_hex_def is_digit_def)
  have "bind_repository demo_lib demo_keyset (JStr (replicate 64 CHR ''a'')) (JInt 1) =
      Inr (with_repository (replicate 64 CHR ''a'') demo_keyset)"
    using bind_repository_first[OF demo_keyset_valid rs(1,2) sha] rs(3) by simp
  then have w: "snd (binding.run demo_lib demo_keyset ?as) ! 0"
    using rs by (simp add: Let_def case_prod_beta)
  obtain k' fs where run: "binding.run demo_lib demo_keyset ?as = (k', fs)" by force
  note P = repository_bound_once[OF demo_keyset_valid rs(1,2) run]
  have "k' = demo_keyset\<lparr>ks_room_store := Some (demo_room_store\<lparr>rs_repository_id := Some (snd (?as ! 0)),
                rs_generation := rs_generation demo_room_store + 1\<rparr>)\<rparr>"
    by (rule P[THEN conjunct2, THEN conjunct2, THEN conjunct2, THEN spec[of _ 0], THEN mp, THEN mp, THEN conjunct2])
       (simp, rule w[unfolded run snd_conv])
  then show ?thesis unfolding run fst_conv using rs(3) by (simp add: ks_generation_def)
qed


subsection \<open>Writing a keyset and reading it back\<close>

lemma check_fields_sort:
  assumes "set (keys d) = set names"
  shows "check_fields what names d = Inr ()"
  using assms by (auto simp: check_fields_def filter_empty_conv Let_def)

lemma room_store_roundtrip:
  assumes "room_store_valid lib rs"
  shows "room_store_from_dict lib (jsort (room_store_to_dict rs)) = Inr rs"
proof -
  obtain d where d: "room_store_to_dict rs = JObj d" "wf_dict d" "keys d = [''format_version'', ''secret'',
      ''repository_prefix'', ''repository_format'', ''physical_binding'', ''generation'', ''repository_id'']"
    by (simp add: room_store_to_dict_def)
  have f: "jget d ''format_version'' = JInt (rs_format_version rs)" "jget d ''secret'' = JStr (rs_secret rs)"
    "jget d ''repository_prefix'' = JStr (rs_repository_prefix rs)"
    "jget d ''repository_format'' = JInt (rs_repository_format rs)"
    "jget d ''physical_binding'' = JStr (rs_physical_binding rs)"
    "jget d ''generation'' = JInt (rs_generation rs)" "jget d ''repository_id'' = opt_str (rs_repository_id rs)"
    using d(1) by (auto simp: room_store_to_dict_def jget_def)
  have k: "set (keys (sort_key fst (map (\<lambda>(k, v). (k, jsort v)) d))) = set ROOM_STORE_FIELDS"
    unfolding set_keys_jsort d(3) ROOM_STORE_FIELDS_def by auto
  have "jsort (opt_str x) = opt_str x" for x by (cases x) auto
  then show ?thesis
    using assms unfolding room_store_valid_def d(1)
    by (simp add: room_store_from_dict_def check_fields_sort[OF k] jget_jsort[OF d(2)] f)
qed

lemma keyset_dict:
  assumes "keyset_valid lib k"
  obtains d where "keyset_to_dict k = JObj d" "wf_dict d"
    "set (keys d) = set (if ks_format_version k = 1 then KEYSET_FIELDS else KEYSET_FIELDS @ [''room_store''])"
    "jget d ''format_version'' = JInt (ks_format_version k)"
    "jget d ''encryption_domain_id'' = JStr (ks_encryption_domain_id k)"
    "jget d ''provider'' = JStr (ks_provider k)" "jget d ''endpoint'' = JStr (ks_endpoint k)"
    "jget d ''bucket'' = JStr (ks_bucket k)" "jget d ''key_generation'' = JInt (ks_key_generation k)"
    "jget d ''operational_identity'' = JStr (ks_operational_identity k)"
    "jget d ''operational_recipient'' = JStr (ks_operational_recipient k)"
    "jget d ''recovery_recipients'' = JList (map JStr (ks_recovery_recipients k))"
    "\<And>rs. ks_room_store k = Some rs \<Longrightarrow> jget d ''room_store'' = room_store_to_dict rs"
    "no_floats (JObj d)" "wf_json (JObj d)"
proof -
  have n: "no_floats (room_store_to_dict rs) \<and> wf_json (room_store_to_dict rs)" for rs
    by (cases "rs_repository_id rs") (simp_all add: room_store_to_dict_def)
  have "ks_format_version k = 1 \<and> ks_room_store k = None \<or>
      (\<exists>rs. ks_format_version k = 2 \<and> ks_room_store k = Some rs)"
    using keyset_validD[OF assms] by auto
  then show thesis
  proof (elim disjE exE conjE)
    assume "ks_format_version k = 1" "ks_room_store k = None"
    then show thesis
      by (intro that) (auto simp: keyset_to_dict_def jget_def KEYSET_FIELDS_def list_all_iff)
  next
    fix rs assume "ks_format_version k = 2" "ks_room_store k = Some rs"
    then show thesis
      using n[of rs] by (intro that) (auto simp: keyset_to_dict_def jget_def KEYSET_FIELDS_def list_all_iff)
  qed
qed

lemma keyset_dict_roundtrip:
  assumes "keyset_valid lib k"
  shows "keyset_from_dict lib (jsort (keyset_to_dict k)) None None None = Inr k"
proof -
  obtain d where d: "keyset_to_dict k = JObj d" "wf_dict d"
    "set (keys d) = set (if ks_format_version k = 1 then KEYSET_FIELDS else KEYSET_FIELDS @ [''room_store''])"
    and f: "jget d ''format_version'' = JInt (ks_format_version k)"
    "jget d ''encryption_domain_id'' = JStr (ks_encryption_domain_id k)"
    "jget d ''provider'' = JStr (ks_provider k)" "jget d ''endpoint'' = JStr (ks_endpoint k)"
    "jget d ''bucket'' = JStr (ks_bucket k)" "jget d ''key_generation'' = JInt (ks_key_generation k)"
    "jget d ''operational_identity'' = JStr (ks_operational_identity k)"
    "jget d ''operational_recipient'' = JStr (ks_operational_recipient k)"
    "jget d ''recovery_recipients'' = JList (map JStr (ks_recovery_recipients k))"
    and r: "\<And>rs. ks_room_store k = Some rs \<Longrightarrow> jget d ''room_store'' = room_store_to_dict rs"
    by (rule keyset_dict[OF assms]) (rule that)
  let ?e = "sort_key fst (map (\<lambda>(k, v). (k, jsort v)) d)"
  have c: "check_fields ''keyset'' (if ks_format_version k = 1 then KEYSET_FIELDS else KEYSET_FIELDS @ [''room_store'']) ?e = Inr ()"
    by (rule check_fields_sort) (simp only: set_keys_jsort d(3))
  note v = assms[unfolded keyset_valid_def, THEN conjunct1]
  have js: "jsort \<circ> JStr = JStr" by (simp add: fun_eq_iff)
  from keyset_validD[OF assms] show ?thesis
  proof (elim disjE exE conjE)
    assume "ks_format_version k = 1" "ks_room_store k = None"
    then show ?thesis
      using c v by (simp add: d(1) keyset_from_dict_def jget_jsort[OF d(2)] f js Let_def check_simps)
  next
    fix rs assume "ks_format_version k = 2" and rs: "ks_room_store k = Some rs" "room_store_valid lib rs"
    then show ?thesis
      using c v room_store_roundtrip[OF rs(2)] r[OF rs(1)]
      by (simp add: d(1) keyset_from_dict_def jget_jsort[OF d(2)] f js Let_def check_simps)
  qed
qed


lemma demo_keyset_written: "\<exists>body. keyset_to_json (\<lambda>_. []) demo_keyset = Inr body"
proof -
  let ?body = "json_dumps True (\<lambda>_. []) (keyset_to_dict demo_keyset)"
  have nf: "no_floats (keyset_to_dict demo_keyset)" by code_simp
  have "length ?body = utf8_len ?body"
    unfolding json_dumps_def by (intro utf8_len_ascii[symmetric] is_ascii_print no_floats_jsort nf)
  also have "\<dots> \<le> size_bound (keyset_to_dict demo_keyset)" by (rule utf8_len_dumps[OF nf])
  also have "\<dots> < 10000"
    by (simp add: keyset_to_dict_def demo_keyset_def room_store_to_dict_def demo_room_store_def
        int_str_def nat_str.simps demo_domain_def demo_identity_def demo_recipient_def demo_recovery_def
        ROOM_STORE_PREFIX_def)
  finally show ?thesis by (simp add: keyset_to_json_def Let_def MAX_KEYSET_SIZE_def)
qed



subsection \<open>Reconciliation and recipients\<close>

lemma check_occupied_Inr:
  "check_occupied lib c items = Inr () \<longleftrightarrow>
     (\<forall>item \<in> set items. ks_operational_identity item = ks_operational_identity c \<longrightarrow>
        (\<exists>b. ks_binding lib item = Inr b \<and> ks_binding lib c = Inr b))"
  by (induction lib c items rule: check_occupied.induct) (auto simp: check_simps)

text \<open>C35. Reconciling a locally prepared keyset with what the bucket already holds never replaces
  the remote winner: if one exists it is returned unchanged, and only when it is bound to the same
  physical bucket, has the same format version and, for Room Store keysets, the same secret and
  repository id. Without one the candidate is taken only if no other bucket uses its operational
  identity.\<close>

theorem reconcile_keeps_remote_winner:
  assumes "\<forall>e. existing = Some e \<longrightarrow> keyset_valid lib e" and "keyset_valid lib candidate"
  shows "reconcile_keyset lib existing candidate occupied = Inr k \<longleftrightarrow>
    (case existing of
       Some e \<Rightarrow> k = e \<and> (\<exists>b. ks_binding lib e = Inr b \<and> ks_binding lib candidate = Inr b) \<and>
         ks_format_version e = ks_format_version candidate \<and>
         map_option rs_secret (ks_room_store e) = map_option rs_secret (ks_room_store candidate) \<and>
         map_option rs_repository_id (ks_room_store e) = map_option rs_repository_id (ks_room_store candidate)
     | None \<Rightarrow> k = candidate \<and>
         (\<forall>item \<in> set occupied. ks_operational_identity item = ks_operational_identity candidate \<longrightarrow>
            (\<exists>b. ks_binding lib item = Inr b \<and> ks_binding lib candidate = Inr b)))"
proof (cases existing)
  case None
  then show ?thesis by (auto simp: reconcile_keyset_def check_simps check_occupied_Inr)
next
  case (Some e)
  then have "keyset_valid lib e" using assms(1) by simp
  from keyset_validD[OF this] keyset_validD[OF assms(2)] show ?thesis
    by (auto simp: Some reconcile_keyset_def check_simps split: option.splits if_splits)
qed

theorem reconcile_keeps_remote_winner_witness:
  "reconcile_keyset demo_lib (Some demo_keyset) demo_keyset [] = Inr demo_keyset"
proof -
  have b: "ks_binding demo_lib demo_keyset = Inr ''r2:https://h:b''"
    using demo_binding by (simp add: ks_binding_def demo_keyset_def)
  show ?thesis
    using reconcile_keeps_remote_winner[of "Some demo_keyset" demo_lib demo_keyset "[]" demo_keyset]
      demo_keyset_valid b by simp
qed

lemma index_of_less: "x \<in> set xs \<Longrightarrow> index_of x xs < length xs"
  by (induction xs) auto

lemma index_of_nth: "x \<in> set xs \<Longrightarrow> xs ! index_of x xs = x"
  by (induction xs) auto

lemma bech32_index_range: "c \<in> set BECH32_ALPHABET \<Longrightarrow> 0 \<le> bech32_index c \<and> bech32_index c < 32"
  using index_of_less[of c BECH32_ALPHABET] by (simp add: bech32_index_def) (simp add: BECH32_ALPHABET_def)

lemma bech32_index_inj:
  "c \<in> set BECH32_ALPHABET \<Longrightarrow> d \<in> set BECH32_ALPHABET \<Longrightarrow> bech32_index c = bech32_index d \<Longrightarrow> c = d"
  unfolding bech32_index_def by (metis index_of_nth of_nat_eq_iff)

lemma validate_recipient_checksum:
  assumes "validate_recipient (JStr s) l = Inr t"
  shows "starts_with s ''age1''" "length s = 62" "\<forall>c \<in> set (drop 4 s). c \<in> set BECH32_ALPHABET"
    "bech32_polymod (bech32_hrp_expand ''age'' @ map bech32_index (drop 4 s)) = 1"
  using assms by (auto simp: validate_recipient_def Let_def list_all_iff split: if_splits option.splits)

text \<open>C36. A typing error in one character of an age recipient never goes unnoticed: if a
  recipient is accepted, every string that differs from it in exactly one position is refused.\<close>

theorem recipient_typo_detected:
  assumes "validate_recipient (JStr s) label = Inr t" and "i < length s" and "c \<noteq> s ! i"
  shows "\<exists>e. validate_recipient (JStr (s[i := c])) label' = Inl e"
proof (rule ccontr)
  assume "\<nexists>e. validate_recipient (JStr (s[i := c])) label' = Inl e"
  then obtain t' where t': "validate_recipient (JStr (s[i := c])) label' = Inr t'"
    by (cases "validate_recipient (JStr (s[i := c])) label'") auto
  note S = validate_recipient_checksum[OF assms(1)] and S' = validate_recipient_checksum[OF t']
  show False
  proof (cases "i < 4")
    case True
    have "take 4 s = ''age1''" "take 4 (s[i := c]) = ''age1''"
      using S(1) S'(1) by (simp_all add: starts_with_def numeral_eq_Suc)
    then show False using assms(2,3) True by (metis length_list_update nth_list_update_eq nth_take)
  next
    case False
    define us where "us = bech32_hrp_expand ''age'' @ map bech32_index (take (i - 4) (drop 4 s))"
    define vs where "vs = map bech32_index (drop (Suc (i - 4)) (drop 4 s))"
    have j: "i - 4 < length (drop 4 s)" "drop 4 s ! (i - 4) = s ! i" using False assms(2) by auto
    have d: "drop 4 s = take (i - 4) (drop 4 s) @ s ! i # drop (Suc (i - 4)) (drop 4 s)"
      using id_take_nth_drop[OF j(1)] j(2) by simp
    have d': "drop 4 (s[i := c]) = take (i - 4) (drop 4 s) @ c # drop (Suc (i - 4)) (drop 4 s)"
      using False j(1) by (simp add: drop_update_swap upd_conv_take_nth_drop drop_take)
    have "s ! i \<in> set (drop 4 s)" using j nth_mem by metis
    then have a: "s ! i \<in> set BECH32_ALPHABET" "c \<in> set BECH32_ALPHABET"
      using S(3) S'(3) d' by auto
    have "bech32_polymod (us @ bech32_index (s ! i) # vs) = 1"
      using arg_cong[OF d, of "\<lambda>x. bech32_hrp_expand ''age'' @ map bech32_index x"] S(4)
      by (simp add: us_def vs_def)
    moreover have "bech32_polymod (us @ bech32_index c # vs) = 1"
      using S'(4) by (simp only: d') (simp add: us_def vs_def)
    moreover have "bech32_index (s ! i) \<noteq> bech32_index c" using bech32_index_inj a assms(3) by metis
    ultimately show False
      using polymod_one_change bech32_index_range[OF a(1)] bech32_index_range[OF a(2)] by metis
  qed
qed

theorem recipient_typo_detected_witness:
  "\<exists>e. validate_recipient (JStr (demo_recipient[10 := CHR ''p''])) [] = Inl e"
  using recipient_typo_detected[OF demo_recipient_ok, of 10 "CHR ''p''" "[]"]
  by (simp add: demo_recipient_def)

end
