(* ===== verification/LogicalJat.thy ===== *)
theory LogicalJat
  imports Json
begin

text \<open>
  \<^verbatim>\<open>src/josh_room/logical_jat.py\<close>: the descriptor of one complete recovery point, kept as
  canonical JSON with its digest. \<^verbatim>\<open>datetime.fromisoformat\<close> (whether it accepts a text),
  SHA-256 and the text of floats are parameters, collected in one record. The loop over the set
  of component names runs in the order listed here; the order decides only which error of
  several is reported.
\<close>

record jat_lib =
  fromisoformat_ok :: "string \<Rightarrow> bool"
  sha256_hex :: "string \<Rightarrow> string"
  float_repr :: "rat \<Rightarrow> string"
  float_read :: "string \<Rightarrow> rat"

definition MAX_LOGICAL_JAT_BYTES :: nat where
  "MAX_LOGICAL_JAT_BYTES = 64 * 1024"

section \<open>Patterns\<close>

text \<open>A fixed shape in which the letter d stands for a digit.\<close>

definition shape :: "string \<Rightarrow> string \<Rightarrow> bool" where
  "shape p s \<longleftrightarrow> list_all2 (\<lambda>x c. if x = CHR ''d'' then is_digit c else c = x) p s"

definition is_zone :: "string \<Rightarrow> bool" where
  "is_zone s \<longleftrightarrow> s = ''Z'' \<or> shape ''+dd:dd'' s \<or> shape ''-dd:dd'' s"

definition RFC3339 :: "string \<Rightarrow> bool" where
  "RFC3339 s \<longleftrightarrow> shape ''dddd-dd-ddTdd:dd:dd'' (take 19 s) \<and>
     (let r = drop 19 s; fraction = takeWhile is_digit (drop 1 r)
      in is_zone r \<or>
         (starts_with r ''.'' \<and> 1 \<le> length fraction \<and> length fraction \<le> 9 \<and>
          is_zone (drop (1 + length fraction) r)))"

definition is_version :: "string \<Rightarrow> bool" where
  "is_version s \<longleftrightarrow> s \<noteq> [] \<and> is_alnum (hd s) \<and> list_all (\<lambda>c. is_alnum c \<or> c \<in> set ''._+-'') s"

definition is_content_digest :: "string \<Rightarrow> bool" where
  "is_content_digest s \<longleftrightarrow> starts_with s ''sha256:'' \<and> is_sha256 (drop 7 s)"

definition is_media_part :: "string \<Rightarrow> bool" where
  "is_media_part p \<longleftrightarrow> p \<noteq> [] \<and> length p \<le> 64 \<and> (is_digit (hd p) \<or> is_lower (hd p)) \<and>
     list_all (\<lambda>c. is_digit c \<or> is_lower c \<or> c \<in> set ''!#$&^_.+-'') p"

definition is_media_type :: "string \<Rightarrow> bool" where
  "is_media_type s \<longleftrightarrow> length (split_on CHR ''/'' s) = 2 \<and> list_all is_media_part (split_on CHR ''/'' s)"

definition is_relative_path :: "string \<Rightarrow> bool" where
  "is_relative_path s \<longleftrightarrow> length s \<le> 256 \<and> \<not> starts_with s ''/'' \<and> backslash \<notin> set s \<and>
     list_all (\<lambda>part. part \<notin> {'''', ''.'', ''..''}) (split_on CHR ''/'' s) \<and>
     s \<noteq> [] \<and> list_all (\<lambda>c. is_alnum c \<or> c \<in> set ''._/-'') s"

definition is_git_commit :: "string \<Rightarrow> bool" where
  "is_git_commit s \<longleftrightarrow> (length s = 40 \<or> length s = 64) \<and> list_all is_hex s"


section \<open>Validation\<close>

definition jat_object :: "json \<Rightarrow> string \<Rightarrow> string list \<Rightarrow> string list \<Rightarrow> jobj result" where
  "jat_object v name required optional =
     (case v of
        JObj d \<Rightarrow>
          (let unknown = filter (\<lambda>k. k \<notin> set required \<and> k \<notin> set optional) (keys d);
               missing = filter (\<lambda>k. k \<notin> set (keys d)) required
           in if unknown \<noteq> []
              then Inl (ValueError (''unknown logical JAT '' @ name @ '' field: '' @ py_min unknown))
              else if missing \<noteq> []
              then Inl (ValueError (''missing logical JAT '' @ name @ '' field: '' @ py_min missing))
              else Inr d)
      | _ \<Rightarrow> Inl (TypeError (''logical JAT '' @ name @ '' must be an object'')))"

definition require_str :: "(string \<Rightarrow> bool) \<Rightarrow> json \<Rightarrow> string \<Rightarrow> unit result" where
  "require_str P v message = raise_if (\<not> is_str v \<or> \<not> P (str_of v)) (ValueError message)"

definition jat_id :: "json \<Rightarrow> string \<Rightarrow> unit result" where
  "jat_id v name = require_str is_ident128 v (''logical JAT '' @ name @ '' is invalid'')"

definition jat_sha256 :: "json \<Rightarrow> string \<Rightarrow> unit result" where
  "jat_sha256 v name = require_str is_sha256 v (''logical JAT '' @ name @ '' is invalid'')"

definition MAX_INT64 :: int where
  "MAX_INT64 = 2 ^ 63 - 1"

definition jat_integer :: "json \<Rightarrow> string \<Rightarrow> int \<Rightarrow> int \<Rightarrow> unit result" where
  "jat_integer v name minimum maximum =
     raise_if (\<not> type_is_int v \<or> \<not> (minimum \<le> int_of v \<and> int_of v \<le> maximum))
       (ValueError (''logical JAT '' @ name @ '' must be an integer in range''))"

definition jat_version :: "json \<Rightarrow> string \<Rightarrow> unit result" where
  "jat_version v name = require_str (\<lambda>s. length s \<le> 64 \<and> is_version s) v (''logical JAT '' @ name @ '' is invalid'')"

definition jat_content_digest :: "json \<Rightarrow> string \<Rightarrow> unit result" where
  "jat_content_digest v name = require_str is_content_digest v (''logical JAT '' @ name @ '' is invalid'')"

text \<open>\<^verbatim>\<open>if key in d: check(d[key])\<close>.\<close>

definition when_key :: "jobj \<Rightarrow> string \<Rightarrow> (json \<Rightarrow> unit result) \<Rightarrow> unit result" where
  "when_key d k f = (if has_key d k then f (jget d k) else Inr ())"

definition jat_archive :: "jobj \<Rightarrow> string \<Rightarrow> string \<Rightarrow> unit result" where
  "jat_archive c name member_basename = checks [
     jat_sha256 (jget c ''archive_sha256'') (''component '' @ name @ '' archive digest''),
     jat_integer (jget c ''archive_size'') (''component '' @ name @ '' archive size'') 1 MAX_INT64,
     raise_if (jget c ''member_basename'' \<noteq> JStr member_basename)
       (ValueError (''logical JAT component '' @ name @ '' member basename is invalid''))]"

text \<open>One Hauler reference; the result is the tuple that must be unique.\<close>

definition hauler_reference :: "json \<Rightarrow> json list result" where
  "hauler_reference v =
     bind_r (jat_object v ''Hauler reference'' [''digest'']
               [''kind'', ''media_type'', ''reference_sha256'', ''platform_sha256'']) (\<lambda>r.
     bind_r (checks [
        jat_content_digest (jget r ''digest'') ''Hauler reference digest'',
        when_key r ''media_type'' (\<lambda>m. require_str is_media_type m ''logical JAT Hauler reference media type is invalid''),
        when_key r ''kind'' (\<lambda>k. require_in k [''image'', ''chart'', ''file'']
          (ValueError ''logical JAT Hauler reference kind is invalid'')),
        raise_if (\<not> has_key r ''kind'' \<and> \<not> has_key r ''media_type'')
          (ValueError ''logical JAT Hauler reference needs kind or media type''),
        when_key r ''reference_sha256'' (\<lambda>v. jat_sha256 v ''logical JAT Hauler reference_sha256''),
        when_key r ''platform_sha256'' (\<lambda>v. jat_sha256 v ''logical JAT Hauler platform_sha256'')]) (\<lambda>_.
     Inr [jget r ''digest'', jget r ''kind'', jget r ''media_type'', jget r ''reference_sha256'',
          jget r ''platform_sha256'']))"

fun hauler_references :: "json list list \<Rightarrow> json list \<Rightarrow> unit result" where
  "hauler_references seen [] = Inr ()"
| "hauler_references seen (v # vs) =
     bind_r (hauler_reference v) (\<lambda>key.
       if key \<in> set seen then Inl (ValueError ''logical JAT Hauler references must be unique'')
       else hauler_references (seen @ [key]) vs)"

definition RCC_REQUIRED :: "string list" where
  "RCC_REQUIRED = [''kind'', ''snapshot'', ''archive_sha256'', ''archive_size'', ''member_basename'',
     ''artifact_digest'', ''specification_digest'', ''platform'', ''rcc_version'', ''robot_relative_path'']"

definition HOMEBREW_REQUIRED :: "string list" where
  "HOMEBREW_REQUIRED = [''kind'', ''snapshot'', ''archive_sha256'', ''archive_size'', ''member_basename'']"

definition rcc_component :: "json \<Rightarrow> string \<Rightarrow> jobj result" where
  "rcc_component v name =
     bind_r (jat_object v (''component '' @ name) RCC_REQUIRED [''source_input_sha256'']) (\<lambda>c.
     bind_r (checks [
        raise_if (jget c ''kind'' \<noteq> JStr ''rcca'') (ValueError (''logical JAT component '' @ name @ '' kind mismatch'')),
        jat_archive c name ''rcc-environment.rcca'',
        when_key c ''source_input_sha256'' (\<lambda>v. jat_sha256 v (''component '' @ name @ '' source input digest'')),
        jat_content_digest (jget c ''artifact_digest'') (''component '' @ name @ '' artifact digest''),
        jat_content_digest (jget c ''specification_digest'') (''component '' @ name @ '' specification digest''),
        jat_id (jget c ''platform'') (''component '' @ name @ '' platform''),
        jat_version (jget c ''rcc_version'') (''component '' @ name @ '' RCC version''),
        require_str is_relative_path (jget c ''robot_relative_path'')
          (''logical JAT component '' @ name @ '' robot relative path is invalid'')]) (\<lambda>_. Inr c))"

definition homebrew_component :: "json \<Rightarrow> string \<Rightarrow> jobj result" where
  "homebrew_component v name =
     bind_r (jat_object v (''component '' @ name) HOMEBREW_REQUIRED []) (\<lambda>c.
     bind_r (checks [
        raise_if (jget c ''kind'' \<noteq> JStr ''homebrew-recovery'')
          (ValueError (''logical JAT component '' @ name @ '' kind mismatch'')),
        jat_archive c name ''homebrew-recovery.tar.zst'']) (\<lambda>_. Inr c))"

definition hauler_component :: "json \<Rightarrow> string \<Rightarrow> jobj result" where
  "hauler_component v name =
     bind_r (jat_object v (''component '' @ name) (HOMEBREW_REQUIRED @ [''references''])
               [''source_input_sha256'', ''hauler_version'']) (\<lambda>c.
     bind_r (checks [
        raise_if (jget c ''kind'' \<noteq> JStr ''hauler-content'')
          (ValueError (''logical JAT component '' @ name @ '' kind mismatch'')),
        jat_archive c name ''hauler-content.tar.zst'',
        when_key c ''source_input_sha256'' (\<lambda>v. jat_sha256 v (''component '' @ name @ '' source input digest'')),
        when_key c ''hauler_version'' (\<lambda>v. jat_version v (''component '' @ name @ '' Hauler version'')),
        raise_if (\<not> is_list (jget c ''references'') \<or>
            \<not> (1 \<le> length (list_of (jget c ''references'')) \<and> length (list_of (jget c ''references'')) \<le> 4096))
          (ValueError ''logical JAT Hauler references are invalid''),
        hauler_references [] (list_of (jget c ''references''))]) (\<lambda>_. Inr c))"

definition component_snapshot :: "json \<Rightarrow> string \<Rightarrow> jobj \<Rightarrow> unit result" where
  "component_snapshot v name workspace =
     bind_r (jat_object v (''component '' @ name @ '' snapshot'')
               [''repository_id'', ''repository_format'', ''snapshot_id'', ''tree_id''] []) (\<lambda>s.
     checks [
        jat_sha256 (jget s ''repository_id'') (''component '' @ name @ '' repository id''),
        jat_integer (jget s ''repository_format'') (''component '' @ name @ '' repository format'') 2 2,
        jat_sha256 (jget s ''snapshot_id'') (''component '' @ name @ '' snapshot id''),
        jat_sha256 (jget s ''tree_id'') (''component '' @ name @ '' tree id''),
        raise_if (jget s ''repository_id'' \<noteq> jget workspace ''repository_id'' \<or>
                  jget s ''repository_format'' \<noteq> jget workspace ''repository_format'')
          (ValueError (''logical JAT component '' @ name @ '' repository binding mismatch''))])"

definition validate_component :: "json \<Rightarrow> string \<Rightarrow> jobj \<Rightarrow> unit result" where
  "validate_component v name workspace =
     (if v = JNull then Inr ()
      else bind_r (if name = ''rcc_environment'' then rcc_component v name
                   else if name = ''homebrew_recovery'' then homebrew_component v name
                   else hauler_component v name) (\<lambda>c.
           component_snapshot (jget c ''snapshot'') name workspace))"

definition TOP_REQUIRED :: "string list" where
  "TOP_REQUIRED = [''format_version'', ''payload_kind'', ''logical_jat_id'', ''dimension_id'',
     ''encryption_domain_id'', ''room_id'', ''created_at'', ''capture_policy_sha256'', ''workspace'',
     ''components'', ''source'', ''producer'']"

definition TOP_OPTIONAL :: "string list" where
  "TOP_OPTIONAL = [''parent_logical_jat_id'', ''origin_room_id'', ''capture_mode'']"

definition WORKSPACE_REQUIRED :: "string list" where
  "WORKSPACE_REQUIRED = [''engine'', ''repository_id'', ''repository_format'', ''snapshot_id'', ''tree_id'',
     ''source_path'', ''logical_bytes'', ''data_added'', ''data_added_packed'']"

definition COMPONENTS :: "string list" where
  "COMPONENTS = [''rcc_environment'', ''homebrew_recovery'', ''hauler_content'']"

definition PLATFORMS :: "string list" where
  "PLATFORMS = [''linux-x64'', ''win32-x64'']"

text \<open>The head of \<^verbatim>\<open>_validate\<close>: everything up to the workspace object.\<close>

definition validate_head :: "jat_lib \<Rightarrow> jobj \<Rightarrow> unit result" where
  "validate_head lib d = checks [
     (if has_key d ''capture_mode'' then
        require_in (jget d ''capture_mode'') [''full-repository'', ''source-only'']
          (ValueError ''unsupported workspace capture mode'')
      else Inr ()),
     jat_integer (jget d ''format_version'') ''format version'' 1 1,
     raise_if (jget d ''payload_kind'' \<noteq> JStr ''room-store-v1'') (ValueError ''unsupported logical JAT payload kind''),
     jat_id (jget d ''logical_jat_id'') ''logical_jat_id'',
     jat_id (jget d ''dimension_id'') ''dimension_id'',
     jat_id (jget d ''encryption_domain_id'') ''encryption_domain_id'',
     jat_id (jget d ''room_id'') ''room_id'',
     when_key d ''origin_room_id'' (\<lambda>v. checks [
       jat_id v ''origin room id'',
       raise_if (v = jget d ''room_id'') (ValueError ''logical JAT origin room must differ from the copied Room'')]),
     when_key d ''parent_logical_jat_id'' (\<lambda>v. jat_id v ''parent logical JAT id''),
     require_str RFC3339 (jget d ''created_at'') ''logical JAT created_at must be RFC3339'',
     raise_if (\<not> fromisoformat_ok lib (str_of (jget d ''created_at'')))
       (ValueError ''logical JAT created_at must be RFC3339''),
     jat_sha256 (jget d ''capture_policy_sha256'') ''capture policy digest'']"

definition validate_workspace :: "json \<Rightarrow> jobj result" where
  "validate_workspace v =
     bind_r (jat_object v ''workspace'' WORKSPACE_REQUIRED [''parent_snapshot_id'']) (\<lambda>w.
     bind_r (checks [
        raise_if (jget w ''engine'' \<noteq> JStr ''restic'') (ValueError ''unsupported logical JAT workspace engine''),
        jat_sha256 (jget w ''repository_id'') ''workspace repository id'',
        jat_integer (jget w ''repository_format'') ''workspace repository format'' 2 2,
        jat_sha256 (jget w ''snapshot_id'') ''workspace snapshot id'',
        jat_sha256 (jget w ''tree_id'') ''workspace tree id'',
        when_key w ''parent_snapshot_id'' (\<lambda>v. jat_sha256 v ''workspace parent snapshot id''),
        raise_if (jget w ''source_path'' \<noteq> JStr ''.'')
          (ValueError ''logical JAT workspace source path must be the relative root''),
        jat_integer (jget w ''logical_bytes'') ''workspace logical_bytes'' 0 MAX_INT64,
        jat_integer (jget w ''data_added'') ''workspace data_added'' 0 MAX_INT64,
        jat_integer (jget w ''data_added_packed'') ''workspace data_added_packed'' 0 MAX_INT64]) (\<lambda>_. Inr w))"

definition validate_source :: "json \<Rightarrow> unit result" where
  "validate_source v =
     bind_r (jat_object v ''source'' [] [''git_commit'', ''dirty'']) (\<lambda>s.
     checks [
        when_key s ''git_commit'' (\<lambda>v. require_str is_git_commit v ''logical JAT source git commit is invalid''),
        when_key s ''dirty'' (\<lambda>v. raise_if (\<not> type_is_bool v)
          (ValueError ''logical JAT source dirty marker must be a boolean''))])"

definition validate_producer :: "json \<Rightarrow> unit result" where
  "validate_producer v =
     bind_r (jat_object v ''producer''
       [''josh_room_version'', ''restic_version'', ''source_platform'', ''restore_platforms''] []) (\<lambda>p.
     (let supported = (\<lambda>v. is_str v \<and> str_of v \<in> set PLATFORMS);
          restore = jget p ''restore_platforms''
      in checks [
        jat_version (jget p ''josh_room_version'') ''Josh Room version'',
        jat_version (jget p ''restic_version'') ''restic version'',
        raise_if (\<not> supported (jget p ''source_platform'')) (ValueError ''logical JAT source platform is invalid''),
        raise_if (\<not> is_list restore \<or> list_of restore = [] \<or> \<not> list_all supported (list_of restore) \<or>
                  \<not> distinct (list_of restore) \<or> jget p ''source_platform'' \<notin> set (list_of restore))
          (ValueError ''logical JAT restore platforms are invalid'')]))"

definition jat_validate :: "jat_lib \<Rightarrow> json \<Rightarrow> jobj result" where
  "jat_validate lib body =
     bind_r (jat_object body ''descriptor'' TOP_REQUIRED TOP_OPTIONAL) (\<lambda>d.
     bind_r (validate_head lib d) (\<lambda>_.
     bind_r (validate_workspace (jget d ''workspace'')) (\<lambda>w.
     bind_r (jat_object (jget d ''components'') ''components'' COMPONENTS []) (\<lambda>cs.
     bind_r (checks (map (\<lambda>name. validate_component (jget cs name) name w) COMPONENTS)) (\<lambda>_.
     bind_r (validate_source (jget d ''source'')) (\<lambda>_.
     bind_r (validate_producer (jget d ''producer'')) (\<lambda>_. Inr d)))))))"


section \<open>Descriptors\<close>

fun reject_duplicate_keys :: "jobj \<Rightarrow> (string \<times> json) list \<Rightarrow> json result" where
  "reject_duplicate_keys acc [] = Inr (JObj acc)"
| "reject_duplicate_keys acc ((k, v) # ps) =
     (if has_key acc k then Inl (ValueError (''duplicate JSON key: '' @ k))
      else reject_duplicate_keys (acc @ [(k, v)]) ps)"

definition reject_non_json_constant :: "string \<Rightarrow> json result" where
  "reject_non_json_constant v = Inl (ValueError (''invalid JSON number: '' @ v))"

definition jat_hooks :: "jat_lib \<Rightarrow> json_hooks" where
  "jat_hooks lib = \<lparr>parse_float = float_read lib, pairs_hook = reject_duplicate_keys [],
     constant_hook = reject_non_json_constant\<rparr>"

record logical_jat =
  lj_canonical_json :: string
  lj_sha256 :: string

definition jat_from_dict :: "jat_lib \<Rightarrow> json \<Rightarrow> logical_jat result" where
  "jat_from_dict lib body =
     bind_r (jat_validate lib body) (\<lambda>d.
     (let canonical = json_dumps False (float_repr lib) (JObj d); encoded = utf8_encode canonical
      in if length encoded > MAX_LOGICAL_JAT_BYTES
         then Inl (ValueError ''logical JAT descriptor exceeds the 65536-byte size limit'')
         else Inr \<lparr>lj_canonical_json = canonical, lj_sha256 = sha256_hex lib encoded\<rparr>))"

text \<open>\<^verbatim>\<open>from_json\<close> on a \<^verbatim>\<open>str\<close>.\<close>

definition jat_from_json :: "jat_lib \<Rightarrow> string \<Rightarrow> logical_jat result" where
  "jat_from_json lib text =
     (if utf8_len text > MAX_LOGICAL_JAT_BYTES
      then Inl (ValueError ''logical JAT descriptor exceeds the 65536-byte size limit'')
      else (case json_loads (jat_hooks lib) text of
              Inl e \<Rightarrow> if e = JSONDecodeError then Inl (ValueError ''logical JAT descriptor is invalid JSON'')
                       else Inl e
            | Inr body \<Rightarrow> jat_from_dict lib body))"

definition jat_to_json :: "logical_jat \<Rightarrow> string" where
  "jat_to_json j = lj_canonical_json j"

definition jat_to_dict :: "jat_lib \<Rightarrow> logical_jat \<Rightarrow> json result" where
  "jat_to_dict lib j = json_loads (default_hooks (float_read lib)) (lj_canonical_json j)"


section \<open>What validation establishes\<close>

lemma jat_object_Inr [check_simps]:
  "jat_object v name req opt = Inr d \<longleftrightarrow>
     v = JObj d \<and> set (keys d) \<subseteq> set req \<union> set opt \<and> set req \<subseteq> set (keys d)"
  by (cases v) (auto simp: jat_object_def Let_def filter_empty_conv)

lemma require_str_Inr [check_simps]:
  "require_str P v m = Inr () \<longleftrightarrow> (\<exists>s. v = JStr s \<and> P s)"
  by (cases v) (auto simp: require_str_def check_simps)

lemmas jat_field_defs = jat_id_def jat_sha256_def jat_version_def jat_content_digest_def

lemma jat_integer_Inr [check_simps]:
  "jat_integer v name lo hi = Inr () \<longleftrightarrow> (\<exists>i. v = JInt i \<and> lo \<le> i \<and> i \<le> hi)"
  by (cases v) (auto simp: jat_integer_def check_simps)

lemma when_key_Inr [check_simps]:
  "when_key d k f = Inr () \<longleftrightarrow> (has_key d k \<longrightarrow> f (jget d k) = Inr ())"
  by (simp add: when_key_def)

lemma wf_json_field: "wf_json (JObj d) \<Longrightarrow> wf_json (jget d k)"
  by (auto simp: jget_def list_all_iff dest!: map_of_SomeD split: option.splits)

lemma wf_json_obj: "wf_json (JObj d) \<Longrightarrow> wf_dict d"
  by simp


subsection \<open>Validation does not see the order of the keys\<close>

lemma jsort_leaf [simp]: "is_str v \<Longrightarrow> jsort v = v" "type_is_int v \<Longrightarrow> jsort v = v" "type_is_bool v \<Longrightarrow> jsort v = v"
  by (cases v; simp)+

lemma jsort_eq_leaf [simp]:
  "jsort v = JStr s \<longleftrightarrow> v = JStr s" "jsort v = JInt i \<longleftrightarrow> v = JInt i" "jsort v = JBool b \<longleftrightarrow> v = JBool b"
  "jsort v = JNull \<longleftrightarrow> v = JNull"
  by (cases v; simp)+

lemma jat_object_jsort:
  "jat_object v name req opt = Inr d \<Longrightarrow> wf_json v \<Longrightarrow>
     jat_object (jsort v) name req opt = Inr (jsort_obj d) \<and> wf_dict d \<and> wf_json (JObj d)"
  by (simp add: jat_object_Inr jsort_JObj del: jsort.simps)

lemma require_in_jsort: "require_in v ss e = Inr () \<Longrightarrow> require_in (jsort v) ss e = Inr ()"
  by (auto simp: require_in_conv)

lemma jat_archive_jsort:
  "jat_archive c name m = Inr () \<Longrightarrow> wf_dict c \<Longrightarrow> jat_archive (jsort_obj c) name m = Inr ()"
  by (auto simp: jat_archive_def check_simps jat_field_defs jget_jsort_obj)

lemma when_key_jsort:
  "wf_dict d \<Longrightarrow> has_key d k \<longrightarrow> is_str (jget d k) \<Longrightarrow> when_key (jsort_obj d) k f = when_key d k f"
  by (simp add: when_key_def jget_jsort_obj)

lemma leaf_str:
  "jat_id v n = Inr () \<Longrightarrow> is_str v" "jat_sha256 v n = Inr () \<Longrightarrow> is_str v"
  "require_str P v m = Inr () \<Longrightarrow> is_str v" "require_in v ss e = Inr () \<Longrightarrow> is_str v"
  "jat_content_digest v n = Inr () \<Longrightarrow> is_str v" "jat_integer v n lo hi = Inr () \<Longrightarrow> type_is_int v"
  by (auto simp: jat_field_defs check_simps require_in_conv)

lemma hauler_reference_fields:
  assumes "hauler_reference v = Inr key"
  obtains r where "jat_object v ''Hauler reference'' [''digest'']
               [''kind'', ''media_type'', ''reference_sha256'', ''platform_sha256''] = Inr r"
    "is_str (jget r ''digest'')" "has_key r ''kind'' \<longrightarrow> is_str (jget r ''kind'')"
    "has_key r ''media_type'' \<longrightarrow> is_str (jget r ''media_type'')"
    "has_key r ''reference_sha256'' \<longrightarrow> is_str (jget r ''reference_sha256'')"
    "has_key r ''platform_sha256'' \<longrightarrow> is_str (jget r ''platform_sha256'')"
proof -
  obtain r where r: "jat_object v ''Hauler reference'' [''digest'']
               [''kind'', ''media_type'', ''reference_sha256'', ''platform_sha256''] = Inr r"
    using assms(1) by (auto simp: hauler_reference_def bind_r_eq_Inr)
  have c: "jat_content_digest (jget r ''digest'') ''Hauler reference digest'' = Inr ()"
    "has_key r ''media_type'' \<longrightarrow> require_str is_media_type (jget r ''media_type'')
       ''logical JAT Hauler reference media type is invalid'' = Inr ()"
    "has_key r ''kind'' \<longrightarrow> require_in (jget r ''kind'') [''image'', ''chart'', ''file'']
       (ValueError ''logical JAT Hauler reference kind is invalid'') = Inr ()"
    "has_key r ''reference_sha256'' \<longrightarrow> jat_sha256 (jget r ''reference_sha256'') ''logical JAT Hauler reference_sha256'' = Inr ()"
    "has_key r ''platform_sha256'' \<longrightarrow> jat_sha256 (jget r ''platform_sha256'') ''logical JAT Hauler platform_sha256'' = Inr ()"
    using assms unfolding hauler_reference_def r bind_r_Inr bind_r_eq_Inr checks_Cons when_key_Inr
    by - (elim exE conjE, assumption)+
  show thesis
    by (rule that[OF r leaf_str(5)[OF c(1)]]) (use c leaf_str(2-4) in metis)+
qed

lemma hauler_reference_jsort:
  assumes "hauler_reference v = Inr key" "wf_json v"
  shows "hauler_reference (jsort v) = Inr key"
proof -
  obtain r where r: "jat_object v ''Hauler reference'' [''digest'']
               [''kind'', ''media_type'', ''reference_sha256'', ''platform_sha256''] = Inr r"
    and f: "is_str (jget r ''digest'')" "has_key r ''kind'' \<longrightarrow> is_str (jget r ''kind'')"
    "has_key r ''media_type'' \<longrightarrow> is_str (jget r ''media_type'')"
    "has_key r ''reference_sha256'' \<longrightarrow> is_str (jget r ''reference_sha256'')"
    "has_key r ''platform_sha256'' \<longrightarrow> is_str (jget r ''platform_sha256'')"
    by (rule hauler_reference_fields[OF assms(1)])
  note s = jat_object_jsort[OF r assms(2)]
  have o: "jsort (jget r k) = jget r k" if "has_key r k \<longrightarrow> is_str (jget r k)" for k
    using that by (cases "has_key r k") (auto simp: jget_def map_of_None_key[THEN iffD2])
  show ?thesis
    using assms(1) s f unfolding hauler_reference_def r
    by (simp add: jget_jsort_obj o when_key_jsort)
qed

lemma hauler_references_jsort:
  "hauler_references seen vs = Inr () \<Longrightarrow> list_all wf_json vs \<Longrightarrow>
     hauler_references seen (map jsort vs) = Inr ()"
proof (induction vs arbitrary: seen)
  case (Cons v vs)
  then obtain key where key: "hauler_reference v = Inr key" "key \<notin> set seen" "hauler_references (seen @ [key]) vs = Inr ()"
    by (auto simp: check_simps split: if_splits)
  show ?case using Cons key hauler_reference_jsort[OF key(1)] by simp
qed simp

lemma rcc_component_jsort:
  assumes "rcc_component v name = Inr c" "wf_json v"
  shows "rcc_component (jsort v) name = Inr (jsort_obj c) \<and> wf_json (JObj c)"
proof -
  have b: "jat_object v (''component '' @ name) RCC_REQUIRED [''source_input_sha256''] = Inr c"
    using assms(1) by (auto simp: rcc_component_def bind_r_eq_Inr)
  note s = jat_object_jsort[OF b assms(2)]
  then show ?thesis
    using assms(1) jat_archive_jsort[of c name "''rcc-environment.rcca''"] unfolding rcc_component_def b
    by (auto simp: check_simps jat_field_defs jget_jsort_obj simp del: jsort.simps)
qed

lemma homebrew_component_jsort:
  assumes "homebrew_component v name = Inr c" "wf_json v"
  shows "homebrew_component (jsort v) name = Inr (jsort_obj c) \<and> wf_json (JObj c)"
proof -
  have b: "jat_object v (''component '' @ name) HOMEBREW_REQUIRED [] = Inr c"
    using assms(1) by (auto simp: homebrew_component_def bind_r_eq_Inr)
  note s = jat_object_jsort[OF b assms(2)]
  then show ?thesis
    using assms(1) jat_archive_jsort[of c name "''homebrew-recovery.tar.zst''"] unfolding homebrew_component_def b
    by (auto simp: check_simps jat_field_defs jget_jsort_obj simp del: jsort.simps)
qed

lemma hauler_component_jsort:
  assumes "hauler_component v name = Inr c" "wf_json v"
  shows "hauler_component (jsort v) name = Inr (jsort_obj c) \<and> wf_json (JObj c)"
proof -
  have b: "jat_object v (''component '' @ name) (HOMEBREW_REQUIRED @ [''references''])
               [''source_input_sha256'', ''hauler_version''] = Inr c"
    using assms(1) by (auto simp: hauler_component_def bind_r_eq_Inr)
  note s = jat_object_jsort[OF b assms(2)]
  obtain refs where refs: "jget c ''references'' = JList refs" "hauler_references [] refs = Inr ()"
    using assms(1) unfolding hauler_component_def b by (auto simp: check_simps is_list_conv)
  have "list_all wf_json refs" using wf_json_field[of c "''references''"] s refs(1) by simp
  then have "hauler_references [] (map jsort refs) = Inr ()" using hauler_references_jsort refs(2) by blast
  then show ?thesis
    using assms(1) s refs(1) jat_archive_jsort[of c name "''hauler-content.tar.zst''"] unfolding hauler_component_def b
    by (auto simp: check_simps jat_field_defs jget_jsort_obj)
qed

lemma component_snapshot_jsort:
  assumes "component_snapshot v name w = Inr ()" "wf_json v" "wf_dict w"
  shows "component_snapshot (jsort v) name (jsort_obj w) = Inr ()"
proof -
  obtain d where b: "jat_object v (''component '' @ name @ '' snapshot'')
               [''repository_id'', ''repository_format'', ''snapshot_id'', ''tree_id''] [] = Inr d"
    using assms(1) by (auto simp: component_snapshot_def bind_r_eq_Inr)
  note s = jat_object_jsort[OF b assms(2)]
  then show ?thesis
    using assms(1,3) unfolding component_snapshot_def b
    by (simp add: check_simps jat_field_defs jget_jsort_obj) (metis order_refl)
qed

lemma validate_component_jsort:
  assumes "validate_component v name w = Inr ()" "wf_json v" "wf_dict w"
  shows "validate_component (jsort v) name (jsort_obj w) = Inr ()"
proof (cases "v = JNull")
  case True
  then show ?thesis by (simp add: validate_component_def)
next
  case False
  let ?f = "if name = ''rcc_environment'' then rcc_component else if name = ''homebrew_recovery''
    then homebrew_component else hauler_component"
  obtain c where c: "?f v name = Inr c" "component_snapshot (jget c ''snapshot'') name w = Inr ()"
    using assms(1) False by (auto simp: validate_component_def check_simps split: if_splits)
  have "?f (jsort v) name = Inr (jsort_obj c) \<and> wf_json (JObj c)"
    using c(1) assms(2)
    by (cases "name = ''rcc_environment''"; cases "name = ''homebrew_recovery''")
       (simp_all add: rcc_component_jsort homebrew_component_jsort hauler_component_jsort
         del: jsort.simps wf_json.simps)
  moreover from this have "component_snapshot (jsort (jget c ''snapshot'')) name (jsort_obj w) = Inr ()"
    using component_snapshot_jsort[OF c(2) wf_json_field assms(3)] by blast
  moreover have "jsort v \<noteq> JNull" using False by simp
  ultimately show ?thesis
    by (auto simp: validate_component_def jget_jsort_obj split: if_splits)
qed

lemma validate_head_jsort:
  "validate_head lib d = Inr () \<Longrightarrow> wf_dict d \<Longrightarrow> validate_head lib (jsort_obj d) = Inr ()"
  by (auto simp: validate_head_def check_simps jat_field_defs jget_jsort_obj require_in_conv split: if_splits)

lemma validate_workspace_jsort:
  assumes "validate_workspace v = Inr w" "wf_json v"
  shows "validate_workspace (jsort v) = Inr (jsort_obj w) \<and> wf_dict w"
proof -
  have b: "jat_object v ''workspace'' WORKSPACE_REQUIRED [''parent_snapshot_id''] = Inr w"
    using assms(1) by (auto simp: validate_workspace_def bind_r_eq_Inr)
  note s = jat_object_jsort[OF b assms(2)]
  then show ?thesis
    using assms(1) unfolding validate_workspace_def b
    by (auto simp: check_simps jat_field_defs jget_jsort_obj)
qed

lemma validate_source_jsort:
  assumes "validate_source v = Inr ()" "wf_json v"
  shows "validate_source (jsort v) = Inr ()"
proof -
  obtain d where b: "jat_object v ''source'' [] [''git_commit'', ''dirty''] = Inr d"
    using assms(1) by (auto simp: validate_source_def bind_r_eq_Inr)
  note s = jat_object_jsort[OF b assms(2)]
  then show ?thesis
    using assms(1) unfolding validate_source_def b
    by (auto simp: check_simps jat_field_defs jget_jsort_obj type_is_bool_conv)
qed

lemma jsort_all_strs: "list_all is_str xs \<Longrightarrow> map jsort xs = xs"
  by (induction xs) auto

lemma validate_producer_jsort:
  assumes "validate_producer v = Inr ()" "wf_json v"
  shows "validate_producer (jsort v) = Inr ()"
proof -
  obtain p where b: "jat_object v ''producer''
       [''josh_room_version'', ''restic_version'', ''source_platform'', ''restore_platforms''] [] = Inr p"
    using assms(1) by (auto simp: validate_producer_def bind_r_eq_Inr)
  note s = jat_object_jsort[OF b assms(2)]
  obtain rs where rs: "jget p ''restore_platforms'' = JList rs" "list_all is_str rs"
    using assms(1) unfolding validate_producer_def b
    by (auto simp: check_simps is_list_conv Let_def list_all_iff)
  show ?thesis
    using assms(1) s rs jsort_all_strs[OF rs(2)] unfolding validate_producer_def b
    by (auto simp: check_simps jat_field_defs jget_jsort_obj Let_def)
qed

lemma jat_validate_jsort:
  assumes "jat_validate lib v = Inr d" "wf_json v"
  shows "v = JObj d" "jat_validate lib (jsort v) = Inr (jsort_obj d)"
proof -
  from assms(1) obtain w cs where
    d: "jat_object v ''descriptor'' TOP_REQUIRED TOP_OPTIONAL = Inr d"
    and h: "validate_head lib d = Inr ()" and w: "validate_workspace (jget d ''workspace'') = Inr w"
    and cs: "jat_object (jget d ''components'') ''components'' COMPONENTS [] = Inr cs"
    and vc: "\<forall>name \<in> set COMPONENTS. validate_component (jget cs name) name w = Inr ()"
    and s: "validate_source (jget d ''source'') = Inr ()" and p: "validate_producer (jget d ''producer'') = Inr ()"
    by (auto simp: jat_validate_def bind_r_eq_Inr checks_map)
  show "v = JObj d" using d by (simp add: jat_object_Inr)
  note D = jat_object_jsort[OF d assms(2)]
  have wf: "wf_json (jget d k)" for k using D wf_json_field by blast
  note W = validate_workspace_jsort[OF w wf] and C = jat_object_jsort[OF cs wf]
  have "validate_component (jget (jsort_obj cs) name) name (jsort_obj w) = Inr ()" if "name \<in> set COMPONENTS" for name
    using validate_component_jsort[of "jget cs name" name w] vc W C that wf_json_field[of cs] by (auto simp: jget_jsort_obj)
  then show "jat_validate lib (jsort v) = Inr (jsort_obj d)"
    using D W C validate_head_jsort[OF h] validate_source_jsort[OF s wf] validate_producer_jsort[OF p wf]
    by (simp add: jat_validate_def jget_jsort_obj check_simps bind_r_eq_Inr)
qed


subsection \<open>A validated descriptor has no floats\<close>

lemma no_floats_object:
  assumes "jat_object v name req opt = Inr d" "wf_json v"
    and "list_all (\<lambda>k. has_key d k \<longrightarrow> no_floats (jget d k)) (req @ opt)"
  shows "no_floats v"
  using no_floats_fields[of d "req @ opt"] assms by (auto simp: jat_object_Inr list_all_iff)

lemma no_floats_str [simp]: "is_str v \<Longrightarrow> no_floats v" "type_is_int v \<Longrightarrow> no_floats v" "type_is_bool v \<Longrightarrow> no_floats v"
  by (cases v; simp)+

lemma hauler_reference_no_floats:
  assumes "hauler_reference v = Inr key" "wf_json v"
  shows "no_floats v"
proof -
  obtain r where r: "jat_object v ''Hauler reference'' [''digest'']
               [''kind'', ''media_type'', ''reference_sha256'', ''platform_sha256''] = Inr r"
    and f: "is_str (jget r ''digest'')" "has_key r ''kind'' \<longrightarrow> is_str (jget r ''kind'')"
    "has_key r ''media_type'' \<longrightarrow> is_str (jget r ''media_type'')"
    "has_key r ''reference_sha256'' \<longrightarrow> is_str (jget r ''reference_sha256'')"
    "has_key r ''platform_sha256'' \<longrightarrow> is_str (jget r ''platform_sha256'')"
    by (rule hauler_reference_fields[OF assms(1)])
  show ?thesis by (rule no_floats_object[OF r assms(2)]) (use f in simp)
qed

lemma hauler_references_no_floats:
  "hauler_references seen vs = Inr () \<Longrightarrow> list_all wf_json vs \<Longrightarrow> list_all no_floats vs"
  by (induction seen vs rule: hauler_references.induct)
     (auto simp: check_simps split: if_splits dest: hauler_reference_no_floats)

lemma component_snapshot_no_floats:
  assumes "component_snapshot v name w = Inr ()" "wf_json v"
  shows "no_floats v"
proof -
  obtain d where b: "jat_object v (''component '' @ name @ '' snapshot'')
               [''repository_id'', ''repository_format'', ''snapshot_id'', ''tree_id''] [] = Inr d"
    using assms(1) by (auto simp: component_snapshot_def bind_r_eq_Inr)
  have "is_str (jget d ''repository_id'')" "type_is_int (jget d ''repository_format'')"
    "is_str (jget d ''snapshot_id'')" "is_str (jget d ''tree_id'')"
    using assms(1) unfolding component_snapshot_def b bind_r_Inr
    by (auto simp: check_simps jat_field_defs simp del: ex_simps)
  then show ?thesis by (intro no_floats_object[OF b assms(2)]) simp
qed

lemma jat_archive_fields:
  "jat_archive c name m = Inr () \<Longrightarrow>
     is_str (jget c ''archive_sha256'') \<and> type_is_int (jget c ''archive_size'') \<and> is_str (jget c ''member_basename'')"
  by (auto simp: jat_archive_def check_simps jat_field_defs)

lemma validate_component_no_floats:
  assumes "validate_component v name w = Inr ()" "wf_json v"
  shows "no_floats v"
proof (cases "v = JNull")
  case False
  let ?f = "if name = ''rcc_environment'' then rcc_component else if name = ''homebrew_recovery''
    then homebrew_component else hauler_component"
  obtain c where c: "?f v name = Inr c" and sn: "component_snapshot (jget c ''snapshot'') name w = Inr ()"
    using assms(1) False by (auto simp: validate_component_def check_simps split: if_splits)
  have v: "v = JObj c" using c
    by (auto simp: rcc_component_def homebrew_component_def hauler_component_def bind_r_eq_Inr
        jat_object_Inr split: if_splits)
  have snap: "no_floats (jget c ''snapshot'')"
    using component_snapshot_no_floats[OF sn wf_json_field] assms(2) v by simp
  consider (rcc) "rcc_component v name = Inr c" | (brew) "homebrew_component v name = Inr c"
    | (hauler) "hauler_component v name = Inr c"
    using c by (auto split: if_splits)
  then show ?thesis
  proof cases
    case rcc
    then have o: "jat_object v (''component '' @ name) RCC_REQUIRED [''source_input_sha256''] = Inr c"
      by (auto simp: rcc_component_def bind_r_eq_Inr)
    show ?thesis
      by (rule no_floats_object[OF o assms(2)], unfold RCC_REQUIRED_def)
         (use rcc snap in \<open>auto simp: rcc_component_def o check_simps jat_field_defs dest!: jat_archive_fields\<close>)
  next
    case brew
    then have o: "jat_object v (''component '' @ name) HOMEBREW_REQUIRED [] = Inr c"
      by (auto simp: homebrew_component_def bind_r_eq_Inr)
    show ?thesis
      by (rule no_floats_object[OF o assms(2)], unfold HOMEBREW_REQUIRED_def)
         (use brew snap in \<open>auto simp: homebrew_component_def o check_simps jat_field_defs dest!: jat_archive_fields\<close>)
  next
    case hauler
    then have o: "jat_object v (''component '' @ name) (HOMEBREW_REQUIRED @ [''references''])
               [''source_input_sha256'', ''hauler_version''] = Inr c"
      by (auto simp: hauler_component_def bind_r_eq_Inr)
    obtain refs where refs: "jget c ''references'' = JList refs" "hauler_references [] refs = Inr ()"
      using hauler unfolding hauler_component_def o by (auto simp: check_simps is_list_conv)
    have "list_all wf_json refs" using wf_json_field[of c "''references''"] v assms(2) refs(1) by simp
    then have "no_floats (jget c ''references'')" using hauler_references_no_floats refs by simp
    then show ?thesis
      by (intro no_floats_object[OF o assms(2)], unfold HOMEBREW_REQUIRED_def)
         (use hauler snap in \<open>auto simp: hauler_component_def o check_simps jat_field_defs dest!: jat_archive_fields\<close>)
  qed
qed simp

lemma validate_head_fields:
  assumes "validate_head lib d = Inr ()"
  shows "has_key d ''capture_mode'' \<longrightarrow> is_str (jget d ''capture_mode'')" "type_is_int (jget d ''format_version'')"
    "jget d ''payload_kind'' = JStr ''room-store-v1''" "is_str (jget d ''logical_jat_id'')"
    "is_str (jget d ''dimension_id'')" "is_str (jget d ''encryption_domain_id'')" "is_str (jget d ''room_id'')"
    "has_key d ''origin_room_id'' \<longrightarrow> is_str (jget d ''origin_room_id'')"
    "has_key d ''parent_logical_jat_id'' \<longrightarrow> is_str (jget d ''parent_logical_jat_id'')"
    "is_str (jget d ''created_at'')" "is_str (jget d ''capture_policy_sha256'')"
proof -
  note c = assms[unfolded validate_head_def checks_Cons when_key_Inr raise_if_Inr not_not]
  show "has_key d ''capture_mode'' \<longrightarrow> is_str (jget d ''capture_mode'')"
  proof
    assume "has_key d ''capture_mode''"
    then show "is_str (jget d ''capture_mode'')" by (intro leaf_str(4)) (use conjunct1[OF c] in simp)
  qed
  show "type_is_int (jget d ''format_version'')" using c by (elim conjE) (rule leaf_str)
  show "jget d ''payload_kind'' = JStr ''room-store-v1''" using c by (elim conjE)
  show "is_str (jget d ''logical_jat_id'')" using c by (elim conjE) (rule leaf_str)
  show "is_str (jget d ''dimension_id'')" using c by (elim conjE) (rule leaf_str)
  show "is_str (jget d ''encryption_domain_id'')" using c by (elim conjE) (rule leaf_str)
  show "is_str (jget d ''room_id'')" using c by (elim conjE) (rule leaf_str)
  show "has_key d ''origin_room_id'' \<longrightarrow> is_str (jget d ''origin_room_id'')"
  proof -
    have "has_key d ''origin_room_id'' \<longrightarrow> jat_id (jget d ''origin_room_id'') ''origin room id'' = Inr () \<and>
        jget d ''origin_room_id'' \<noteq> jget d ''room_id'' \<and> checks [] = Inr ()" using c by (elim conjE)
    then show ?thesis using leaf_str(1) by metis
  qed
  show "has_key d ''parent_logical_jat_id'' \<longrightarrow> is_str (jget d ''parent_logical_jat_id'')"
  proof -
    have "has_key d ''parent_logical_jat_id'' \<longrightarrow>
        jat_id (jget d ''parent_logical_jat_id'') ''parent logical JAT id'' = Inr ()" using c by (elim conjE)
    then show ?thesis using leaf_str(1) by metis
  qed
  show "is_str (jget d ''created_at'')" using c by (elim conjE) (rule leaf_str)
  show "is_str (jget d ''capture_policy_sha256'')" using c by (elim conjE) (rule leaf_str)
qed

lemma jat_validate_no_floats:
  assumes "jat_validate lib v = Inr d" "wf_json v"
  shows "no_floats v"
proof -
  from assms(1) obtain w cs where
    d: "jat_object v ''descriptor'' TOP_REQUIRED TOP_OPTIONAL = Inr d"
    and h: "validate_head lib d = Inr ()" and w: "validate_workspace (jget d ''workspace'') = Inr w"
    and cs: "jat_object (jget d ''components'') ''components'' COMPONENTS [] = Inr cs"
    and vc: "\<forall>name \<in> set COMPONENTS. validate_component (jget cs name) name w = Inr ()"
    and s: "validate_source (jget d ''source'') = Inr ()" and p: "validate_producer (jget d ''producer'') = Inr ()"
    by (auto simp: jat_validate_def bind_r_eq_Inr checks_map)
  have wf: "wf_json (jget d k)" for k using d assms(2) wf_json_field by (auto simp: jat_object_Inr)
  have wfc: "wf_json (jget cs k)" for k using cs wf[of "''components''"] wf_json_field by (simp add: jat_object_Inr)
  have "no_floats (jget d ''components'')"
    by (rule no_floats_object[OF cs wf])
       (use validate_component_no_floats wfc vc in \<open>auto simp: list_all_iff\<close>)
  moreover have "no_floats (jget d ''workspace'')"
  proof -
    have o: "jat_object (jget d ''workspace'') ''workspace'' WORKSPACE_REQUIRED [''parent_snapshot_id''] = Inr w"
      using w by (auto simp: validate_workspace_def bind_r_eq_Inr)
    show ?thesis
      by (rule no_floats_object[OF o wf], unfold WORKSPACE_REQUIRED_def)
         (use w in \<open>auto simp: validate_workspace_def o check_simps jat_field_defs\<close>)
  qed
  moreover have "no_floats (jget d ''source'')"
  proof -
    obtain e where o: "jat_object (jget d ''source'') ''source'' [] [''git_commit'', ''dirty''] = Inr e"
      using s by (auto simp: validate_source_def bind_r_eq_Inr)
    show ?thesis
      by (rule no_floats_object[OF o wf]) (use s in \<open>auto simp: validate_source_def o check_simps jat_field_defs\<close>)
  qed
  moreover have "no_floats (jget d ''producer'')"
  proof -
    obtain e where o: "jat_object (jget d ''producer'') ''producer''
       [''josh_room_version'', ''restic_version'', ''source_platform'', ''restore_platforms''] [] = Inr e"
      using p by (auto simp: validate_producer_def bind_r_eq_Inr)
    show ?thesis
      by (rule no_floats_object[OF o wf])
         (use p in \<open>auto simp: validate_producer_def o check_simps jat_field_defs Let_def is_list_conv list_all_iff\<close>)
  qed
  ultimately show ?thesis
    by (intro no_floats_object[OF d assms(2)], unfold TOP_REQUIRED_def TOP_OPTIONAL_def)
       (use validate_head_fields[OF h] in simp)
qed


section \<open>Properties\<close>

lemma reject_duplicate_keys_wf: "wf_dict (acc @ d) \<Longrightarrow> reject_duplicate_keys acc d = Inr (JObj (acc @ d))"
  by (induction acc d rule: reject_duplicate_keys.induct) auto

lemma reject_duplicate_keys_dup: "\<not> wf_dict (acc @ d) \<Longrightarrow> wf_dict acc \<Longrightarrow> \<exists>e. reject_duplicate_keys acc d = Inl e"
  by (induction acc d rule: reject_duplicate_keys.induct) auto

lemma jat_from_dict_Inr:
  assumes "jat_from_dict lib body = Inr j" "wf_json body"
  shows "lj_canonical_json j = json_dumps False (float_repr lib) body"
    "lj_sha256 j = sha256_hex lib (utf8_encode (lj_canonical_json j))"
    "utf8_len (lj_canonical_json j) \<le> MAX_LOGICAL_JAT_BYTES"
    "\<exists>d. body = JObj d \<and> jat_validate lib body = Inr d" "no_floats body"
proof -
  obtain d where d: "jat_validate lib body = Inr d"
    using assms(1) by (auto simp: jat_from_dict_def bind_r_eq_Inr)
  note v = jat_validate_jsort(1)[OF d assms(2)]
  show "\<exists>d. body = JObj d \<and> jat_validate lib body = Inr d" using d v by blast
  show "no_floats body" using jat_validate_no_floats[OF d assms(2)] .
  show "lj_canonical_json j = json_dumps False (float_repr lib) body"
    "lj_sha256 j = sha256_hex lib (utf8_encode (lj_canonical_json j))"
    "utf8_len (lj_canonical_json j) \<le> MAX_LOGICAL_JAT_BYTES"
    using assms(1) d v by (auto simp: jat_from_dict_def Let_def utf8_len_def split: if_splits)
qed

lemma jat_reads_canonical:
  assumes "jat_from_dict lib body = Inr j" "wf_json body"
  shows "json_loads (jat_hooks lib) (lj_canonical_json j) = Inr (jsort body)"
    "jat_to_dict lib j = Inr (jsort body)"
proof -
  note f = jat_from_dict_Inr[OF assms]
  show "json_loads (jat_hooks lib) (lj_canonical_json j) = Inr (jsort body)" unfolding f(1)
    by (rule json_loads_dumps)
       (simp_all add: jat_hooks_def reject_duplicate_keys_wf[of "[]", simplified] assms(2) no_floats_ok f(5))
  show "jat_to_dict lib j = Inr (jsort body)" unfolding jat_to_dict_def f(1)
    by (rule json_loads_dumps)
       (simp_all add: default_hooks_def default_pairs_wf assms(2) no_floats_ok f(5))
qed

lemma jat_from_dict_sorted:
  assumes "jat_from_dict lib body = Inr j" "wf_json body"
  shows "jat_from_dict lib (jsort body) = Inr j"
proof -
  obtain d where d: "body = JObj d" "jat_validate lib body = Inr d" using jat_from_dict_Inr(4)[OF assms] by blast
  note s = jat_validate_jsort[OF d(2) assms(2)]
  have "json_dumps False (float_repr lib) (JObj (jsort_obj d)) = json_dumps False (float_repr lib) (JObj d)"
    unfolding json_dumps_def jsort_JObj[symmetric] jsort_idem ..
  then show ?thesis
    using assms(1) s d(2) by (simp add: jat_from_dict_def)
qed

subsection \<open>A concrete descriptor\<close>

definition demo_jat_lib :: jat_lib where
  "demo_jat_lib = \<lparr>fromisoformat_ok = (\<lambda>_. True), sha256_hex = (\<lambda>_. replicate 64 CHR ''a''),
     float_repr = (\<lambda>_. []), float_read = (\<lambda>_. 0)\<rparr>"

definition demo_digest :: json where
  "demo_digest = JStr (replicate 64 CHR ''b'')"

definition demo_descriptor :: jobj where
  "demo_descriptor = [
     (''format_version'', JInt 1), (''payload_kind'', JStr ''room-store-v1''), (''logical_jat_id'', JStr ''jat1''),
     (''dimension_id'', JStr ''dim''), (''encryption_domain_id'', JStr ''01234567-89ab-4def-8123-456789abcdef''),
     (''room_id'', JStr ''room''), (''created_at'', JStr ''2026-01-02T03:04:05Z''),
     (''capture_policy_sha256'', demo_digest),
     (''workspace'', JObj [
        (''engine'', JStr ''restic''), (''repository_id'', demo_digest), (''repository_format'', JInt 2),
        (''snapshot_id'', demo_digest), (''tree_id'', demo_digest), (''source_path'', JStr ''.''),
        (''logical_bytes'', JInt 10), (''data_added'', JInt 5), (''data_added_packed'', JInt 3)]),
     (''components'', JObj [
        (''rcc_environment'', JNull),
        (''homebrew_recovery'', JObj [
           (''kind'', JStr ''homebrew-recovery''), (''archive_sha256'', demo_digest), (''archive_size'', JInt 7),
           (''member_basename'', JStr ''homebrew-recovery.tar.zst''),
           (''snapshot'', JObj [(''repository_id'', demo_digest), (''repository_format'', JInt 2),
              (''snapshot_id'', demo_digest), (''tree_id'', demo_digest)])]),
        (''hauler_content'', JNull)]),
     (''source'', JObj [(''dirty'', JBool True)]),
     (''producer'', JObj [
        (''josh_room_version'', JStr ''1.0''), (''restic_version'', JStr ''0.17''),
        (''source_platform'', JStr ''linux-x64''), (''restore_platforms'', JList [JStr ''linux-x64''])])]"

definition demo_jat :: logical_jat where
  "demo_jat = \<lparr>lj_canonical_json = json_dumps False (\<lambda>_. []) (JObj demo_descriptor),
     lj_sha256 = replicate 64 CHR ''a''\<rparr>"

lemma demo_descriptor_valid: "jat_validate demo_jat_lib (JObj demo_descriptor) = Inr demo_descriptor"
  by code_simp

lemma demo_descriptor_wf: "wf_json (JObj demo_descriptor)"
  by code_simp

lemma demo_jat_ok: "jat_from_dict demo_jat_lib (JObj demo_descriptor) = Inr demo_jat"
proof -
  have "utf8_len (json_dumps False (\<lambda>_. []) (JObj demo_descriptor)) \<le> size_bound (JObj demo_descriptor)"
    by (rule utf8_len_dumps) code_simp
  also have "size_bound (JObj demo_descriptor) < 10000"
    by (simp add: demo_descriptor_def demo_digest_def int_str_def nat_str.simps)
  finally show ?thesis
    by (simp add: jat_from_dict_def demo_descriptor_valid utf8_len_def Let_def MAX_LOGICAL_JAT_BYTES_def demo_jat_def)
       (simp add: demo_jat_lib_def)
qed

text \<open>C31. A logical JAT descriptor survives storage: writing it as canonical JSON and reading that
  text back through the strict reader gives the same descriptor with the same digest, and the
  dictionary form it hands out is accepted again and denotes the same descriptor.\<close>

theorem logical_jat_roundtrip:
  assumes "wf_json body" and "jat_from_dict lib body = Inr j"
  shows "jat_from_json lib (jat_to_json j) = Inr j \<and>
    (\<exists>again. jat_to_dict lib j = Inr again \<and> jat_from_dict lib again = Inr j)"
proof -
  note f = jat_from_dict_Inr[OF assms(2,1)] and r = jat_reads_canonical[OF assms(2,1)]
  have "jat_from_json lib (jat_to_json j) = jat_from_dict lib (jsort body)"
    using f(3) r(1) by (simp add: jat_from_json_def jat_to_json_def)
  then show ?thesis using r(2) jat_from_dict_sorted[OF assms(2,1)] by simp
qed

theorem logical_jat_roundtrip_witness:
  "jat_from_json demo_jat_lib (jat_to_json demo_jat) = Inr demo_jat"
  by (rule conjunct1[OF logical_jat_roundtrip[OF demo_descriptor_wf demo_jat_ok]])

text \<open>C40. The canonical form identifies a descriptor: two accepted bodies have the same canonical
  text exactly when they are the same up to the order of their keys, so the digest of the text
  depends on nothing but the content.\<close>

theorem logical_jat_canonical:
  assumes "wf_json a" "wf_json b" and "jat_from_dict lib a = Inr j" "jat_from_dict lib b = Inr k"
  shows "jat_to_json j = jat_to_json k \<longleftrightarrow> jsort a = jsort b"
proof
  assume "jat_to_json j = jat_to_json k"
  then show "jsort a = jsort b"
    using jat_reads_canonical(1)[OF assms(3,1)] jat_reads_canonical(1)[OF assms(4,2)] by (simp add: jat_to_json_def)
next
  assume "jsort a = jsort b"
  then show "jat_to_json j = jat_to_json k"
    using jat_from_dict_Inr(1)[OF assms(3,1)] jat_from_dict_Inr(1)[OF assms(4,2)]
    by (simp add: jat_to_json_def json_dumps_def)
qed

definition demo_descriptor2 :: jobj where
  "demo_descriptor2 = AList.update ''room_id'' (JStr ''other'') demo_descriptor"

definition demo_jat2 :: logical_jat where
  "demo_jat2 = \<lparr>lj_canonical_json = json_dumps False (\<lambda>_. []) (JObj demo_descriptor2),
     lj_sha256 = replicate 64 CHR ''a''\<rparr>"

lemma demo_jat2_ok:
  "wf_json (JObj demo_descriptor2)" "jat_from_dict demo_jat_lib (JObj demo_descriptor2) = Inr demo_jat2"
proof -
  show "wf_json (JObj demo_descriptor2)" by code_simp
  have "jat_validate demo_jat_lib (JObj demo_descriptor2) = Inr demo_descriptor2" by code_simp
  moreover have "utf8_len (json_dumps False (\<lambda>_. []) (JObj demo_descriptor2)) \<le> size_bound (JObj demo_descriptor2)"
    by (rule utf8_len_dumps) code_simp
  moreover have "size_bound (JObj demo_descriptor2) < 10000"
    by (simp add: demo_descriptor_def demo_digest_def int_str_def nat_str.simps demo_descriptor2_def)
  ultimately show "jat_from_dict demo_jat_lib (JObj demo_descriptor2) = Inr demo_jat2"
    by (simp add: jat_from_dict_def Let_def MAX_LOGICAL_JAT_BYTES_def demo_jat2_def utf8_len_def del: size_bound.simps) (simp add: demo_jat_lib_def)
qed

theorem logical_jat_canonical_witness:
  "jat_to_json demo_jat \<noteq> jat_to_json demo_jat2"
proof -
  have "jsort (JObj demo_descriptor) \<noteq> jsort (JObj demo_descriptor2)" by code_simp
  then show ?thesis
    unfolding logical_jat_canonical[OF demo_descriptor_wf demo_jat2_ok(1) demo_jat_ok demo_jat2_ok(2)] .
qed

end
