(* ===== verification/Catalog.thy ===== *)
theory Catalog
  imports LocalStore LogicalJat EncryptionDomain Versioned
begin

text \<open>
  \<^verbatim>\<open>src/josh_room/catalog.py\<close>: the catalog of Rooms and snapshots. Its body is the decoded
  JSON object; the copies the code makes with \<^verbatim>\<open>json.loads(json.dumps(body))\<close> are the
  identity on such values. Dictionary keys are strings, as they are after decoding.
\<close>

section \<open>Validation\<close>

definition LOGICAL_REQUIRED :: "string list" where
  "LOGICAL_REQUIRED = [''snapshot_id'', ''payload_kind'', ''dimension_id'', ''encryption_domain_id'', ''room_id'',
     ''object_key'', ''ciphertext_sha256'', ''ciphertext_size'', ''created_at'', ''repository_id'',
     ''repository_format'', ''workspace_snapshot_id'', ''tree_id'', ''capture_policy_sha256'',
     ''workspace_signature'', ''signature_algorithm'', ''logical_bytes'', ''data_added'',
     ''data_added_packed'', ''component_refs'']"

definition validate_logical_identifier :: "string \<Rightarrow> json \<Rightarrow> unit result" where
  "validate_logical_identifier label v = require_str is_ident128 v (''catalog logical '' @ label @ '' is invalid'')"

definition validate_digest :: "string \<Rightarrow> json \<Rightarrow> unit result" where
  "validate_digest label v = require_str is_sha256 v (''catalog '' @ label @ '' is invalid'')"

definition validate_identifier :: "string \<Rightarrow> json \<Rightarrow> unit result" where
  "validate_identifier label v = require_str is_ident v (''catalog '' @ label @ '' is invalid'')"

text \<open>
  \<^verbatim>\<open>if not OBJECT_KEY.fullmatch(snapshot.get("object_key", "")): raise\<close>; matching a value
  that is not a string is a TypeError.
\<close>

definition require_object_key :: "jobj \<Rightarrow> unit result" where
  "require_object_key d =
     (case map_of d ''object_key'' of
        Some (JStr k) \<Rightarrow> raise_if (OBJECT_KEY k = None) (ValueError ''catalog contains an invalid object key'')
      | Some _ \<Rightarrow> Inl (TypeError ''expected string or bytes-like object'')
      | None \<Rightarrow> Inl (ValueError ''catalog contains an invalid object key''))"

definition require_key_digest :: "jobj \<Rightarrow> unit result" where
  "require_key_digest d =
     raise_if (jget d ''ciphertext_sha256'' \<noteq> JStr (rsplit_last CHR ''/'' (str_of (jget d ''object_key''))))
       (ValueError ''catalog object digest mismatch'')"

definition validate_component_ref :: "json \<Rightarrow> unit result" where
  "validate_component_ref v =
     (case v of
        JNull \<Rightarrow> Inr ()
      | JObj d \<Rightarrow> checks [
          raise_if (set (keys d) \<noteq> {''snapshot_id'', ''tree_id''}) (ValueError ''catalog logical component ref is invalid''),
          validate_digest ''component snapshot id'' (jget d ''snapshot_id''),
          validate_digest ''component tree id'' (jget d ''tree_id'')]
      | _ \<Rightarrow> Inl (ValueError ''catalog logical component ref is invalid''))"

definition require_int_range :: "json \<Rightarrow> int \<Rightarrow> int \<Rightarrow> string \<Rightarrow> unit result" where
  "require_int_range v lo hi message =
     raise_if (\<not> type_is_int v \<or> \<not> (lo \<le> int_of v \<and> int_of v \<le> hi)) (ValueError message)"

definition validate_logical_snapshot :: "jat_lib \<Rightarrow> jobj \<Rightarrow> unit result" where
  "validate_logical_snapshot lib d = checks [
     raise_if (\<not> set (keys d) \<subseteq> set (LOGICAL_REQUIRED @ [''origin_room_id'']) \<or> \<not> set LOGICAL_REQUIRED \<subseteq> set (keys d))
       (ValueError ''catalog logical snapshot fields are invalid''),
     validate_logical_identifier ''snapshot_id'' (jget d ''snapshot_id''),
     validate_logical_identifier ''dimension_id'' (jget d ''dimension_id''),
     validate_logical_identifier ''room_id'' (jget d ''room_id''),
     raise_if (jget d ''payload_kind'' \<noteq> JStr ''room-store-v1'') (ValueError ''catalog logical payload kind is invalid''),
     validate_encryption_domain_id (jget d ''encryption_domain_id''),
     (if jget d ''origin_room_id'' \<noteq> JNull then checks [
        validate_logical_identifier ''origin room'' (jget d ''origin_room_id''),
        raise_if (jget d ''origin_room_id'' = jget d ''room_id'')
          (ValueError ''catalog logical origin room must differ from the copied Room'')]
      else Inr ()),
     require_object_key d,
     require_key_digest d,
     raise_if (\<not> type_is_int (jget d ''ciphertext_size'') \<or> int_of (jget d ''ciphertext_size'') < 1)
       (ValueError ''catalog logical ciphertext size is invalid''),
     require_str RFC3339 (jget d ''created_at'') ''catalog logical created_at is invalid'',
     raise_if (\<not> fromisoformat_ok lib (str_of (jget d ''created_at''))) (ValueError ''catalog logical created_at is invalid''),
     validate_digest ''repository_id'' (jget d ''repository_id''),
     validate_digest ''workspace_snapshot_id'' (jget d ''workspace_snapshot_id''),
     validate_digest ''tree_id'' (jget d ''tree_id''),
     validate_digest ''capture_policy_sha256'' (jget d ''capture_policy_sha256''),
     validate_digest ''workspace_signature'' (jget d ''workspace_signature''),
     raise_if (jget d ''repository_format'' \<noteq> JInt 2) (ValueError ''catalog logical repository format is invalid''),
     raise_if (jget d ''signature_algorithm'' \<noteq> JStr ''josh-room-stat-v1'')
       (ValueError ''catalog logical signature algorithm is invalid''),
     require_int_range (jget d ''logical_bytes'') 0 MAX_INT64 ''catalog logical logical_bytes is invalid'',
     require_int_range (jget d ''data_added'') 0 MAX_INT64 ''catalog logical data_added is invalid'',
     require_int_range (jget d ''data_added_packed'') 0 MAX_INT64 ''catalog logical data_added_packed is invalid'',
     (case jget d ''component_refs'' of
        JObj refs \<Rightarrow>
          if set (keys refs) \<noteq> set COMPONENTS then Inl (ValueError ''catalog logical component refs are invalid'')
          else checks (map validate_component_ref (vals refs))
      | _ \<Rightarrow> Inl (ValueError ''catalog logical component refs are invalid''))]"

definition validate_v2_snapshot :: "jat_lib \<Rightarrow> jobj \<Rightarrow> unit result" where
  "validate_v2_snapshot lib d = checks [
     require_str (\<lambda>s. s \<noteq> []) (jget d ''snapshot_id'') ''catalog snapshot snapshot_id is invalid'',
     require_str (\<lambda>s. s \<noteq> []) (jget d ''created_at'') ''catalog snapshot created_at is invalid'',
     validate_identifier ''snapshot'' (jget d ''snapshot_id''),
     raise_if (\<not> fromisoformat_ok lib (str_of (jget d ''created_at''))) (ValueError ''catalog snapshot created_at is invalid''),
     require_str is_sha256 (jget d ''workspace_fingerprint'') ''catalog snapshot workspace fingerprint is invalid'',
     (if jget d ''origin_project_id'' \<noteq> JNull
      then validate_identifier ''origin project'' (jget d ''origin_project_id'') else Inr ()),
     raise_if (\<not> type_is_int (jget d ''ciphertext_size'') \<or> int_of (jget d ''ciphertext_size'') < 1)
       (ValueError ''catalog snapshot ciphertext size is invalid'')]"


section \<open>The catalog and its constructor\<close>

record catalog =
  cat_body :: jobj
  cat_domain :: json

text \<open>One snapshot of a Room, checked for the catalog's format version.\<close>

definition check_snapshot :: "jat_lib \<Rightarrow> jobj \<Rightarrow> int \<Rightarrow> string \<Rightarrow> string \<Rightarrow> json \<Rightarrow> unit result" where
  "check_snapshot lib body version project_id snapshot_id v = checks [
     (if version \<in> {2, 3} then validate_identifier ''snapshot'' (JStr snapshot_id) else Inr ()),
     (case v of
        JObj d \<Rightarrow> checks [
          require_object_key d,
          require_key_digest d,
          (if version = 2 then validate_v2_snapshot lib d
           else if version = 3 then
             (if has_key d ''payload_kind'' then checks [
                validate_logical_snapshot lib d,
                raise_if (jget d ''snapshot_id'' \<noteq> JStr snapshot_id) (ValueError ''catalog logical snapshot id mismatch''),
                raise_if (jget d ''dimension_id'' \<noteq> jget body ''dimension_id'' \<or>
                          jget d ''encryption_domain_id'' \<noteq> jget body ''encryption_domain_id'')
                  (ValueError ''catalog logical Dimension binding mismatch''),
                raise_if (jget d ''room_id'' \<noteq> JStr project_id) (ValueError ''catalog logical Room binding mismatch'')]
              else validate_v2_snapshot lib d)
           else Inr ())]
      | _ \<Rightarrow> Inl (ValueError ''catalog contains an invalid object key''))]"

definition check_project :: "jat_lib \<Rightarrow> jobj \<Rightarrow> int \<Rightarrow> string \<Rightarrow> json \<Rightarrow> unit result" where
  "check_project lib body version project_id v = checks [
     (if version \<in> {2, 3} then validate_identifier ''project'' (JStr project_id) else Inr ()),
     raise_if (\<not> is_obj v \<or> \<not> is_obj (jget (obj_of v) ''snapshots'')) (TypeError ''catalog room is invalid''),
     (let p = obj_of v; snapshots = obj_of (jget p ''snapshots''); latest = jget p ''latest'' in
      if version = 3 then checks [
        raise_if (set (keys p) \<noteq> {''display_name'', ''latest'', ''snapshots''} \<or>
                  \<not> is_str (jget p ''display_name'') \<or> jget p ''display_name'' = JStr [])
          (ValueError ''catalog v3 room fields are invalid''),
        raise_if (snapshots \<noteq> [] \<and> (\<not> is_str latest \<or> \<not> has_key snapshots (str_of latest)))
          (ValueError ''catalog v3 latest snapshot is invalid''),
        raise_if (snapshots = [] \<and> latest \<noteq> JNull) (ValueError ''catalog v3 latest snapshot is invalid'')]
      else Inr ()),
     checks (map (\<lambda>(snapshot_id, snapshot). check_snapshot lib body version project_id snapshot_id snapshot)
       (obj_of (jget (obj_of v) ''snapshots'')))]"

text \<open>The second half of \<^verbatim>\<open>__post_init__\<close>: the body after the domain was settled.\<close>

definition check_body :: "jat_lib \<Rightarrow> jobj \<Rightarrow> unit result" where
  "check_body lib body =
     (let version = jget body ''format_version''; revision = jget body ''revision''; n = int_of version in checks [
      raise_if (\<not> type_is_int version \<or> n \<notin> {1, 2, 3} \<or> \<not> type_is_int revision \<or> int_of revision < 0)
        (ValueError ''unsupported catalog format''),
      raise_if (\<not> is_obj (jget body ''projects'')) (TypeError ''catalog projects are invalid''),
      (if n \<in> {2, 3} then validate_identifier ''dimension'' (jget body ''dimension_id'') else Inr ()),
      (if n = 3 then checks [
         raise_if (set (keys body) \<noteq>
             {''format_version'', ''dimension_id'', ''encryption_domain_id'', ''revision'', ''projects''})
           (ValueError ''catalog v3 fields are invalid''),
         validate_encryption_domain_id (jget body ''encryption_domain_id'')]
       else Inr ()),
      checks (map (\<lambda>(project_id, project). check_project lib body n project_id project)
        (obj_of (jget body ''projects'')))])"

text \<open>\<^verbatim>\<open>Catalog(body, encryption_domain_id)\<close>; an absent id is the null value.\<close>

definition catalog_make :: "jat_lib \<Rightarrow> jobj \<Rightarrow> json \<Rightarrow> catalog result" where
  "catalog_make lib body domain =
     (let body_domain = jget body ''encryption_domain_id'' in
      bind_r (checks [
        (if body_domain \<noteq> JNull then validate_encryption_domain_id body_domain else Inr ()),
        (if domain \<noteq> JNull then checks [
           validate_encryption_domain_id domain,
           raise_if (body_domain \<noteq> JNull \<and> body_domain \<noteq> domain) (ValueError ''catalog encryption domain mismatch'')]
         else Inr ())]) (\<lambda>_.
      (let body' = (if domain \<noteq> JNull \<and> body_domain = JNull
                    then AList.update ''encryption_domain_id'' domain body else body);
           domain' = (if domain \<noteq> JNull then domain else body_domain)
       in bind_r (check_body lib body') (\<lambda>_. Inr \<lparr>cat_body = body', cat_domain = domain'\<rparr>))))"


section \<open>Operations\<close>

definition cat_empty :: "jat_lib \<Rightarrow> json \<Rightarrow> json \<Rightarrow> catalog result" where
  "cat_empty lib dimension_id domain =
     (let v1 = [(''format_version'', JInt 1), (''revision'', JInt 0), (''projects'', JObj [])];
          v2 = [(''format_version'', JInt 2), (''dimension_id'', dimension_id), (''revision'', JInt 0), (''projects'', JObj [])]
      in if domain \<noteq> JNull then
           bind_r (validate_encryption_domain_id domain) (\<lambda>_.
             if dimension_id = JNull then catalog_make lib v1 domain
             else bind_r (validate_identifier ''dimension'' dimension_id) (\<lambda>_. catalog_make lib v2 domain))
         else if dimension_id = JNull then catalog_make lib v1 JNull
         else bind_r (validate_identifier ''dimension'' dimension_id) (\<lambda>_. catalog_make lib v2 JNull))"

text \<open>The defaults that the migration of a version 1 body adds to every snapshot.\<close>

definition migrate_snapshot :: "string \<times> json \<Rightarrow> (string \<times> json) result" where
  "migrate_snapshot x =
     (case x of (sid, JObj d) \<Rightarrow>
        Inr (sid, JObj (setdefault ''workspace_fingerprint'' (JStr (replicate 64 CHR ''0''))
               (setdefault ''created_at'' (JStr ''1970-01-01T00:00:00+00:00'') d)))
      | _ \<Rightarrow> Inl (AttributeError ''setdefault''))"

definition migrate_project :: "string \<times> json \<Rightarrow> (string \<times> json) result" where
  "migrate_project x =
     (case x of (pid, JObj p) \<Rightarrow>
        (case map_of p ''snapshots'' of
           None \<Rightarrow> Inr (pid, JObj p)
         | Some (JObj snapshots) \<Rightarrow>
             bind_r (map_r migrate_snapshot snapshots) (\<lambda>s'. Inr (pid, JObj (AList.update ''snapshots'' (JObj s') p)))
         | _ \<Rightarrow> Inl (AttributeError ''values''))
      | _ \<Rightarrow> Inl (AttributeError ''get''))"

definition migrate_body :: "json \<Rightarrow> jobj \<Rightarrow> jobj result" where
  "migrate_body dimension_id body =
     bind_r (validate_identifier ''dimension'' dimension_id) (\<lambda>_.
     (let body' = AList.update ''dimension_id'' dimension_id (AList.update ''format_version'' (JInt 2) body)
      in case map_of body' ''projects'' of
           None \<Rightarrow> Inr body'
         | Some (JObj projects) \<Rightarrow>
             bind_r (map_r migrate_project projects) (\<lambda>ps. Inr (AList.update ''projects'' (JObj ps) body'))
         | _ \<Rightarrow> Inl (AttributeError ''values'')))"

definition cat_from_body :: "jat_lib \<Rightarrow> jobj \<Rightarrow> json \<Rightarrow> json \<Rightarrow> catalog result" where
  "cat_from_body lib body dimension_id domain =
     bind_r (raise_if (py_eq (jget body ''format_version'') (JInt 3) \<and> \<not> has_key body ''encryption_domain_id'')
       (ValueError ''catalog v3 encryption domain is required'')) (\<lambda>_.
     bind_r (if domain \<noteq> JNull then checks [
               validate_encryption_domain_id domain,
               raise_if (jget body ''encryption_domain_id'' \<noteq> JNull \<and> jget body ''encryption_domain_id'' \<noteq> domain)
                 (ValueError ''catalog encryption domain mismatch'')]
             else Inr ()) (\<lambda>_.
     (let value = (if domain \<noteq> JNull then AList.update ''encryption_domain_id'' domain body else body) in
     bind_r (if jget value ''format_version'' = JInt 1 \<and> dimension_id \<noteq> JNull
             then migrate_body dimension_id value else Inr value) (\<lambda>value'.
     bind_r (catalog_make lib value' JNull) (\<lambda>c.
       if dimension_id \<noteq> JNull \<and> jget (cat_body c) ''dimension_id'' \<noteq> dimension_id
       then Inl (ValueError ''catalog Dimension mismatch'') else Inr c)))))"

abbreviation cat_version :: "catalog \<Rightarrow> int" where
  "cat_version c \<equiv> int_of (jget (cat_body c) ''format_version'')"

definition cat_revision :: "catalog \<Rightarrow> int" where
  "cat_revision c = int_of (jget (cat_body c) ''revision'')"

definition projects_of :: "jobj \<Rightarrow> jobj" where
  "projects_of body = obj_of (jget body ''projects'')"

definition snapshots_of :: "json \<Rightarrow> jobj" where
  "snapshots_of project = obj_of (jget (obj_of project) ''snapshots'')"

definition bump :: "jobj \<Rightarrow> jobj" where
  "bump body = AList.update ''revision'' (JInt (int_of (jget body ''revision'') + 1)) body"

text \<open>
  The common tail of the two add operations: the Room is created when it is new, its name,
  snapshot and latest pointer are set, and the revision is increased.
\<close>

definition put_snapshot :: "jobj \<Rightarrow> string \<Rightarrow> string \<Rightarrow> string \<Rightarrow> jobj \<Rightarrow> jobj" where
  "put_snapshot body project_id display_name sid snapshot =
     (let fresh = JObj [(''display_name'', JStr display_name), (''latest'', JNull), (''snapshots'', JObj [])];
          projects = setdefault project_id fresh (projects_of body);
          p = obj_of (jget projects project_id);
          p1 = AList.update ''display_name'' (JStr display_name) p;
          p2 = AList.update ''snapshots'' (JObj (AList.update sid (JObj snapshot) (obj_of (jget p1 ''snapshots'')))) p1;
          p3 = AList.update ''latest'' (JStr sid) p2
      in bump (AList.update ''projects'' (JObj (AList.update project_id (JObj p3) projects)) body))"

text \<open>
  A version 1 catalog does not check the snapshot id; an id that is not a string cannot be a
  key of the model's dictionaries and is refused.
\<close>

definition add_snapshot :: "jat_lib \<Rightarrow> catalog \<Rightarrow> string \<Rightarrow> string \<Rightarrow> jobj \<Rightarrow> catalog result" where
  "add_snapshot lib c project_id display_name snapshot =
     bind_r (checks [
        require_object_key snapshot,
        require_key_digest snapshot,
        (if cat_version c \<in> {2, 3}
         then checks [validate_identifier ''project'' (JStr project_id), validate_v2_snapshot lib snapshot]
         else Inr ())]) (\<lambda>_.
     (let snapshot' = (if cat_version c \<in> {2, 3} then setdefault ''origin_project_id'' (JStr project_id) snapshot
                       else snapshot)
      in case map_of snapshot' ''snapshot_id'' of
           None \<Rightarrow> Inl (KeyError ''snapshot_id'')
         | Some (JStr sid) \<Rightarrow> catalog_make lib (put_snapshot (cat_body c) project_id display_name sid snapshot') JNull
         | Some _ \<Rightarrow> Inl (TypeError ''unhashable type'')))"

text \<open>\<^verbatim>\<open>_logical_snapshot_record\<close>; the components keep the order of the descriptor.\<close>

definition component_ref :: "json \<Rightarrow> json" where
  "component_ref v =
     (if v = JNull then JNull
      else (let s = obj_of (jget (obj_of v) ''snapshot'')
            in JObj [(''snapshot_id'', jget s ''snapshot_id''), (''tree_id'', jget s ''tree_id'')]))"

definition logical_record :: "jobj \<Rightarrow> object_ref \<Rightarrow> json \<Rightarrow> jobj" where
  "logical_record body ref signature =
     (let w = obj_of (jget body ''workspace'') in
      [(''snapshot_id'', jget body ''logical_jat_id''), (''payload_kind'', jget body ''payload_kind''),
       (''dimension_id'', jget body ''dimension_id''), (''encryption_domain_id'', jget body ''encryption_domain_id''),
       (''room_id'', jget body ''room_id''), (''object_key'', or_key ref), (''ciphertext_sha256'', or_sha256 ref),
       (''ciphertext_size'', or_size ref), (''created_at'', jget body ''created_at''),
       (''repository_id'', jget w ''repository_id''), (''repository_format'', jget w ''repository_format''),
       (''workspace_snapshot_id'', jget w ''snapshot_id''), (''tree_id'', jget w ''tree_id''),
       (''capture_policy_sha256'', jget body ''capture_policy_sha256''), (''workspace_signature'', signature),
       (''signature_algorithm'', JStr ''josh-room-stat-v1''), (''logical_bytes'', jget w ''logical_bytes''),
       (''data_added'', jget w ''data_added''), (''data_added_packed'', jget w ''data_added_packed''),
       (''component_refs'', JObj (map (\<lambda>(name, v). (name, component_ref v)) (obj_of (jget body ''components''))))] @
      (if has_key body ''origin_room_id'' then [(''origin_room_id'', jget body ''origin_room_id'')] else []))"

definition logical_snapshot_record :: "jat_lib \<Rightarrow> string \<Rightarrow> logical_jat \<Rightarrow> object_ref \<Rightarrow> json \<Rightarrow> jobj result" where
  "logical_snapshot_record lib project_id descriptor ref signature =
     bind_r (jat_to_dict lib descriptor) (\<lambda>b.
     (let body = obj_of b in
      bind_r (checks [
        validate_logical_identifier ''project'' (JStr project_id),
        raise_if (jget body ''room_id'' \<noteq> JStr project_id)
          (ValueError ''logical descriptor Room does not match the catalog project''),
        raise_if (\<not> is_str (or_key ref) \<or> OBJECT_KEY (str_of (or_key ref)) = None \<or>
                  or_sha256 ref \<noteq> JStr (rsplit_last CHR ''/'' (str_of (or_key ref))) \<or>
                  \<not> type_is_int (or_size ref) \<or> int_of (or_size ref) < 1)
          (ValueError ''logical descriptor object reference is invalid''),
        validate_digest ''workspace signature'' signature]) (\<lambda>_.
      bind_r (validate_logical_snapshot lib (logical_record body ref signature)) (\<lambda>_.
      Inr (logical_record body ref signature)))))"

definition corroborate_logical_snapshot :: "jat_lib \<Rightarrow> string \<Rightarrow> jobj \<Rightarrow> logical_jat \<Rightarrow> logical_jat result" where
  "corroborate_logical_snapshot lib project_id snapshot descriptor =
     bind_r (logical_snapshot_record lib project_id descriptor
               \<lparr>or_key = jget snapshot ''object_key'', or_sha256 = jget snapshot ''ciphertext_sha256'',
                or_size = jget snapshot ''ciphertext_size''\<rparr> (jget snapshot ''workspace_signature'')) (\<lambda>expected.
       if \<not> py_eq (JObj snapshot) (JObj expected)
       then Inl (ValueError ''catalog logical snapshot does not match its descriptor'') else Inr descriptor)"

definition add_logical_snapshot ::
  "jat_lib \<Rightarrow> catalog \<Rightarrow> string \<Rightarrow> string \<Rightarrow> logical_jat \<Rightarrow> object_ref \<Rightarrow> json \<Rightarrow> catalog result" where
  "add_logical_snapshot lib c project_id display_name descriptor ref signature =
     bind_r (checks [
        raise_if (cat_version c \<notin> {2, 3}) (ValueError ''logical snapshots require a Dimension catalog''),
        raise_if (jget (cat_body c) ''dimension_id'' = JNull \<or> cat_domain c = JNull)
          (ValueError ''logical snapshots require an encryption domain binding'')]) (\<lambda>_.
     bind_r (logical_snapshot_record lib project_id descriptor ref signature) (\<lambda>r.
     bind_r (checks [
        raise_if (jget r ''dimension_id'' \<noteq> jget (cat_body c) ''dimension_id'')
          (ValueError ''logical descriptor Dimension does not match the catalog''),
        raise_if (jget r ''encryption_domain_id'' \<noteq> cat_domain c)
          (ValueError ''logical descriptor encryption domain does not match the catalog'')]) (\<lambda>_.
     (let body = AList.update ''encryption_domain_id'' (cat_domain c) (AList.update ''format_version'' (JInt 3) (cat_body c))
      in catalog_make lib (put_snapshot body project_id display_name (str_of (jget r ''snapshot_id'')) r) JNull))))"

text \<open>\<^verbatim>\<open>d[key]\<close> for a value used as a key: a string that is absent, or another hashable value.\<close>

definition getitem :: "jobj \<Rightarrow> json \<Rightarrow> json result" where
  "getitem d k =
     (case k of
        JStr s \<Rightarrow> (case map_of d s of None \<Rightarrow> Inl (KeyError s) | Some v \<Rightarrow> Inr v)
      | JList _ \<Rightarrow> Inl (TypeError ''unhashable type'')
      | JObj _ \<Rightarrow> Inl (TypeError ''unhashable type'')
      | _ \<Rightarrow> Inl (KeyError []))"

definition cat_latest :: "catalog \<Rightarrow> string \<Rightarrow> json result" where
  "cat_latest c project_id =
     bind_r (getitem (projects_of (cat_body c)) (JStr project_id)) (\<lambda>p.
     bind_r (getitem (obj_of p) (JStr ''latest'')) (\<lambda>l. getitem (snapshots_of p) l))"

definition resolve_snapshot :: "catalog \<Rightarrow> string \<Rightarrow> string \<Rightarrow> json result" where
  "resolve_snapshot c project_id snapshot_id =
     bind_r (getitem (projects_of (cat_body c)) (JStr project_id)) (\<lambda>p.
     bind_r (if snapshot_id = ''latest'' then getitem (obj_of p) (JStr ''latest'') else Inr (JStr snapshot_id)) (\<lambda>k.
     (case getitem (snapshots_of p) k of
        Inl (KeyError _) \<Rightarrow> Inl (ValueError ''snapshot is not present in the encrypted catalog'')
      | r \<Rightarrow> r)))"

text \<open>The object keys of one Room and of all Rooms.\<close>

definition room_keys :: "json \<Rightarrow> string list" where
  "room_keys project = map (\<lambda>s. str_of (jget (obj_of s) ''object_key'')) (vals (snapshots_of project))"

definition referenced_keys :: "jobj \<Rightarrow> string list" where
  "referenced_keys body = concat (map room_keys (vals (projects_of body)))"

definition set_projects :: "jobj \<Rightarrow> jobj \<Rightarrow> jobj" where
  "set_projects projects body = AList.update ''projects'' (JObj projects) body"

definition remove_project :: "jat_lib \<Rightarrow> catalog \<Rightarrow> string \<Rightarrow> (catalog \<times> string list \<times> nat) result" where
  "remove_project lib c project_id =
     (case map_of (projects_of (cat_body c)) project_id of
        None \<Rightarrow> Inl (ValueError ''room is not present in the encrypted catalog'')
      | Some removed \<Rightarrow>
          (let body = set_projects (AList.delete project_id (projects_of (cat_body c))) (cat_body c);
               referenced = referenced_keys body;
               removable = sort (remdups (filter (\<lambda>k. k \<notin> set referenced) (room_keys removed)))
           in bind_r (catalog_make lib (bump body) JNull) (\<lambda>c'. Inr (c', removable, length (snapshots_of removed)))))"

definition removable_key :: "jobj \<Rightarrow> json \<Rightarrow> string list" where
  "removable_key body removed =
     (let k = str_of (jget (obj_of removed) ''object_key'') in if k \<in> set (referenced_keys body) then [] else [k])"

definition remove_snapshot :: "jat_lib \<Rightarrow> catalog \<Rightarrow> string \<Rightarrow> string \<Rightarrow> (catalog \<times> string list \<times> bool) result" where
  "remove_snapshot lib c project_id snapshot_id =
     (case map_of (projects_of (cat_body c)) project_id of
        None \<Rightarrow> Inl (ValueError ''room is not present in the encrypted catalog'')
      | Some project \<Rightarrow>
          (case map_of (snapshots_of project) snapshot_id of
             None \<Rightarrow> Inl (ValueError ''snapshot is not present in the encrypted catalog'')
           | Some removed \<Rightarrow>
               if length (snapshots_of project) = 1 then
                 (let body = set_projects (AList.delete project_id (projects_of (cat_body c))) (cat_body c)
                  in bind_r (catalog_make lib (bump body) JNull) (\<lambda>c'. Inr (c', removable_key body removed, True)))
               else
                 (let remaining = AList.delete snapshot_id (snapshots_of project);
                      changed = AList.update ''snapshots'' (JObj remaining) (obj_of project)
                  in bind_r (getitem (obj_of project) (JStr ''latest'')) (\<lambda>latest.
                     (let changed' = (if latest = JStr snapshot_id
                                      then AList.update ''latest'' (JStr (fst (last remaining))) changed else changed);
                          body = set_projects (AList.update project_id (JObj changed') (projects_of (cat_body c))) (cat_body c)
                      in bind_r (catalog_make lib (bump body) JNull) (\<lambda>c'. Inr (c', removable_key body removed, False)))))))"

definition update_if_revision :: "jat_lib \<Rightarrow> catalog \<Rightarrow> json \<Rightarrow> jobj \<Rightarrow> catalog result" where
  "update_if_revision lib c expected body =
     (if \<not> type_is_int expected \<or> int_of expected < 0 \<or> cat_revision c \<noteq> int_of expected then Inl CatalogConflict
      else cat_from_body lib body (jget (cat_body c) ''dimension_id'') (cat_domain c))"


section \<open>The catalog file\<close>

text \<open>
  \<^verbatim>\<open>CatalogFile\<close>: the encrypted file is absent or holds a ciphertext. Encryption of the
  printed body and decryption with parsing are parameters; the lock makes one update a single
  step, and \<^verbatim>\<open>os.replace\<close> makes it all or nothing.
\<close>

record 'f catalog_io =
  seal :: "jobj \<Rightarrow> string list \<Rightarrow> 'f result"
  unseal :: "'f \<Rightarrow> jobj result"
  has_identity :: bool
  io_dimension :: json

definition file_read :: "jat_lib \<Rightarrow> 'f catalog_io \<Rightarrow> 'f option \<Rightarrow> catalog result" where
  "file_read lib io f =
     (case f of
        None \<Rightarrow> cat_empty lib (io_dimension io) JNull
      | Some x \<Rightarrow>
          if \<not> has_identity io then Inl (ValueError ''catalog identity is required'')
          else bind_r (unseal io x) (\<lambda>body. cat_from_body lib body (io_dimension io) JNull))"

definition file_publish :: "'f catalog_io \<Rightarrow> catalog \<Rightarrow> string list \<Rightarrow> 'f option result" where
  "file_publish io c recipients = bind_r (seal io (cat_body c) recipients) (\<lambda>x. Inr (Some x))"

definition file_update_if_revision ::
  "jat_lib \<Rightarrow> 'f catalog_io \<Rightarrow> json \<Rightarrow> catalog \<Rightarrow> string list \<Rightarrow> 'f option \<Rightarrow> 'f option result" where
  "file_update_if_revision lib io expected c recipients f =
     (if \<not> type_is_int expected \<or> int_of expected < 0 then Inl CatalogConflict
      else bind_r (file_read lib io f) (\<lambda>current.
        if cat_revision current \<noteq> int_of expected then Inl CatalogConflict
        else file_publish io c recipients))"

end
