(* ===== verification/CatalogLaws.thy ===== *)
theory CatalogLaws
  imports Catalog UuidLaws
begin

text \<open>
  Laws of the catalog: the constructor's invariant, what each operation does to the snapshots
  of every Room, which object keys a removal releases, and that commits through the catalog
  file are never lost.
\<close>

section \<open>Dictionaries of JSON values\<close>

lemma jget_update [simp]: "jget (AList.update k v d) k' = (if k' = k then v else jget d k')"
  by (simp add: jget_def map_of_update)

lemma jget_Some: "map_of d k = Some v \<Longrightarrow> jget d k = v"
  by (simp add: jget_def)

lemma wf_json_update: "wf_json (JObj d) \<Longrightarrow> wf_json v \<Longrightarrow> wf_json (JObj (AList.update k v d))"
  by (auto simp: list_all_iff set_update_dict wf_dict_update)

lemma wf_json_delete: "wf_json (JObj d) \<Longrightarrow> wf_json (JObj (AList.delete k d))"
  by (auto simp: list_all_iff set_delete wf_dict_delete)

lemma wf_json_setdefault: "wf_json (JObj d) \<Longrightarrow> wf_json v \<Longrightarrow> wf_json (JObj (setdefault k v d))"
  by (auto simp: setdefault_def)

lemma wf_json_map_of: "wf_json (JObj d) \<Longrightarrow> map_of d k = Some v \<Longrightarrow> wf_json v"
  using wf_json_field[of d k] by (simp add: jget_def)

lemma wf_json_obj_of: "wf_json v \<Longrightarrow> wf_json (JObj (obj_of v))"
  by (cases v) auto

lemma wf_projects_of: "wf_json (JObj body) \<Longrightarrow> wf_json (JObj (projects_of body))"
  unfolding projects_of_def by (intro wf_json_obj_of wf_json_field)

lemma wf_snapshots_of: "wf_json p \<Longrightarrow> wf_json (JObj (snapshots_of p))"
  unfolding snapshots_of_def by (intro wf_json_obj_of wf_json_field)

text \<open>Sorting is stable, so it keeps the first binding of every key.\<close>

lemma map_of_filter_key: "map_of xs k = (case filter (\<lambda>x. fst x = k) xs of [] \<Rightarrow> None | x # _ \<Rightarrow> Some (snd x))"
  by (induction xs) auto

lemma map_of_sort_key: "map_of (sort_key fst xs) k = map_of xs k"
  by (simp add: map_of_filter_key sort_key_stable)

lemma revision_jsort: "int_of (jget (jsort_obj d) ''revision'') = int_of (jget d ''revision'')"
proof -
  have i: "int_of (jsort v) = int_of v" for v by (cases v) auto
  have "map_of (map (\<lambda>(k, v). (k, jsort v)) d) k = map_option jsort (map_of d k)" for k
    by (induction d) auto
  then show ?thesis by (simp add: jsort_obj_def jget_def map_of_sort_key i split: option.splits)
qed

section \<open>The invariant\<close>

lemma catalog_make_None:
  "catalog_make lib body JNull = Inr c \<longleftrightarrow>
     (jget body ''encryption_domain_id'' \<noteq> JNull \<longrightarrow> validate_encryption_domain_id (jget body ''encryption_domain_id'') = Inr ()) \<and>
     check_body lib body = Inr () \<and>
     c = \<lparr>cat_body = body, cat_domain = jget body ''encryption_domain_id''\<rparr>"
  by (auto simp: catalog_make_def Let_def check_simps)

text \<open>A catalog the constructor has produced from decoded JSON.\<close>

definition cat_inv :: "jat_lib \<Rightarrow> catalog \<Rightarrow> bool" where
  "cat_inv lib c \<longleftrightarrow> catalog_make lib (cat_body c) JNull = Inr c \<and> wf_json (JObj (cat_body c))"

lemma cat_invI: "catalog_make lib body JNull = Inr c \<Longrightarrow> wf_json (JObj body) \<Longrightarrow> cat_inv lib c \<and> cat_body c = body"
  by (auto simp: cat_inv_def catalog_make_None)

lemma validate_domain_wf: "validate_encryption_domain_id v = Inr () \<Longrightarrow> wf_json v"
  by (cases v) (auto simp: validate_encryption_domain_id_def)

lemma catalog_make_inv:
  assumes "catalog_make lib body domain = Inr c" "wf_json (JObj body)"
  shows "cat_inv lib c"
proof (cases "domain \<noteq> JNull \<and> jget body ''encryption_domain_id'' = JNull")
  case True
  let ?b = "AList.update ''encryption_domain_id'' domain body"
  have d: "validate_encryption_domain_id domain = Inr ()" and c: "c = \<lparr>cat_body = ?b, cat_domain = domain\<rparr>"
    "check_body lib ?b = Inr ()"
    using assms(1) True by (auto simp: catalog_make_def Let_def check_simps)
  then have "catalog_make lib ?b JNull = Inr c" by (simp add: catalog_make_None)
  then show ?thesis using cat_invI wf_json_update[OF assms(2) validate_domain_wf[OF d]] by blast
next
  case False
  then have "catalog_make lib body JNull = Inr c"
    using assms(1) by (cases "domain = JNull") (auto simp: catalog_make_def Let_def check_simps)
  then show ?thesis using cat_invI assms(2) by blast
qed

lemma check_body_fields:
  assumes "check_body lib body = Inr ()"
  shows "\<exists>n \<in> {1, 2, 3}. jget body ''format_version'' = JInt n"
    "\<exists>r \<ge> 0. jget body ''revision'' = JInt r" "\<exists>ps. jget body ''projects'' = JObj ps"
    "\<forall>(pid, p) \<in> set (projects_of body). check_project lib body (int_of (jget body ''format_version'')) pid p = Inr ()"
  using assms by (auto simp: check_body_def Let_def check_simps type_is_int_conv is_obj_conv projects_of_def)

lemma cat_inv_body:
  assumes "cat_inv lib c"
  shows "check_body lib (cat_body c) = Inr ()" "wf_json (JObj (cat_body c))"
    "cat_domain c = jget (cat_body c) ''encryption_domain_id''"
proof -
  obtain e where "c = \<lparr>cat_body = cat_body c, cat_domain = jget (cat_body c) ''encryption_domain_id''\<rparr>"
    and b: "check_body lib (cat_body c) = Inr ()"
    using assms by (auto simp: cat_inv_def catalog_make_None)
  then show "cat_domain c = jget (cat_body c) ''encryption_domain_id''" by (metis catalog.select_convs(2))
  show "check_body lib (cat_body c) = Inr ()" "wf_json (JObj (cat_body c))"
    using b assms by (auto simp: cat_inv_def)
qed

lemma check_project_fields:
  assumes "check_project lib body n pid p = Inr ()"
  shows "\<exists>d s. p = JObj d \<and> jget d ''snapshots'' = JObj s"
    "\<forall>(sid, v) \<in> set (snapshots_of p). check_snapshot lib body n pid sid v = Inr ()"
  using assms by (auto simp: check_project_def check_simps is_obj_conv snapshots_of_def)

lemma check_snapshot_key:
  assumes "check_snapshot lib body n pid sid v = Inr ()"
  shows "\<exists>d key. v = JObj d \<and> jget d ''object_key'' = JStr key \<and> OBJECT_KEY key \<noteq> None \<and>
    jget d ''ciphertext_sha256'' = JStr (rsplit_last CHR ''/'' key)"
proof -
  obtain d where d: "v = JObj d" "require_object_key d = Inr ()" "require_key_digest d = Inr ()"
    using assms by (cases v) (auto simp: check_snapshot_def check_simps)
  obtain key where "map_of d ''object_key'' = Some (JStr key)" "OBJECT_KEY key \<noteq> None"
    using d(2) by (auto simp: require_object_key_def check_simps split: option.splits json.splits)
  then show ?thesis using d(1,3) by (auto simp: require_key_digest_def check_simps jget_Some)
qed

section \<open>The snapshots of every Room\<close>

definition body_snapshot :: "jobj \<Rightarrow> string \<Rightarrow> string \<Rightarrow> json option" where
  "body_snapshot body pid sid =
     (case map_of (projects_of body) pid of None \<Rightarrow> None | Some p \<Rightarrow> map_of (snapshots_of p) sid)"

lemma projects_of_simps [simp]:
  "projects_of (AList.update ''projects'' (JObj ps) body) = ps"
  "k \<noteq> ''projects'' \<Longrightarrow> projects_of (AList.update k v body) = projects_of body"
  by (simp_all add: projects_of_def)

lemma projects_of_bump [simp]: "projects_of (bump body) = projects_of body"
  by (simp add: bump_def)

lemma projects_of_set [simp]: "projects_of (set_projects ps body) = ps"
  by (simp add: set_projects_def)

lemma referenced_bump [simp]: "referenced_keys (bump body) = referenced_keys body"
  by (simp add: referenced_keys_def)

lemma body_snapshot_bump [simp]: "body_snapshot (bump body) = body_snapshot body"
  by (simp add: body_snapshot_def fun_eq_iff)

definition key_of :: "json \<Rightarrow> string" where
  "key_of v = str_of (jget (obj_of v) ''object_key'')"

lemma room_keys_iff: "k \<in> set (room_keys p) \<longleftrightarrow> (\<exists>sid v. (sid, v) \<in> set (snapshots_of p) \<and> key_of v = k)"
proof -
  have e: "set (room_keys p) = (\<lambda>x. key_of (snd x)) ` set (snapshots_of p)"
    by (simp add: room_keys_def key_of_def image_image)
  have "k \<in> set (room_keys p) \<longleftrightarrow> (\<exists>x. x \<in> set (snapshots_of p) \<and> key_of (snd x) = k)"
    unfolding e by (simp add: image_iff Bex_def eq_commute[of k])
  then show ?thesis by simp
qed

lemma body_snapshot_iff:
  assumes "wf_json (JObj body)"
  shows "body_snapshot body pid sid = Some v \<longleftrightarrow>
    (\<exists>p. (pid, p) \<in> set (projects_of body) \<and> (sid, v) \<in> set (snapshots_of p))"
proof -
  note w = wf_projects_of[OF assms]
  have "wf_dict (snapshots_of p)" if "map_of (projects_of body) pid = Some p" for p
    using wf_snapshots_of[OF wf_json_map_of[OF w that]] by simp
  then have "body_snapshot body pid sid = Some v \<longleftrightarrow>
      (\<exists>p. map_of (projects_of body) pid = Some p \<and> (sid, v) \<in> set (snapshots_of p))"
    by (cases "map_of (projects_of body) pid") (simp_all add: body_snapshot_def)
  then show ?thesis using w by simp
qed

lemma referenced_iff:
  assumes "wf_json (JObj body)"
  shows "k \<in> set (referenced_keys body) \<longleftrightarrow> (\<exists>pid sid v. body_snapshot body pid sid = Some v \<and> key_of v = k)"
proof -
  have "k \<in> set (referenced_keys body) \<longleftrightarrow> (\<exists>x. x \<in> set (projects_of body) \<and> k \<in> set (room_keys (snd x)))"
    by (simp add: referenced_keys_def Bex_def)
  also have "\<dots> \<longleftrightarrow> (\<exists>pid p. (pid, p) \<in> set (projects_of body) \<and> k \<in> set (room_keys p))" by simp
  finally show ?thesis unfolding room_keys_iff body_snapshot_iff[OF assms] by blast
qed

lemma cat_inv_snapshot:
  assumes "cat_inv lib c" "body_snapshot (cat_body c) pid sid = Some v"
  shows "check_snapshot lib (cat_body c) (cat_version c) pid sid v = Inr ()"
proof -
  obtain p where p: "map_of (projects_of (cat_body c)) pid = Some p" "map_of (snapshots_of p) sid = Some v"
    using assms(2) by (auto simp: body_snapshot_def split: option.splits)
  have "check_project lib (cat_body c) (cat_version c) pid p = Inr ()"
    using check_body_fields(4)[OF cat_inv_body(1)[OF assms(1)]] map_of_SomeD[OF p(1)] by blast
  then show ?thesis using check_project_fields(2) map_of_SomeD[OF p(2)] by blast
qed


lemma map_of_delete_snap: "map_of (AList.delete k d) k' = (if k' = k then None else map_of d k')"
  by (simp add: delete_conv')

lemma put_snapshot_body:
  fixes body pid name sid snap
  defines "b \<equiv> put_snapshot body pid name sid snap"
  shows "body_snapshot b p s = (if p = pid \<and> s = sid then Some (JObj snap) else body_snapshot body p s)"
    "jget b ''revision'' = JInt (int_of (jget body ''revision'') + 1)"
    "k \<noteq> ''revision'' \<Longrightarrow> k \<noteq> ''projects'' \<Longrightarrow> jget b k = jget body k"
    "\<exists>room. map_of (projects_of b) pid = Some room \<and> jget (obj_of room) ''latest'' = JStr sid \<and>
       map_of (obj_of room) ''latest'' = Some (JStr sid) \<and> map_of (snapshots_of room) sid = Some (JObj snap)"
  unfolding b_def put_snapshot_def Let_def
  by (auto simp: bump_def body_snapshot_def snapshots_of_def projects_of_def map_of_update map_of_setdefault
      jget_def split: option.splits)

lemma wf_put_snapshot:
  assumes "wf_json (JObj body)" "wf_json (JObj snap)"
  shows "wf_json (JObj (put_snapshot body pid name sid snap))"
proof -
  let ?fresh = "JObj [(''display_name'', JStr name), (''latest'', JNull), (''snapshots'', JObj [])]"
  let ?ps = "setdefault pid ?fresh (projects_of body)"
  have ps: "wf_json (JObj ?ps)" by (intro wf_json_setdefault wf_projects_of assms) simp
  have p: "wf_json (JObj (obj_of (jget ?ps pid)))" by (intro wf_json_obj_of wf_json_field ps)
  have p1: "wf_json (JObj (AList.update ''display_name'' (JStr name) (obj_of (jget ?ps pid))))"
    by (intro wf_json_update p) simp
  show ?thesis
    unfolding put_snapshot_def Let_def bump_def
    by (intro wf_json_update assms ps p p1 wf_json_obj_of wf_json_field) simp_all
qed

lemma cat_latest_room:
  "map_of (projects_of (cat_body c)) pid = Some room \<Longrightarrow> map_of (obj_of room) ''latest'' = Some (JStr sid) \<Longrightarrow>
     map_of (snapshots_of room) sid = Some v \<Longrightarrow> cat_latest c pid = Inr v"
  by (simp add: cat_latest_def getitem_def)

lemma add_snapshot_Inr:
  assumes "add_snapshot lib c pid name snap = Inr c'"
  obtains sid snap' where "map_of snap ''snapshot_id'' = Some (JStr sid)"
    "snap' = (if cat_version c \<in> {2, 3} then setdefault ''origin_project_id'' (JStr pid) snap else snap)"
    "catalog_make lib (put_snapshot (cat_body c) pid name sid snap') JNull = Inr c'"
  using assms
  by (auto simp: add_snapshot_def Let_def check_simps map_of_setdefault split: option.splits json.splits if_splits)


section \<open>Adding snapshots\<close>

lemma put_snapshot_catalog:
  assumes "catalog_make lib (put_snapshot body pid name sid snap) JNull = Inr c'"
    "wf_json (JObj body)" "wf_json (JObj snap)"
  shows "cat_inv lib c'" "cat_revision c' = int_of (jget body ''revision'') + 1"
    "cat_latest c' pid = Inr (JObj snap)"
    "body_snapshot (cat_body c') p s = (if p = pid \<and> s = sid then Some (JObj snap) else body_snapshot body p s)"
proof -
  have c: "cat_inv lib c'" "cat_body c' = put_snapshot body pid name sid snap"
    using cat_invI[OF assms(1) wf_put_snapshot[OF assms(2,3)]] by auto
  show "cat_inv lib c'" by (rule c(1))
  show "cat_revision c' = int_of (jget body ''revision'') + 1" by (simp add: cat_revision_def c(2) put_snapshot_body)
  show "body_snapshot (cat_body c') p s = (if p = pid \<and> s = sid then Some (JObj snap) else body_snapshot body p s)"
    by (simp add: c(2) put_snapshot_body)
  show "cat_latest c' pid = Inr (JObj snap)"
    using put_snapshot_body(4)[of body pid name sid snap] cat_latest_room[of c'] unfolding c(2) by blast
qed

text \<open>C21. Adding a snapshot to a Room makes it the latest one of that Room, raises the revision by
  exactly one and leaves every other snapshot of every Room as it was; the result satisfies the
  catalog's invariant again. In a Dimension catalog the record gains its origin Room if it names none.\<close>

theorem add_snapshot_effect:
  assumes "cat_inv lib c" and "wf_json (JObj snap)" and "add_snapshot lib c pid name snap = Inr c'"
  shows "\<exists>sid stored. jget snap ''snapshot_id'' = JStr sid \<and>
    stored = (if cat_version c = 1 then snap else setdefault ''origin_project_id'' (JStr pid) snap) \<and>
    cat_inv lib c' \<and> cat_revision c' = cat_revision c + 1 \<and> cat_latest c' pid = Inr (JObj stored) \<and>
    (\<forall>p s. body_snapshot (cat_body c') p s =
       (if p = pid \<and> s = sid then Some (JObj stored) else body_snapshot (cat_body c) p s))"
proof -
  obtain sid snap' where s: "map_of snap ''snapshot_id'' = Some (JStr sid)"
    "snap' = (if cat_version c \<in> {2, 3} then setdefault ''origin_project_id'' (JStr pid) snap else snap)"
    "catalog_make lib (put_snapshot (cat_body c) pid name sid snap') JNull = Inr c'"
    by (rule add_snapshot_Inr[OF assms(3)])
  have v: "cat_version c \<in> {2, 3} \<longleftrightarrow> cat_version c \<noteq> 1"
    using check_body_fields(1)[OF cat_inv_body(1)[OF assms(1)]] by auto
  have wf: "wf_json (JObj snap')" using assms(2) s(2) wf_json_setdefault by simp
  note P = put_snapshot_catalog[OF s(3) cat_inv_body(2)[OF assms(1)] wf]
  show ?thesis
    by (rule exI[of _ sid], rule exI[of _ snap'])
       (use P s v in \<open>simp add: jget_Some cat_revision_def\<close>)
qed

definition demo_key :: "char \<Rightarrow> string" where
  "demo_key x = OBJECT_PREFIX @ replicate 64 x"

definition demo_snapshot :: "string \<Rightarrow> char \<Rightarrow> string \<Rightarrow> jobj" where
  "demo_snapshot sid x created = [(''snapshot_id'', JStr sid), (''object_key'', JStr (demo_key x)),
     (''ciphertext_sha256'', JStr (replicate 64 x)), (''ciphertext_size'', JInt 1),
     (''created_at'', JStr created), (''workspace_fingerprint'', JStr (replicate 64 x))]"

definition demo_catalog :: "(string \<times> char) list \<Rightarrow> string \<Rightarrow> int \<Rightarrow> catalog" where
  "demo_catalog snaps latest revision = \<lparr>cat_body = [(''format_version'', JInt 2), (''dimension_id'', JStr ''dim''),
      (''revision'', JInt revision), (''projects'', JObj [(''room'', JObj [(''display_name'', JStr ''Room''),
         (''latest'', JStr latest),
         (''snapshots'', JObj (map (\<lambda>(sid, x). (sid, JObj (demo_snapshot sid x ''2026-01-02''))) snaps))])])],
      cat_domain = JNull\<rparr>"

lemma demo_catalog_inv: "cat_inv demo_jat_lib (demo_catalog [(''s1'', CHR ''a''), (''s2'', CHR ''b'')] ''s2'' 2)"
  by code_simp

theorem add_snapshot_effect_witness:
  "\<exists>c'. add_snapshot demo_jat_lib (demo_catalog [(''s1'', CHR ''a''), (''s2'', CHR ''b'')] ''s2'' 2) ''room'' ''Room''
      (demo_snapshot ''s3'' CHR ''c'' ''2026-01-03'') = Inr c' \<and> cat_revision c' = 3"
proof -
  let ?c = "demo_catalog [(''s1'', CHR ''a''), (''s2'', CHR ''b'')] ''s2'' 2"
  let ?s = "demo_snapshot ''s3'' CHR ''c'' ''2026-01-03''"
  have "case add_snapshot demo_jat_lib ?c ''room'' ''Room'' ?s of Inl _ \<Rightarrow> False | Inr _ \<Rightarrow> True" by code_simp
  then obtain c' where c': "add_snapshot demo_jat_lib ?c ''room'' ''Room'' ?s = Inr c'"
    by (auto split: sum.splits)
  have wf: "wf_json (JObj ?s)" by code_simp
  have rev: "cat_revision ?c = 2" by code_simp
  from add_snapshot_effect[OF demo_catalog_inv wf c'] have "cat_revision c' = 3"
    by (elim exE conjE) (simp add: rev)
  with c' show ?thesis by blast
qed


section \<open>Removing snapshots and Rooms\<close>

lemma body_snapshot_set:
  "body_snapshot (set_projects ps body) p s =
     (case map_of ps p of None \<Rightarrow> None | Some room \<Rightarrow> map_of (snapshots_of room) s)"
  by (simp add: body_snapshot_def)

lemma wf_set_projects: "wf_json (JObj body) \<Longrightarrow> wf_json (JObj ps) \<Longrightarrow> wf_json (JObj (set_projects ps body))"
  unfolding set_projects_def by (rule wf_json_update)

lemma wf_bump: "wf_json (JObj body) \<Longrightarrow> wf_json (JObj (bump body))"
  unfolding bump_def by (rule wf_json_update) simp_all

lemma jget_bump: "jget (bump body) ''revision'' = JInt (int_of (jget body ''revision'') + 1)"
  by (simp add: bump_def)

lemma jget_set_projects: "jget (set_projects ps body) ''revision'' = jget body ''revision''"
  by (simp add: set_projects_def)

text \<open>The common end of both removals.\<close>

lemma removal_catalog:
  assumes "catalog_make lib (bump (set_projects ps body)) JNull = Inr c'" "wf_json (JObj body)" "wf_json (JObj ps)"
  shows "cat_inv lib c'" "cat_body c' = bump (set_projects ps body)"
    "cat_revision c' = int_of (jget body ''revision'') + 1"
proof -
  show "cat_inv lib c'" "cat_body c' = bump (set_projects ps body)"
    using cat_invI[OF assms(1)] wf_bump wf_set_projects assms(2,3) by blast+
  then show "cat_revision c' = int_of (jget body ''revision'') + 1"
    by (simp add: cat_revision_def jget_bump jget_set_projects)
qed

text \<open>
  Which keys a removal may release: when the new body lost exactly the snapshots in \<open>gone\<close>,
  the keys no longer referenced are those of \<open>gone\<close> that nothing remaining uses.
\<close>

lemma released_keys:
  assumes "wf_json (JObj body)" "wf_json (JObj body')"
    "\<And>p s. body_snapshot body' p s = (if gone p s then None else body_snapshot body p s)"
  shows "set (referenced_keys body) - set (referenced_keys body') =
    {key_of v | p s v. gone p s \<and> body_snapshot body p s = Some v} - set (referenced_keys body')"
proof -
  have "k \<in> set (referenced_keys body) - set (referenced_keys body') \<longleftrightarrow>
      k \<in> {key_of v | p s v. gone p s \<and> body_snapshot body p s = Some v} - set (referenced_keys body')" for k
    unfolding Diff_iff referenced_iff[OF assms(1)] referenced_iff[OF assms(2)] assms(3) mem_Collect_eq
    by (metis option.distinct(1))
  then show ?thesis by (rule set_eqI)
qed

lemma cat_inv_room_latest:
  assumes "cat_inv lib c" "cat_version c = 3" "map_of (projects_of (cat_body c)) pid = Some room"
    "snapshots_of room \<noteq> []"
  shows "\<exists>sid v. map_of (obj_of room) ''latest'' = Some (JStr sid) \<and> map_of (snapshots_of room) sid = Some v"
proof -
  have p: "check_project lib (cat_body c) 3 pid room = Inr ()"
    using check_body_fields(4)[OF cat_inv_body(1)[OF assms(1)]] map_of_SomeD[OF assms(3)] assms(2) by force
  have l: "is_str (jget (obj_of room) ''latest'')" "has_key (snapshots_of room) (str_of (jget (obj_of room) ''latest''))"
    using p assms(4) by (auto simp: check_project_def check_simps Let_def snapshots_of_def)
  obtain sid where sid: "jget (obj_of room) ''latest'' = JStr sid" using l(1) by (auto simp: is_str_conv)
  then have "map_of (obj_of room) ''latest'' = Some (JStr sid)" by (auto simp: jget_def split: option.splits)
  moreover have "\<exists>v. map_of (snapshots_of room) sid = Some v" using l(2) sid unfolding has_key_map_of by simp
  ultimately show ?thesis by blast
qed

lemma remove_project_Inr:
  assumes "cat_inv lib c" "remove_project lib c pid = Inr (c', freed, n)"
  shows "cat_inv lib c'" "cat_revision c' = cat_revision c + 1"
    "body_snapshot (cat_body c') p s = (if p = pid then None else body_snapshot (cat_body c) p s)"
    "set freed = set (referenced_keys (cat_body c)) - set (referenced_keys (cat_body c'))" "distinct freed" "sorted freed"
proof -
  let ?ps = "projects_of (cat_body c)" let ?b = "set_projects (AList.delete pid ?ps) (cat_body c)"
  obtain room where room: "map_of ?ps pid = Some room"
    and mk: "catalog_make lib (bump ?b) JNull = Inr c'"
    and keys: "freed = sort (remdups (filter (\<lambda>k. k \<notin> set (referenced_keys ?b)) (room_keys room)))"
    using assms(2) by (auto simp: remove_project_def Let_def check_simps split: option.splits)
  note wf = cat_inv_body(2)[OF assms(1)]
  note R = removal_catalog[OF mk wf wf_json_delete[OF wf_projects_of[OF wf]]]
  show "cat_inv lib c'" "cat_revision c' = cat_revision c + 1" using R by (auto simp: cat_revision_def)
  show bs: "body_snapshot (cat_body c') p s = (if p = pid then None else body_snapshot (cat_body c) p s)" for p s
    by (simp add: R(2) body_snapshot_set map_of_delete body_snapshot_def)
  have "set (referenced_keys (cat_body c)) - set (referenced_keys (cat_body c')) =
      {key_of v | p s v. p = pid \<and> body_snapshot (cat_body c) p s = Some v} - set (referenced_keys (cat_body c'))"
    by (rule released_keys[OF wf cat_inv_body(2)[OF R(1)] bs])
  also have "{key_of v | p s v. p = pid \<and> body_snapshot (cat_body c) p s = Some v} = set (room_keys room)"
  proof -
    have "wf_dict (snapshots_of room)" using wf_snapshots_of[OF wf_json_map_of[OF wf_projects_of[OF wf] room]] by simp
    then have "k \<in> set (room_keys room) \<longleftrightarrow> (\<exists>sid v. map_of (snapshots_of room) sid = Some v \<and> key_of v = k)" for k
      unfolding room_keys_iff by simp
    then have rk: "set (room_keys room) = {k. \<exists>sid v. map_of (snapshots_of room) sid = Some v \<and> key_of v = k}"
      by (simp add: set_eq_iff)
    show ?thesis unfolding rk by (rule set_eqI) (simp add: body_snapshot_def room conj_commute eq_commute)
  qed
  also have "set (room_keys room) - set (referenced_keys (cat_body c')) = set freed"
    by (auto simp: keys R(2))
  finally show "set freed = set (referenced_keys (cat_body c)) - set (referenced_keys (cat_body c'))" by simp
  show "distinct freed" "sorted freed" by (simp_all add: keys)
qed

lemma remove_snapshot_Inr:
  assumes "cat_inv lib c" "remove_snapshot lib c pid sid = Inr (c', freed, last_one)"
  obtains room removed ps where "map_of (projects_of (cat_body c)) pid = Some room"
    "map_of (snapshots_of room) sid = Some removed" "wf_json (JObj ps)"
    "catalog_make lib (bump (set_projects ps (cat_body c))) JNull = Inr c'"
    "freed = removable_key (set_projects ps (cat_body c)) removed"
    "\<And>p s. body_snapshot (set_projects ps (cat_body c)) p s =
       (if p = pid \<and> s = sid then None else body_snapshot (cat_body c) p s)"
    "last_one \<longleftrightarrow> length (snapshots_of room) = 1"
    "if last_one then ps = AList.delete pid (projects_of (cat_body c))
     else \<exists>latest. map_of (obj_of room) ''latest'' = Some latest \<and>
       (\<exists>room'. map_of ps pid = Some (JObj room') \<and>
          map_of room' ''latest'' = Some (if latest = JStr sid then JStr (fst (last (AList.delete sid (snapshots_of room)))) else latest) \<and>
          snapshots_of (JObj room') = AList.delete sid (snapshots_of room))"
proof -
  let ?ps = "projects_of (cat_body c)"
  note wf = cat_inv_body(2)[OF assms(1)]
  note wfp = wf_projects_of[OF wf]
  obtain room removed where room: "map_of ?ps pid = Some room" "map_of (snapshots_of room) sid = Some removed"
    using assms(2) by (auto simp: remove_snapshot_def split: option.splits)
  note wfr = wf_json_map_of[OF wfp room(1)]
  show thesis
  proof (cases "length (snapshots_of room) = 1")
    case True
    then obtain e where "snapshots_of room = [e]" by (auto simp: length_Suc_conv)
    then have only: "map_of (snapshots_of room) s = (if s = sid then Some removed else None)" for s
      using room(2) by (cases e) (auto split: if_splits)
    show thesis
      by (rule that[OF room, of "AList.delete pid ?ps"])
         (use assms(2) room True only wf_json_delete[OF wfp] in
           \<open>auto simp: remove_snapshot_def Let_def check_simps body_snapshot_set map_of_delete body_snapshot_def\<close>)
  next
    case False
    let ?rem = "AList.delete sid (snapshots_of room)"
    let ?ch = "AList.update ''snapshots'' (JObj ?rem) (obj_of room)"
    obtain latest where latest: "map_of (obj_of room) ''latest'' = Some latest"
      using assms(2) room False
      by (auto simp: remove_snapshot_def Let_def check_simps getitem_def split: option.splits)
    define ch where "ch = (if latest = JStr sid then AList.update ''latest'' (JStr (fst (last ?rem))) ?ch else ?ch)"
    define ps where "ps = AList.update pid (JObj ch) ?ps"
    have sn: "snapshots_of (JObj ch) = ?rem" by (simp add: ch_def snapshots_of_def)
    have "wf_json (JObj ?ch)"
      by (intro wf_json_update wf_json_obj_of[OF wfr] wf_json_delete wf_snapshots_of[OF wfr])
    then have "wf_json (JObj ch)" using wf_json_update[of ?ch "JStr (fst (last ?rem))" "''latest''"] unfolding ch_def by (cases "latest = JStr sid") auto
    then have wps: "wf_json (JObj ps)" unfolding ps_def by (intro wf_json_update wfp)
    have r: "catalog_make lib (bump (set_projects ps (cat_body c))) JNull = Inr c'"
        "freed = removable_key (set_projects ps (cat_body c)) removed" "\<not> last_one"
      using assms(2) room False latest
      by (auto simp: remove_snapshot_def Let_def check_simps getitem_def ps_def ch_def split: if_splits)
    have "map_of ps pid = Some (JObj ch)" by (simp add: ps_def map_of_update)
    moreover have "map_of ch ''latest'' = Some (if latest = JStr sid then JStr (fst (last ?rem)) else latest)"
      using latest by (simp add: ch_def map_of_update)
    ultimately show thesis
      using latest sn False r
      by (intro that[OF room wps r(1,2)])
         (auto simp: body_snapshot_set body_snapshot_def map_of_update ps_def room map_of_delete)
  qed
qed

lemma remove_snapshot_changes:
  assumes "cat_inv lib c" and "remove_snapshot lib c pid sid = Inr (c', freed, last_one)"
  shows "cat_inv lib c' \<and> cat_revision c' = cat_revision c + 1 \<and>
    (\<forall>p s. body_snapshot (cat_body c') p s = (if p = pid \<and> s = sid then None else body_snapshot (cat_body c) p s)) \<and>
    set freed = set (referenced_keys (cat_body c)) - set (referenced_keys (cat_body c')) \<and> distinct freed"
proof -
  obtain room removed ps where r: "map_of (projects_of (cat_body c)) pid = Some room"
    "map_of (snapshots_of room) sid = Some removed" "wf_json (JObj ps)"
    "catalog_make lib (bump (set_projects ps (cat_body c))) JNull = Inr c'"
    "freed = removable_key (set_projects ps (cat_body c)) removed"
    and bs: "\<And>p s. body_snapshot (set_projects ps (cat_body c)) p s =
       (if p = pid \<and> s = sid then None else body_snapshot (cat_body c) p s)"
    by (rule remove_snapshot_Inr[OF assms]) (rule that)
  note wf = cat_inv_body(2)[OF assms(1)]
  note R = removal_catalog[OF r(4) wf r(3)]
  have bs': "body_snapshot (cat_body c') p s = (if p = pid \<and> s = sid then None else body_snapshot (cat_body c) p s)" for p s
    by (simp add: R(2) bs)
  have "set (referenced_keys (cat_body c)) - set (referenced_keys (cat_body c')) =
      {key_of v | p s v. (p = pid \<and> s = sid) \<and> body_snapshot (cat_body c) p s = Some v} - set (referenced_keys (cat_body c'))"
    by (rule released_keys[OF wf cat_inv_body(2)[OF R(1)] bs'])
  also have "{key_of v | p s v. (p = pid \<and> s = sid) \<and> body_snapshot (cat_body c) p s = Some v} = {key_of removed}"
    by (auto simp: body_snapshot_def r(1,2))
  also have "{key_of removed} - set (referenced_keys (cat_body c')) = set freed"
    by (auto simp: r(5) removable_key_def R(2) key_of_def Let_def)
  finally show ?thesis using R bs' by (simp add: cat_revision_def r(5) removable_key_def Let_def)
qed

text \<open>C18. Removing one snapshot removes exactly that snapshot, raises the revision by one, and
  releases exactly the object keys that were referenced before and are referenced by nothing after:
  an object shared with any other snapshot of any Room is never released, and nothing unreferenced
  is forgotten.\<close>

theorem remove_snapshot_effect:
  assumes "cat_inv lib c" and "remove_snapshot lib c pid sid = Inr (c', freed, last_one)"
  shows "cat_inv lib c' \<and> cat_revision c' = cat_revision c + 1 \<and>
    (\<forall>p s. body_snapshot (cat_body c') p s = (if p = pid \<and> s = sid then None else body_snapshot (cat_body c) p s)) \<and>
    set freed = set (referenced_keys (cat_body c)) - set (referenced_keys (cat_body c')) \<and> distinct freed"
  by (rule remove_snapshot_changes[OF assms])

theorem remove_snapshot_effect_witness:
  "\<exists>c' freed. remove_snapshot demo_jat_lib (demo_catalog [(''s1'', CHR ''a''), (''s2'', CHR ''b'')] ''s2'' 2) ''room'' ''s1''
      = Inr (c', freed, False) \<and> set freed = {demo_key CHR ''a''}"
proof -
  let ?c = "demo_catalog [(''s1'', CHR ''a''), (''s2'', CHR ''b'')] ''s2'' 2"
  have "case remove_snapshot demo_jat_lib ?c ''room'' ''s1'' of Inl _ \<Rightarrow> False
      | Inr (c', freed, l) \<Rightarrow> \<not> l \<and> referenced_keys (cat_body c') = [demo_key CHR ''b'']" by code_simp
  then obtain c' freed where r: "remove_snapshot demo_jat_lib ?c ''room'' ''s1'' = Inr (c', freed, False)"
    "referenced_keys (cat_body c') = [demo_key CHR ''b'']"
    by (auto split: sum.splits)
  have "referenced_keys (cat_body ?c) = [demo_key CHR ''a'', demo_key CHR ''b'']" "demo_key CHR ''a'' \<noteq> demo_key CHR ''b''"
    by code_simp+
  then have "set freed = {demo_key CHR ''a''}"
    using remove_snapshot_effect[OF demo_catalog_inv r(1)] r(2) by (simp add: insert_Diff_if)
  with r(1) show ?thesis by blast
qed

text \<open>C20. Removing a Room removes all of its snapshots and no other, and releases exactly the object
  keys that only this Room referenced, each once and in order.\<close>

theorem remove_project_effect:
  assumes "cat_inv lib c" and "remove_project lib c pid = Inr (c', freed, n)"
  shows "cat_inv lib c' \<and> cat_revision c' = cat_revision c + 1 \<and>
    (\<forall>p s. body_snapshot (cat_body c') p s = (if p = pid then None else body_snapshot (cat_body c) p s)) \<and>
    set freed = set (referenced_keys (cat_body c)) - set (referenced_keys (cat_body c')) \<and>
    distinct freed \<and> sorted freed"
  using remove_project_Inr[OF assms] by blast

theorem remove_project_effect_witness:
  "\<exists>c' freed. remove_project demo_jat_lib (demo_catalog [(''s1'', CHR ''b''), (''s2'', CHR ''a'')] ''s2'' 2) ''room''
      = Inr (c', freed, 2) \<and> set freed = {demo_key CHR ''a'', demo_key CHR ''b''} \<and> sorted freed"
proof -
  let ?c = "demo_catalog [(''s1'', CHR ''b''), (''s2'', CHR ''a'')] ''s2'' 2"
  have inv: "cat_inv demo_jat_lib ?c" by code_simp
  have "case remove_project demo_jat_lib ?c ''room'' of Inl _ \<Rightarrow> False
      | Inr (c', freed, n) \<Rightarrow> n = 2 \<and> referenced_keys (cat_body c') = []" by code_simp
  then obtain c' freed where r: "remove_project demo_jat_lib ?c ''room'' = Inr (c', freed, 2)"
    "referenced_keys (cat_body c') = []"
    by (auto split: sum.splits)
  have "referenced_keys (cat_body ?c) = [demo_key CHR ''b'', demo_key CHR ''a'']" by code_simp
  then have "set freed = {demo_key CHR ''a'', demo_key CHR ''b''} \<and> sorted freed"
    using remove_project_effect[OF inv r(1)] r(2) by (simp add: insert_commute)
  with r(1) show ?thesis by blast
qed

text \<open>C38. In a version 3 catalog a Room that has snapshots always has a latest one: resolving it
  succeeds, by name or as the latest, and what it yields is a record whose object key is well formed
  and ends in its ciphertext digest.\<close>

theorem v3_latest_resolves:
  assumes "cat_inv lib c" and "cat_version c = 3" and "map_of (projects_of (cat_body c)) pid = Some room"
    and "snapshots_of room \<noteq> []"
  shows "\<exists>d key digest. cat_latest c pid = Inr (JObj d) \<and> resolve_snapshot c pid ''latest'' = Inr (JObj d) \<and>
    jget d ''object_key'' = JStr key \<and> OBJECT_KEY key = Some digest \<and> jget d ''ciphertext_sha256'' = JStr digest"
proof -
  obtain sid v where v: "map_of (obj_of room) ''latest'' = Some (JStr sid)" "map_of (snapshots_of room) sid = Some v"
    using cat_inv_room_latest[OF assms] by blast
  have "body_snapshot (cat_body c) pid sid = Some v" by (simp add: body_snapshot_def assms(3) v(2))
  from check_snapshot_key[OF cat_inv_snapshot[OF assms(1) this]]
  obtain d key where d: "v = JObj d" "jget d ''object_key'' = JStr key" "OBJECT_KEY key \<noteq> None"
    "jget d ''ciphertext_sha256'' = JStr (rsplit_last CHR ''/'' key)" by blast
  obtain digest where "OBJECT_KEY key = Some digest" using d(3) by blast
  moreover from this have "jget d ''ciphertext_sha256'' = JStr digest" using d(4) OBJECT_KEY_rsplit by simp
  moreover have "cat_latest c pid = Inr (JObj d)" using cat_latest_room[OF assms(3) v] d(1) by simp
  moreover have "resolve_snapshot c pid ''latest'' = Inr (JObj d)"
    by (simp add: resolve_snapshot_def getitem_def assms(3) v d(1))
  ultimately show ?thesis using d(2) by blast
qed

definition demo_room :: json where
  "demo_room = JObj [(''display_name'', JStr ''Room''), (''latest'', JStr ''s1''),
     (''snapshots'', JObj [(''s1'', JObj (demo_snapshot ''s1'' CHR ''a'' ''2026-01-02''))])]"

definition demo_v3 :: catalog where
  "demo_v3 = \<lparr>cat_body = [(''format_version'', JInt 3), (''dimension_id'', JStr ''dim''),
      (''encryption_domain_id'', JStr demo_domain), (''revision'', JInt 2),
      (''projects'', JObj [(''room'', demo_room)])], cat_domain = JStr demo_domain\<rparr>"

lemma demo_v3_inv: "cat_inv demo_jat_lib demo_v3"
proof -
  have p: "check_project demo_jat_lib (cat_body demo_v3) 3 ''room'' demo_room = Inr ()" by code_simp
  have wf: "wf_json (JObj (cat_body demo_v3))" by code_simp
  have "jget (cat_body demo_v3) ''encryption_domain_id'' = JStr demo_domain"
    "jget (cat_body demo_v3) ''projects'' = JObj [(''room'', demo_room)]"
    "jget (cat_body demo_v3) ''format_version'' = JInt 3" "jget (cat_body demo_v3) ''revision'' = JInt 2"
    "jget (cat_body demo_v3) ''dimension_id'' = JStr ''dim''"
    by (simp_all add: demo_v3_def jget_def)
  moreover have "set (keys (cat_body demo_v3)) =
      {''format_version'', ''dimension_id'', ''encryption_domain_id'', ''revision'', ''projects''}"
    by (simp add: demo_v3_def)
  moreover have "validate_identifier ''dimension'' (JStr ''dim'') = Inr ()" by code_simp
  ultimately have "check_body demo_jat_lib (cat_body demo_v3) = Inr ()"
    using p demo_domain_ok by (simp add: check_body_def check_simps)
  then show ?thesis
    using wf demo_domain_ok by (simp add: cat_inv_def catalog_make_None) (simp add: demo_v3_def jget_def)
qed

theorem v3_latest_resolves_witness:
  "\<exists>d. resolve_snapshot demo_v3 ''room'' ''latest'' = Inr (JObj d)"
proof -
  have "cat_version demo_v3 = 3" "map_of (projects_of (cat_body demo_v3)) ''room'' = Some demo_room"
    "snapshots_of demo_room \<noteq> []"
    by (simp_all add: demo_v3_def jget_def projects_of_def snapshots_of_def demo_room_def)
  from v3_latest_resolves[OF demo_v3_inv this] show ?thesis by blast
qed


section \<open>What the fallback of the latest pointer is\<close>

lemma last_sorted_Max: "xs \<noteq> [] \<Longrightarrow> sorted xs \<Longrightarrow> last xs = Max (set xs)" for xs :: "'a::linorder list"
proof -
  assume "xs \<noteq> []" "sorted xs"
  then obtain ys z where "xs = ys @ [z]" by (metis rev_exhaust)
  then show ?thesis using \<open>sorted xs\<close> by (auto simp: sorted_append intro!: Max_eqI[symmetric])
qed

text \<open>C39. The catalog file is written with sorted keys, so the snapshots of a Room read back from it
  are ordered by their ids. When the latest snapshot of such a Room is removed, the new latest is the
  remaining snapshot with the largest id, whatever the creation times are.\<close>

theorem removed_latest_falls_back_to_largest_id:
  assumes "cat_inv lib c" and "map_of (projects_of (cat_body c)) pid = Some room"
    and "map_of (obj_of room) ''latest'' = Some (JStr sid)" and "sorted (keys (snapshots_of room))"
    and "remove_snapshot lib c pid sid = Inr (c', freed, False)"
  shows "\<exists>room'. map_of (projects_of (cat_body c')) pid = Some room' \<and>
    set (keys (snapshots_of room')) = set (keys (snapshots_of room)) - {sid} \<and>
    jget (obj_of room') ''latest'' = JStr (Max (set (keys (snapshots_of room')) :: string set))"
proof -
  obtain r removed ps where r: "map_of (projects_of (cat_body c)) pid = Some r"
    "map_of (snapshots_of r) sid = Some removed" "wf_json (JObj ps)"
    "catalog_make lib (bump (set_projects ps (cat_body c))) JNull = Inr c'"
    and len: "False \<longleftrightarrow> length (snapshots_of r) = 1"
    and ex: "if False then ps = AList.delete pid (projects_of (cat_body c))
     else \<exists>latest. map_of (obj_of r) ''latest'' = Some latest \<and>
       (\<exists>room'. map_of ps pid = Some (JObj room') \<and>
          map_of room' ''latest'' = Some (if latest = JStr sid then JStr (fst (last (AList.delete sid (snapshots_of r)))) else latest) \<and>
          snapshots_of (JObj room') = AList.delete sid (snapshots_of r))"
    by (rule remove_snapshot_Inr[OF assms(1,5)]) (rule that)
  have [simp]: "r = room" using r(1) assms(2) by simp
  let ?rem = "AList.delete sid (snapshots_of room)"
  obtain room' where room': "map_of ps pid = Some (JObj room')" "map_of room' ''latest'' = Some (JStr (fst (last ?rem)))"
    "snapshots_of (JObj room') = ?rem"
    using ex assms(3) by auto
  note wf = cat_inv_body(2)[OF assms(1)]
  note R = removal_catalog[OF r(4) wf r(3)]
  have "wf_dict (snapshots_of room)" using wf_snapshots_of[OF wf_json_map_of[OF wf_projects_of[OF wf] assms(2)]] by simp
  moreover have "?rem \<noteq> []"
  proof
    assume "?rem = []"
    then have "set (keys (snapshots_of room)) \<subseteq> {sid}" using set_delete[of sid "snapshots_of room"] by force
    then have "length (snapshots_of room) \<le> 1"
      using distinct_card[OF \<open>wf_dict (snapshots_of room)\<close>] card_mono[of "{sid}" "set (keys (snapshots_of room))"] by simp
    then show False using len r(2) by (cases "snapshots_of room") auto
  qed
  moreover have "sorted (keys ?rem)"
    using assms(4) by (simp add: delete_keys removeAll_filter_not_eq sorted_wrt_filter)
  ultimately have "fst (last ?rem) = Max (set (keys ?rem))"
    using last_sorted_Max[of "keys ?rem"] by (simp add: last_map)
  moreover have "set (keys ?rem) = set (keys (snapshots_of room)) - {sid}" by (auto simp: delete_keys)
  ultimately show ?thesis
    using room' R(2) by (intro exI[of _ "JObj room'"]) (simp add: jget_Some)
qed

theorem removed_latest_falls_back_to_largest_id_witness:
  "\<exists>c' room'. remove_snapshot demo_jat_lib
      (demo_catalog [(''s1'', CHR ''a''), (''s2'', CHR ''b''), (''s9'', CHR ''c'')] ''s2'' 3) ''room'' ''s2'' = Inr (c', [demo_key CHR ''b''], False) \<and>
    map_of (projects_of (cat_body c')) ''room'' = Some room' \<and> jget (obj_of room') ''latest'' = JStr ''s9''"
proof -
  let ?c = "demo_catalog [(''s1'', CHR ''a''), (''s2'', CHR ''b''), (''s9'', CHR ''c'')] ''s2'' 3"
  have inv: "cat_inv demo_jat_lib ?c" by code_simp
  obtain room where room: "map_of (projects_of (cat_body ?c)) ''room'' = Some room"
    "map_of (obj_of room) ''latest'' = Some (JStr ''s2'')" "keys (snapshots_of room) = [''s1'', ''s2'', ''s9'']"
    by (simp add: demo_catalog_def projects_of_def jget_def snapshots_of_def)
  have "case remove_snapshot demo_jat_lib ?c ''room'' ''s2'' of Inl _ \<Rightarrow> False
      | Inr (c', freed, l) \<Rightarrow> freed = [demo_key CHR ''b''] \<and> \<not> l" by code_simp
  then obtain c' where c': "remove_snapshot demo_jat_lib ?c ''room'' ''s2'' = Inr (c', [demo_key CHR ''b''], False)"
    by (auto split: sum.splits)
  have srt: "sorted (keys (snapshots_of room))" unfolding room(3) by code_simp
  obtain room' where room': "map_of (projects_of (cat_body c')) ''room'' = Some room'"
    "set (keys (snapshots_of room')) = set (keys (snapshots_of room)) - {''s2''}"
    "jget (obj_of room') ''latest'' = JStr (Max (set (keys (snapshots_of room'))))"
    using removed_latest_falls_back_to_largest_id[OF inv room(1,2) srt c'] by (elim exE conjE) (rule that)
  have "set (keys (snapshots_of room')) = set [''s1'', ''s9'']" unfolding room'(2) room(3) by auto
  then have "Max (set (keys (snapshots_of room'))) = Max (set [''s1'', ''s9''])" by (rule arg_cong)
  also have "\<dots> = (''s9'' :: string)" by code_simp
  finally show ?thesis using room'(3) by (intro exI[of _ c'] exI[of _ room'] conjI c' room'(1)) (simp only:)
qed


section \<open>Commits through the catalog file\<close>

text \<open>The changes a client makes between reading the catalog and committing it.\<close>

datatype catalog_op =
    AddSnapshot string string jobj
  | AddLogical string string logical_jat object_ref json
  | RemoveSnapshot string string
  | RemoveProject string

fun apply_op :: "jat_lib \<Rightarrow> catalog_op \<Rightarrow> catalog \<Rightarrow> catalog result" where
  "apply_op lib (AddSnapshot pid name snap) c = add_snapshot lib c pid name snap"
| "apply_op lib (AddLogical pid name jat ref sig) c = add_logical_snapshot lib c pid name jat ref sig"
| "apply_op lib (RemoveSnapshot pid sid) c = bind_r (remove_snapshot lib c pid sid) (\<lambda>(c', _, _). Inr c')"
| "apply_op lib (RemoveProject pid) c = bind_r (remove_project lib c pid) (\<lambda>(c', _, _). Inr c')"

lemma catalog_make_body: "catalog_make lib body JNull = Inr c \<Longrightarrow> cat_body c = body"
  by (auto simp: catalog_make_None)

lemma apply_op_revision: "apply_op lib op c = Inr c' \<Longrightarrow> cat_revision c' = cat_revision c + 1"
proof (cases op)
  case (AddSnapshot pid name snap)
  assume "apply_op lib op c = Inr c'"
  then have "add_snapshot lib c pid name snap = Inr c'" by (simp add: AddSnapshot)
  then show ?thesis
    by (rule add_snapshot_Inr) (auto simp: cat_revision_def put_snapshot_body dest!: catalog_make_body)
next
  case (AddLogical pid name jat ref sig)
  assume "apply_op lib op c = Inr c'"
  then show ?thesis
    by (auto simp: AddLogical add_logical_snapshot_def check_simps Let_def cat_revision_def put_snapshot_body
        dest!: catalog_make_body)
next
  case (RemoveSnapshot pid sid)
  assume "apply_op lib op c = Inr c'"
  then show ?thesis
    by (auto simp: RemoveSnapshot remove_snapshot_def check_simps Let_def cat_revision_def jget_bump jget_set_projects
        split: option.splits if_splits dest!: catalog_make_body)
next
  case (RemoveProject pid)
  assume "apply_op lib op c = Inr c'"
  then show ?thesis
    by (auto simp: RemoveProject remove_project_def check_simps Let_def cat_revision_def jget_bump jget_set_projects
        split: option.splits dest!: catalog_make_body)
qed

text \<open>
  The history of the file, newest state first. A commit of a writer that read some state of the
  history (perhaps an old one), changed it and calls \<^verbatim>\<open>update_if_revision\<close> with the revision
  it has read.
\<close>

inductive commit :: "jat_lib \<Rightarrow> 'f catalog_io \<Rightarrow> 'f option list \<Rightarrow> 'f option list \<Rightarrow> bool" for lib io where
  commit: "seen \<in> set (now # past) \<Longrightarrow> file_read lib io seen = Inr c \<Longrightarrow> apply_op lib op c = Inr c' \<Longrightarrow>
    file_update_if_revision lib io (JInt (cat_revision c)) c' recipients now = Inr f' \<Longrightarrow>
    commit lib io (now # past) (f' # now # past)"

inductive_cases commitE: "commit lib io h h'"

definition seal_law :: "'f catalog_io \<Rightarrow> bool" where
  "seal_law io \<longleftrightarrow> (\<forall>body recipients x. seal io body recipients = Inr x \<longrightarrow> unseal io x = Inr (jsort_obj body))"

text \<open>Each state was made from the one right below it.\<close>

fun linear :: "jat_lib \<Rightarrow> 'f catalog_io \<Rightarrow> 'f option list \<Rightarrow> bool" where
  "linear lib io (f' # f # fs) =
     ((\<exists>c op c' recipients. file_read lib io f = Inr c \<and> apply_op lib op c = Inr c' \<and>
         file_publish io c' recipients = Inr f') \<and> linear lib io (f # fs))"
| "linear lib io _ = True"

text \<open>The revisions of the readable states decrease from new to old.\<close>

definition descending :: "jat_lib \<Rightarrow> 'f catalog_io \<Rightarrow> 'f option list \<Rightarrow> bool" where
  "descending lib io h \<longleftrightarrow>
     (\<forall>i j ci cj. i < j \<longrightarrow> j < length h \<longrightarrow> file_read lib io (h ! i) = Inr ci \<longrightarrow> file_read lib io (h ! j) = Inr cj \<longrightarrow>
        cat_revision cj < cat_revision ci)"

lemma map_of_migrate:
  "migrate_body dimension body = Inr b \<Longrightarrow> jget b ''revision'' = jget body ''revision''"
  by (auto simp: migrate_body_def check_simps Let_def split: option.splits json.splits)

lemma from_body_revision:
  assumes "cat_from_body lib body dimension JNull = Inr c"
  shows "cat_revision c = int_of (jget body ''revision'')"
  using assms
  by (auto simp: cat_from_body_def check_simps Let_def cat_revision_def dest!: catalog_make_body map_of_migrate
      split: if_splits)

lemma published_revision:
  assumes "seal_law io" "file_publish io c' rs = Inr f'" "file_read lib io f' = Inr c"
  shows "cat_revision c = cat_revision c'"
proof -
  obtain x where x: "f' = Some x" "seal io (cat_body c') rs = Inr x"
    using assms(2) by (auto simp: file_publish_def check_simps)
  then have "unseal io x = Inr (jsort_obj (cat_body c'))" using assms(1) by (auto simp: seal_law_def)
  then have "cat_from_body lib (jsort_obj (cat_body c')) (io_dimension io) JNull = Inr c"
    using assms(3) x(1) by (auto simp: file_read_def check_simps split: if_splits)
  from from_body_revision[OF this] show ?thesis by (simp add: cat_revision_def revision_jsort)
qed

lemma commit_step:
  assumes "commit lib io h h'" "seal_law io" "descending lib io h" "linear lib io h"
  shows "descending lib io h' \<and> linear lib io h'"
proof -
  obtain seen now past c op c' rs f'
    where h: "h = now # past" "h' = f' # now # past" and seen: "seen \<in> set (now # past)"
    and rd: "file_read lib io seen = Inr c" and op: "apply_op lib op c = Inr c'"
    and up: "file_update_if_revision lib io (JInt (cat_revision c)) c' rs now = Inr f'"
    using assms(1) by (elim commitE) (rule that, simp_all)
  obtain cur where cur: "file_read lib io now = Inr cur" "cat_revision cur = cat_revision c"
    and pub: "file_publish io c' rs = Inr f'"
    using up by (auto simp: file_update_if_revision_def check_simps split: if_splits)
  have "cur = c"
  proof -
    obtain j where j: "j < length h" "h ! j = seen" using seen h(1) by (metis in_set_conv_nth)
    have "j = 0"
    proof (rule ccontr)
      assume "j \<noteq> 0"
      then have "cat_revision c < cat_revision cur"
        using assms(3) j rd cur(1) h(1) unfolding descending_def by (metis gr_zeroI nth_Cons_0)
      then show False using cur(2) by simp
    qed
    then show ?thesis using j rd cur(1) h(1) by simp
  qed
  then have lin: "linear lib io h'" using cur(1) op pub assms(4) h by auto
  have "descending lib io h'" unfolding descending_def
  proof (intro allI impI)
    fix i j ci cj
    assume ij: "i < j" "j < length h'" and ri: "file_read lib io (h' ! i) = Inr ci" and rj: "file_read lib io (h' ! j) = Inr cj"
    obtain k where k: "j = Suc k" using ij(1) by (cases j) auto
    have hj: "h' ! j = h ! k" "k < length h" using k h ij(2) by auto
    show "cat_revision cj < cat_revision ci"
    proof (cases i)
      case 0
      then have "cat_revision ci = cat_revision c + 1"
        using published_revision[OF assms(2) pub] ri h(2) apply_op_revision[OF op] by simp
      moreover have "cat_revision cj \<le> cat_revision c"
      proof (cases "k = 0")
        case True
        then show ?thesis using hj rj cur h(1) by simp
      next
        case False
        then have "file_read lib io (h ! 0) = Inr cur" "file_read lib io (h ! k) = Inr cj" "0 < k"
          using cur(1) rj hj h(1) by auto
        then show ?thesis
          using assms(3)[unfolded descending_def, rule_format, OF _ hj(2)] cur(2) by fastforce
      qed
      ultimately show ?thesis by simp
    next
      case (Suc i')
      then have "i' < k" "file_read lib io (h ! i') = Inr ci" "file_read lib io (h ! k) = Inr cj"
        using ij(1) k ri rj h hj by auto
      then show ?thesis using assms(3)[unfolded descending_def, rule_format] hj(2) by blast
    qed
  qed
  with lin show ?thesis by simp
qed

text \<open>C1. No update of the catalog file is ever lost: however the writers interleave, and whatever
  old state each of them had read before it commits with that state's revision, every state of the
  file that a commit produces was made by one operation applied to the state it replaces. Assumes
  that decrypting and parsing what was encrypted yields the same body with its keys sorted.\<close>

theorem catalog_commits_linear:
  assumes "seal_law io" and "(commit lib io)\<^sup>*\<^sup>* [f] history"
  shows "linear lib io history"
proof -
  have "descending lib io history \<and> linear lib io history"
    using assms(2)
  proof (induction rule: rtranclp_induct)
    case base
    then show ?case by (simp add: descending_def)
  next
    case (step h h')
    then show ?case using commit_step[OF step.hyps(2) assms(1)] by blast
  qed
  then show ?thesis ..
qed

definition plain_io :: "jobj catalog_io" where
  "plain_io = \<lparr>seal = (\<lambda>body _. Inr (jsort_obj body)), unseal = Inr, has_identity = True, io_dimension = JStr ''dim''\<rparr>"

lemma plain_io_law: "seal_law plain_io"
  by (simp add: seal_law_def plain_io_def)

theorem catalog_commits_linear_witness:
  "\<exists>f. linear demo_jat_lib plain_io [f, None] \<and> f \<noteq> None"
proof -
  let ?op = "AddSnapshot ''room'' ''Room'' (demo_snapshot ''s1'' CHR ''a'' ''2026-01-02'')"
  have "case bind_r (file_read demo_jat_lib plain_io None) (\<lambda>c. bind_r (apply_op demo_jat_lib ?op c) (\<lambda>c'.
      bind_r (file_update_if_revision demo_jat_lib plain_io (JInt (cat_revision c)) c' [] None) (\<lambda>f.
        Inr f))) of Inl _ \<Rightarrow> False | Inr f \<Rightarrow> (case f of None \<Rightarrow> False | Some _ \<Rightarrow> True)" by code_simp
  then obtain c c' f where r: "file_read demo_jat_lib plain_io None = Inr c" "apply_op demo_jat_lib ?op c = Inr c'"
    "file_update_if_revision demo_jat_lib plain_io (JInt (cat_revision c)) c' [] None = Inr f" "f \<noteq> None"
    by (fastforce simp: bind_r_def split: sum.splits option.splits)
  have "commit demo_jat_lib plain_io [None] [f, None]"
    by (rule commit[OF _ r(1,2,3)]) simp
  then have "linear demo_jat_lib plain_io [f, None]"
    by (intro catalog_commits_linear[OF plain_io_law]) (rule r_into_rtranclp)
  with r(4) show ?thesis by blast
qed

end
