(* ===== verification/PyFloat.thy ===== *)
theory PyFloat
  imports Json
begin

text \<open>
  The IEEE-754 double arithmetic behind Python's \<^verbatim>\<open>float\<close>, as far as lease deadlines
  need it: conversion of an integer and addition, both rounded to the nearest double with
  ties to even. A finite double is the rational it stands for.
\<close>

fun bit_length :: "nat \<Rightarrow> nat" where
  "bit_length n = (if n = 0 then 0 else Suc (bit_length (n div 2)))"

declare bit_length.simps [simp del]

text \<open>The exponent \<open>e\<close> of a positive rational: \<open>2 ^ e \<le> q < 2 ^ (e + 1)\<close>.\<close>

definition binary_exponent :: "rat \<Rightarrow> int" where
  "binary_exponent q =
     (case quotient_of q of
        (n, d) \<Rightarrow>
          let k = int (bit_length (nat n)) - int (bit_length (nat d))
          in if 2 powi k \<le> q then k else k - 1)"

definition round_half_even :: "rat \<Rightarrow> int" where
  "round_half_even x =
     (let f = \<lfloor>x\<rfloor>; r = x - of_int f
      in if r < 1 / 2 then f else if 1 / 2 < r then f + 1 else if even f then f else f + 1)"

text \<open>53 significant bits, and the fixed spacing of the subnormal numbers.\<close>

definition double_ulp :: "rat \<Rightarrow> rat" where
  "double_ulp q = 2 powi (max (binary_exponent q) (- 1022) - 52)"

definition round_double :: "rat \<Rightarrow> rat" where
  "round_double q =
     (if q = 0 then 0
      else if q < 0 then - (of_int (round_half_even (- q / double_ulp (- q))) * double_ulp (- q))
      else of_int (round_half_even (q / double_ulp q)) * double_ulp q)"

text \<open>\<^verbatim>\<open>float(i)\<close>: None where the conversion raises OverflowError.\<close>

definition float_of_int :: "int \<Rightarrow> rat option" where
  "float_of_int i =
     (let q = round_double (of_int i) in if \<bar>q\<bar> < 2 powi 1024 then Some q else None)"

definition float_add :: "rat \<Rightarrow> rat \<Rightarrow> rat" where
  "float_add a b = round_double (a + b)"

text \<open>\<^verbatim>\<open>_finite_number(v)\<close> with \<^verbatim>\<open>float(v)\<close>: the double of a finite number, if it is one.\<close>

definition finite_number :: "json \<Rightarrow> rat option" where
  "finite_number v =
     (case v of JInt i \<Rightarrow> float_of_int i | JFloat q \<Rightarrow> Some q | _ \<Rightarrow> None)"

lemma double_ulp_pos: "0 < double_ulp q"
  by (simp add: double_ulp_def)

lemma round_half_even_nonneg: "0 \<le> x \<Longrightarrow> 0 \<le> round_half_even x"
  by (auto simp: round_half_even_def Let_def)

lemma round_half_even_error: "\<bar>of_int (round_half_even x) - x\<bar> \<le> 1 / 2"
proof -
  have "of_int \<lfloor>x\<rfloor> \<le> x" "x < of_int \<lfloor>x\<rfloor> + 1" by linarith+
  then show ?thesis unfolding round_half_even_def Let_def by (auto simp: abs_if) linarith+
qed

lemma round_double_nonneg: "0 \<le> q \<Longrightarrow> 0 \<le> round_double q"
  using double_ulp_pos[of q] round_half_even_nonneg[of "q / double_ulp q"]
  by (auto simp: round_double_def)

text \<open>A sum is off by at most half a unit in the last place.\<close>

lemma round_double_error: "0 < q \<Longrightarrow> \<bar>round_double q - q\<bar> \<le> double_ulp q / 2"
proof -
  assume q: "0 < q"
  let ?u = "double_ulp q" and ?r = "of_int (round_half_even (q / double_ulp q)) :: rat"
  have u: "0 < ?u" by (rule double_ulp_pos)
  have "round_double q - q = (?r - q / ?u) * ?u" using q u by (simp add: round_double_def field_simps)
  then have "\<bar>round_double q - q\<bar> = \<bar>?r - q / ?u\<bar> * ?u" using u by (simp add: abs_mult)
  also have "\<dots> \<le> 1 / 2 * ?u" using round_half_even_error[of "q / ?u"] u by (intro mult_right_mono) auto
  finally show ?thesis by simp
qed

lemma float_add_nonneg: "0 \<le> a \<Longrightarrow> 0 \<le> b \<Longrightarrow> 0 \<le> float_add a b"
  by (simp add: float_add_def round_double_nonneg)

text \<open>Integers below \<open>2 ^ 53\<close> are doubles.\<close>

lemma bit_length_le: "n < 2 ^ k \<Longrightarrow> bit_length n \<le> k"
proof (induction k arbitrary: n)
  case (Suc k)
  then have "n div 2 < 2 ^ k" by auto
  then show ?case using Suc.IH by (subst bit_length.simps) simp
qed (simp add: bit_length.simps)

lemma round_half_even_int [simp]: "round_half_even (of_int i) = i"
  by (simp add: round_half_even_def)

lemma binary_exponent_int:
  assumes "0 < i" "i < 2 ^ k"
  shows "binary_exponent (of_int i) \<le> int k - 1"
proof -
  have "nat i < 2 ^ k" using assms by (simp add: nat_less_iff)
  moreover have "bit_length 1 = 1" by (simp add: bit_length.simps)
  ultimately show ?thesis using bit_length_le[of "nat i" k] by (simp add: binary_exponent_def Let_def)
qed

lemma round_double_int:
  assumes "0 \<le> i" "i < 2 ^ 53"
  shows "round_double (of_int i) = of_int i"
proof (cases "i = 0")
  case False
  let ?k = "52 - max (binary_exponent (of_int i)) (- 1022)"
  have e: "binary_exponent (of_int i) \<le> 52" using binary_exponent_int[of i 53] assms False by simp
  have u: "double_ulp (of_int i) = inverse (of_int (2 ^ nat ?k))"
    using e by (simp add: double_ulp_def power_int_def power_one_over field_simps)
  have "of_int i / double_ulp (of_int i) = (of_int (i * 2 ^ nat ?k) :: rat)" by (simp add: u field_simps)
  then have "round_half_even (of_int i / double_ulp (of_int i)) = i * 2 ^ nat ?k"
    by (simp only: round_half_even_int)
  then show ?thesis using assms False by (simp add: round_double_def) (simp add: u)
qed (simp add: round_double_def)

lemma float_of_small_int: "0 \<le> i \<Longrightarrow> i < 2 ^ 53 \<Longrightarrow> float_of_int i = Some t \<Longrightarrow> t = of_int i"
  using round_double_int[of i] by (auto simp: float_of_int_def Let_def split: if_splits)

lemma small_finite_number:
  "finite_number v = Some t \<Longrightarrow> 0 \<le> the (num_val v) \<Longrightarrow> the (num_val v) \<le> 86400 \<Longrightarrow> t = the (num_val v)"
  using float_of_small_int by (cases v) (auto simp: finite_number_def)

lemma finite_number_float [simp]: "finite_number (JFloat q) = Some q"
  by (simp add: finite_number_def)

lemma finite_number_simps [simp]:
  "finite_number JNull = None" "finite_number (JStr s) = None" "finite_number (JBool b) = None"
  "finite_number (JList xs) = None" "finite_number (JObj d) = None" "finite_number (JNonFinite s) = None"
  by (simp_all add: finite_number_def)

end
