(* ===== verification/OutboxRecord.thy ===== *)
theory OutboxRecord
  imports PyFloat
begin

text \<open>
  The records of \<^verbatim>\<open>src/josh_room/pcc_outbox.py\<close>: queue states, checkpoints, public
  metadata, queue records with their dictionary form, and the validation that every record
  passes when it is read from its file. The main results: whatever the reader accepts
  satisfies \<open>record_ok\<close>, and a record that satisfies it is read back from its file as
  itself, with its metadata sorted by key.
\<close>

section \<open>Constants, identifiers and keys\<close>

definition MAX_METADATA_BYTES :: nat where "MAX_METADATA_BYTES = 16 * 1024"
definition MAX_CIPHERTEXT_BYTES :: int where "MAX_CIPHERTEXT_BYTES = 8 * 1024 * 1024 * 1024"
definition MAX_EVENT_IDS :: nat where "MAX_EVENT_IDS = 64"

text \<open>\<^verbatim>\<open>[A-Za-z0-9][A-Za-z0-9._~-]{0,127}\<close>.\<close>

definition IDENTIFIER :: "string \<Rightarrow> bool" where
  "IDENTIFIER s \<longleftrightarrow>
     (case s of [] \<Rightarrow> False
      | c # cs \<Rightarrow> is_alnum c \<and> length cs \<le> 127 \<and> list_all (\<lambda>c. is_alnum c \<or> c \<in> set ''._~-'') cs)"

abbreviation DIGEST :: "string \<Rightarrow> bool" where
  "DIGEST \<equiv> is_sha256"

text \<open>\<^verbatim>\<open>objects/sha256/([0-9a-f]{64})\<close>: the group, when the whole string matches.\<close>

definition OBJECT_KEY_GROUP :: "string \<Rightarrow> string option" where
  "OBJECT_KEY_GROUP s =
     (if starts_with s ''objects/sha256/'' \<and> DIGEST (drop 15 s) then Some (drop 15 s) else None)"

definition EVIDENCE_OBJECT_KEY_GROUP :: "string \<Rightarrow> string option" where
  "EVIDENCE_OBJECT_KEY_GROUP s =
     (if starts_with s ''evidence/objects/sha256/'' \<and> DIGEST (drop 24 s) then Some (drop 24 s) else None)"

definition mime_char :: "char \<Rightarrow> bool" where
  "mime_char c \<longleftrightarrow> is_alnum c \<or> c \<in> set ''.+-''"

fun mime_token :: "string \<Rightarrow> bool" where
  "mime_token [] = False"
| "mime_token (c # cs) = (is_alnum c \<and> list_all mime_char cs)"

text \<open>\<^verbatim>\<open>[A-Za-z0-9][A-Za-z0-9.+-]*/[A-Za-z0-9][A-Za-z0-9.+-]*\<close>.\<close>

definition MIME :: "string \<Rightarrow> bool" where
  "MIME s \<longleftrightarrow> (case split_on CHR ''/'' s of [a, b] \<Rightarrow> mime_token a \<and> mime_token b | _ \<Rightarrow> False)"

datatype QueueState =
    QUEUED | CLAIMED | SOURCE_SNAPSHOTTED | PREPARED_ENCRYPTED | OBJECT_UPLOADED
  | INDEX_PUBLISHED | TRIGGER_EXPANDED | COMMITTED | RETRYABLE_FAILURE | QUARANTINED
  | POLICY_DENIED | CAPTURE_GAP

fun state_value :: "QueueState \<Rightarrow> string" where
  "state_value QUEUED = ''queued''"
| "state_value CLAIMED = ''claimed''"
| "state_value SOURCE_SNAPSHOTTED = ''source-snapshotted''"
| "state_value PREPARED_ENCRYPTED = ''prepared-encrypted''"
| "state_value OBJECT_UPLOADED = ''object-uploaded''"
| "state_value INDEX_PUBLISHED = ''index-published''"
| "state_value TRIGGER_EXPANDED = ''trigger-expanded''"
| "state_value COMMITTED = ''committed''"
| "state_value RETRYABLE_FAILURE = ''retryable-failure''"
| "state_value QUARANTINED = ''quarantined''"
| "state_value POLICY_DENIED = ''policy-denied''"
| "state_value CAPTURE_GAP = ''capture-gap''"

definition ALL_STATES :: "QueueState list" where
  "ALL_STATES = [QUEUED, CLAIMED, SOURCE_SNAPSHOTTED, PREPARED_ENCRYPTED, OBJECT_UPLOADED,
     INDEX_PUBLISHED, TRIGGER_EXPANDED, COMMITTED, RETRYABLE_FAILURE, QUARANTINED, POLICY_DENIED, CAPTURE_GAP]"

text \<open>\<^verbatim>\<open>QueueState(value)\<close>, None where it raises.\<close>

definition queue_state_of :: "json \<Rightarrow> QueueState option" where
  "queue_state_of v = (case v of JStr s \<Rightarrow> find (\<lambda>q. state_value q = s) ALL_STATES | _ \<Rightarrow> None)"

text \<open>
  What the queue takes from its surroundings: the interpreter's text form of a float in both
  directions and SHA-256, and the quotas and lease duration it is constructed with.
\<close>

record outbox_env =
  float_repr :: "rat \<Rightarrow> string"
  float_parse :: "string \<Rightarrow> rat"
  sha256_hex :: "string \<Rightarrow> string"
  max_events :: nat
  max_bytes :: int
  lease_secs :: rat

text \<open>
  \<^verbatim>\<open>PccOutbox.__init__\<close>: the quotas are at least one and the lease lasts at most a day.
  A directory is the explicit state the operations below take.
\<close>

definition outbox_init ::
  "(rat \<Rightarrow> string) \<Rightarrow> (string \<Rightarrow> rat) \<Rightarrow> (string \<Rightarrow> string) \<Rightarrow> json \<Rightarrow> json \<Rightarrow> json \<Rightarrow> outbox_env result" where
  "outbox_init fr pf sha events bytes lease =
     bind_r (checks [
        raise_if (\<not> type_is_int events \<or> int_of events < 1) (ValueError ''outbox event quota is invalid''),
        raise_if (\<not> type_is_int bytes \<or> int_of bytes < 1) (ValueError ''outbox byte quota is invalid''),
        raise_if (case finite_number lease of None \<Rightarrow> True
                  | Some _ \<Rightarrow> \<not> (0 < the (num_val lease) \<and> the (num_val lease) \<le> 86400))
          (ValueError ''outbox lease duration is invalid'')]) (\<lambda>_.
     Inr \<lparr>float_repr = fr, float_parse = pf, sha256_hex = sha, max_events = nat (int_of events),
       max_bytes = int_of bytes, lease_secs = the (finite_number lease)\<rparr>)"


section \<open>Validators\<close>

definition as_identifier :: "json \<Rightarrow> string result" where
  "as_identifier v =
     (case v of JStr s \<Rightarrow> if IDENTIFIER s then Inr s else Inl (ValueError ''identifier is invalid'')
      | _ \<Rightarrow> Inl (ValueError ''identifier is invalid''))"

record checkpoint =
  cp_source :: string
  cp_representation :: string
  cp_start :: int
  cp_end :: int
  cp_prefix :: string

definition CHECKPOINT_FIELDS :: "string list" where
  "CHECKPOINT_FIELDS = [''source'', ''representation'', ''start'', ''end'', ''prefix_sha256'']"

definition checkpoint_to_obj :: "checkpoint \<Rightarrow> jobj" where
  "checkpoint_to_obj c =
     [(''source'', JStr (cp_source c)), (''representation'', JStr (cp_representation c)),
      (''start'', JInt (cp_start c)), (''end'', JInt (cp_end c)), (''prefix_sha256'', JStr (cp_prefix c))]"

definition validate_checkpoint :: "json \<Rightarrow> checkpoint result" where
  "validate_checkpoint v =
     bind_r (raise_if (\<not> is_obj v \<or> set (keys (obj_of v)) \<noteq> set CHECKPOINT_FIELDS)
       (ValueError ''checkpoint is invalid'')) (\<lambda>_.
     let d = obj_of v in
     bind_r (as_identifier (jget d ''source'')) (\<lambda>source.
     bind_r (as_identifier (jget d ''representation'')) (\<lambda>representation.
     let st = jget d ''start''; en = jget d ''end''; prefix = jget d ''prefix_sha256'' in
     bind_r (checks [
        raise_if (\<not> type_is_int st \<or> \<not> type_is_int en \<or> int_of st < 0 \<or> int_of en < int_of st)
          (ValueError ''checkpoint boundary is invalid''),
        raise_if (\<not> is_str prefix \<or> \<not> DIGEST (str_of prefix)) (ValueError ''checkpoint digest is invalid'')]) (\<lambda>_.
     Inr \<lparr>cp_source = source, cp_representation = representation, cp_start = int_of st, cp_end = int_of en,
       cp_prefix = str_of prefix\<rparr>))))"

text \<open>The source adapter's cursor, carried by an expanded checkpoint only.\<close>

record cursor =
  next_record_index :: int
  next_byte_offset :: int
  observed_size :: int
  chain_head :: "string option"

type_synonym expanded = "checkpoint \<times> cursor option"

definition CURSOR_FIELDS :: "string list" where
  "CURSOR_FIELDS = [''next_record_index'', ''next_byte_offset'', ''observed_size'', ''chain_head_sha256'']"

abbreviation opt_str :: "string option \<Rightarrow> json" where
  "opt_str x \<equiv> (case x of None \<Rightarrow> JNull | Some s \<Rightarrow> JStr s)"

definition expanded_to_obj :: "expanded \<Rightarrow> jobj" where
  "expanded_to_obj e =
     checkpoint_to_obj (fst e) @
     (case snd e of None \<Rightarrow> []
      | Some c \<Rightarrow> [(''next_record_index'', JInt (next_record_index c)), (''next_byte_offset'', JInt (next_byte_offset c)),
          (''observed_size'', JInt (observed_size c)), (''chain_head_sha256'', opt_str (chain_head c))])"

definition validate_expanded_checkpoint :: "json \<Rightarrow> expanded result" where
  "validate_expanded_checkpoint v =
     bind_r (raise_if (\<not> is_obj v) (TypeError ''expanded checkpoint is invalid'')) (\<lambda>_.
     let d = obj_of v in
     if set (keys d) = set CHECKPOINT_FIELDS
     then bind_r (validate_checkpoint v) (\<lambda>c. Inr (c, None))
     else
       bind_r (raise_if (set (keys d) \<noteq> set CHECKPOINT_FIELDS \<union> set CURSOR_FIELDS)
         (ValueError ''expanded checkpoint fields are invalid'')) (\<lambda>_.
       bind_r (validate_checkpoint (JObj (map (\<lambda>k. (k, jget d k)) CHECKPOINT_FIELDS))) (\<lambda>base.
       let index = jget d ''next_record_index''; offset = jget d ''next_byte_offset'';
           observed = jget d ''observed_size''; chain = jget d ''chain_head_sha256'' in
       bind_r (checks [
          raise_if (\<exists>item \<in> set [index, offset, observed]. \<not> type_is_int item \<or> int_of item < 0)
            (ValueError ''expanded checkpoint cursor is invalid''),
          raise_if (int_of offset \<noteq> cp_end base \<or> cp_start base > cp_end base)
            (ValueError ''expanded checkpoint boundary is invalid''),
          raise_if (int_of observed < int_of offset) (ValueError ''expanded checkpoint size is invalid''),
          raise_if (chain \<noteq> JNull \<and> (\<not> is_str chain \<or> \<not> DIGEST (str_of chain)))
            (ValueError ''expanded checkpoint chain is invalid'')]) (\<lambda>_.
       Inr (base, Some \<lparr>next_record_index = int_of index, next_byte_offset = int_of offset,
         observed_size = int_of observed,
         chain_head = (if chain = JNull then None else Some (str_of chain))\<rparr>)))))"


subsection \<open>Public metadata\<close>

definition METADATA_ALLOWED :: "string list" where
  "METADATA_ALLOWED =
     [''workspace_id'', ''object_kind'', ''destination_class'', ''destination_binding_id'',
      ''source_surface'', ''source_adapter'', ''source_adapter_version'', ''trigger'',
      ''index_event_id'', ''content_type'', ''content_sha256'', ''content_size'', ''evidence_kind'', ''evidence_event_id'',
      ''policy_decision'', ''capture_status'', ''sensitivity'', ''recipient_set_fingerprint'',
      ''ciphertext_sha256'', ''ciphertext_size'', ''object_key'', ''index_id'']"

definition METADATA_IDENTIFIERS :: "string list" where
  "METADATA_IDENTIFIERS =
     [''workspace_id'', ''object_kind'', ''destination_binding_id'', ''source_surface'', ''source_adapter'',
      ''source_adapter_version'', ''evidence_kind'', ''evidence_event_id'', ''index_event_id'', ''trigger'']"

text \<open>
  One turn of the loop over the items: the check of the value, and whether the branch stores
  it. No branch of the code names \<^verbatim>\<open>index_id\<close>, so that field is dropped.
\<close>

definition metadata_item :: "string \<Rightarrow> json \<Rightarrow> unit result" where
  "metadata_item k v =
     (if k \<in> set METADATA_IDENTIFIERS then bind_r (as_identifier v) (\<lambda>_. Inr ())
      else if k = ''destination_class'' then
        require_in v [''local-only'', ''private-r2''] (ValueError ''public metadata destination is invalid'')
      else if k = ''recipient_set_fingerprint'' then
        raise_if (\<not> is_str v \<or> \<not> DIGEST (str_of v)) (ValueError ''public metadata recipient fingerprint is invalid'')
      else if k = ''content_type'' then
        raise_if (\<not> is_str v \<or> length (str_of v) > 128 \<or> \<not> MIME (str_of v))
          (ValueError ''public metadata content type is invalid'')
      else if k \<in> {''content_sha256'', ''ciphertext_sha256''} then
        raise_if (\<not> is_str v \<or> \<not> DIGEST (str_of v)) (ValueError ''public metadata digest is invalid'')
      else if k \<in> {''content_size'', ''ciphertext_size''} then
        raise_if (\<not> type_is_int v \<or> \<not> (0 \<le> int_of v \<and> int_of v \<le> MAX_CIPHERTEXT_BYTES))
          (ValueError ''public metadata size is invalid'')
      else if k = ''object_key'' then
        raise_if (\<not> is_str v \<or> OBJECT_KEY_GROUP (str_of v) = None) (ValueError ''public metadata object key is invalid'')
      else if k = ''policy_decision'' then
        require_in v [''allow'', ''deny'', ''local-only'', ''quarantine'']
          (ValueError ''public metadata policy decision is invalid'')
      else if k = ''capture_status'' then
        require_in v [''partial'', ''complete'', ''recovered'', ''quarantined'']
          (ValueError ''public metadata capture status is invalid'')
      else if k = ''sensitivity'' then
        require_in v [''normal'', ''sensitive'', ''unknown''] (ValueError ''public metadata sensitivity is invalid'')
      else Inr ())"

definition metadata_stored :: "string \<Rightarrow> bool" where
  "metadata_stored k \<longleftrightarrow> k \<noteq> ''index_id''"

definition validate_metadata :: "outbox_env \<Rightarrow> json \<Rightarrow> jobj result" where
  "validate_metadata env v =
     bind_r (checks [
        raise_if (\<not> is_obj v) (TypeError ''public metadata is invalid''),
        raise_if (\<exists>k \<in> set (keys (obj_of v)). k \<notin> set METADATA_ALLOWED)
          (ValueError ''public metadata contains an unsupported field''),
        checks (map (\<lambda>(k, item). metadata_item k item) (obj_of v))]) (\<lambda>_.
     let result = filter (\<lambda>(k, item). metadata_stored k) (obj_of v) in
     bind_r (raise_if (utf8_len (json_dumps True (float_repr env) (JObj result)) > MAX_METADATA_BYTES)
       (ValueError ''public metadata exceeds bound'')) (\<lambda>_.
     Inr result))"

text \<open>\<^verbatim>\<open>metadata or {}\<close>.\<close>

definition or_empty :: "json \<Rightarrow> json" where
  "or_empty v = (if truthy v then v else JObj [])"


section \<open>Queue records\<close>

record queue_record =
  q_event_id :: string
  q_session_id :: string
  q_checkpoint :: checkpoint
  q_metadata :: jobj
  q_state :: QueueState
  q_sequence :: int
  q_event_ids :: "string list"
  q_is_final :: bool
  q_final_event_id :: "string option"
  q_owner :: "string option"
  q_lease_until :: "rat option"
  q_lease_seconds :: rat
  q_resume_state :: QueueState
  q_failure_code :: "string option"
  q_object_key :: "string option"
  q_ciphertext_sha256 :: "string option"
  q_ciphertext_size :: "int option"
  q_index_id :: "string option"
  q_expanded_event_ids :: "string list"
  q_expanded_checkpoint :: "expanded option"

definition checkpoint_key :: "string \<Rightarrow> checkpoint \<Rightarrow> string \<times> string \<times> string \<times> int \<times> int \<times> string" where
  "checkpoint_key session c =
     (session, cp_source c, cp_representation c, cp_start c, cp_end c, cp_prefix c)"

definition record_to_obj :: "queue_record \<Rightarrow> jobj" where
  "record_to_obj r =
     [(''event_id'', JStr (q_event_id r)),
      (''session_id'', JStr (q_session_id r)),
      (''checkpoint'', JObj (checkpoint_to_obj (q_checkpoint r))),
      (''metadata'', JObj (q_metadata r)),
      (''state'', JStr (state_value (q_state r))),
      (''sequence'', JInt (q_sequence r)),
      (''event_ids'', JList (map JStr (q_event_ids r))),
      (''is_final'', JBool (q_is_final r)),
      (''final_event_id'', opt_str (q_final_event_id r)),
      (''owner'', opt_str (q_owner r)),
      (''lease_until'', case q_lease_until r of None \<Rightarrow> JNull | Some t \<Rightarrow> JFloat t),
      (''lease_seconds'', JFloat (q_lease_seconds r)),
      (''resume_state'', JStr (state_value (q_resume_state r))),
      (''failure_code'', opt_str (q_failure_code r)),
      (''object_key'', opt_str (q_object_key r)),
      (''ciphertext_sha256'', opt_str (q_ciphertext_sha256 r)),
      (''ciphertext_size'', case q_ciphertext_size r of None \<Rightarrow> JNull | Some n \<Rightarrow> JInt n),
      (''index_id'', opt_str (q_index_id r)),
      (''expanded_event_ids'', JList (map JStr (q_expanded_event_ids r))),
      (''expanded_checkpoint'', case q_expanded_checkpoint r of None \<Rightarrow> JNull | Some e \<Rightarrow> JObj (expanded_to_obj e))]"

definition RECORD_REQUIRED :: "string list" where
  "RECORD_REQUIRED =
     [''event_id'', ''session_id'', ''checkpoint'', ''metadata'', ''state'', ''sequence'', ''event_ids'',
      ''is_final'', ''final_event_id'', ''owner'', ''lease_until'', ''lease_seconds'', ''resume_state'',
      ''failure_code'', ''object_key'', ''ciphertext_sha256'', ''ciphertext_size'', ''index_id'']"

definition RECORD_OPTIONAL :: "string list" where
  "RECORD_OPTIONAL = [''expanded_event_ids'', ''expanded_checkpoint'']"

definition progress_states :: "QueueState list" where
  "progress_states = [SOURCE_SNAPSHOTTED, PREPARED_ENCRYPTED, OBJECT_UPLOADED, INDEX_PUBLISHED]"

definition unowned_states :: "QueueState list" where
  "unowned_states = [QUEUED, RETRYABLE_FAILURE, CAPTURE_GAP, QUARANTINED, POLICY_DENIED, COMMITTED, TRIGGER_EXPANDED]"

text \<open>The checks that relate the fields of a record to each other, in the order of the reader.\<close>

definition check_relations :: "queue_record \<Rightarrow> unit result" where
  "check_relations r =
     (let st = q_state r; resume = q_resume_state r in
      checks [
        raise_if (q_event_id r \<notin> set (q_event_ids r)) (ValueError ''record primary event''),
        raise_if (q_is_final r \<and> q_final_event_id r = None) (ValueError ''record final event''),
        raise_if (q_final_event_id r \<noteq> None \<and> (\<not> q_is_final r \<or> the (q_final_event_id r) \<notin> set (q_event_ids r)))
          (ValueError ''record final event''),
        raise_if (st = QUEUED \<and> resume \<noteq> QUEUED) (ValueError ''queued record progress''),
        raise_if (st = CLAIMED \<and> resume \<notin> set (QUEUED # progress_states)) (ValueError ''claimed record progress''),
        raise_if (st \<in> set progress_states \<and> resume \<noteq> st) (ValueError ''progress record stage''),
        raise_if (st \<in> {RETRYABLE_FAILURE, CAPTURE_GAP} \<and> resume \<notin> set (QUEUED # progress_states))
          (ValueError ''failure record progress''),
        raise_if (st = COMMITTED \<and> (resume \<noteq> INDEX_PUBLISHED \<or> q_index_id r = None)) (ValueError ''committed record index''),
        raise_if (st = INDEX_PUBLISHED \<and> q_index_id r = None) (ValueError ''indexed record index''),
        raise_if (st \<in> {OBJECT_UPLOADED, INDEX_PUBLISHED, COMMITTED} \<and> q_object_key r = None)
          (ValueError ''published record object''),
        raise_if (st \<in> {PREPARED_ENCRYPTED, OBJECT_UPLOADED, INDEX_PUBLISHED, COMMITTED} \<and>
            (q_ciphertext_sha256 r = None \<or> q_ciphertext_size r = None)) (ValueError ''prepared record ciphertext''),
        raise_if (q_owner r = None \<and> q_lease_until r \<noteq> None) (ValueError ''unowned record lease''),
        raise_if (q_owner r \<noteq> None \<and> q_lease_until r = None) (ValueError ''owned record lease''),
        raise_if (st \<in> set unowned_states \<and> q_owner r \<noteq> None) (ValueError ''unowned state owner''),
        raise_if (st = CLAIMED \<and> q_owner r = None) (ValueError ''claimed record owner'')])"

text \<open>\<^verbatim>\<open>tuple(value)\<close> of a decoded JSON value: a string gives its characters, a dictionary its keys.\<close>

fun tuple_of :: "json \<Rightarrow> json list result" where
  "tuple_of (JList xs) = Inr xs"
| "tuple_of (JStr s) = Inr (map (\<lambda>c. JStr [c]) s)"
| "tuple_of (JObj d) = Inr (map JStr (keys d))"
| "tuple_of _ = Inl (TypeError ''object is not iterable'')"

definition is_identifier :: "json \<Rightarrow> bool" where
  "is_identifier v \<longleftrightarrow> is_str v \<and> IDENTIFIER (str_of v)"

definition str_opt :: "json \<Rightarrow> string option" where
  "str_opt v = (if v = JNull then None else Some (str_of v))"

definition is_object_key :: "string \<Rightarrow> bool" where
  "is_object_key s \<longleftrightarrow> OBJECT_KEY_GROUP s \<noteq> None \<or> EVIDENCE_OBJECT_KEY_GROUP s \<noteq> None"

text \<open>The checks of single fields, in the order of the reader.\<close>

definition check_fields :: "jobj \<Rightarrow> unit result" where
  "check_fields d =
     (let ids = jget d ''event_ids''; fin = jget d ''final_event_id''; lease = jget d ''lease_until'';
          secs = jget d ''lease_seconds''; ok = jget d ''object_key''; dg = jget d ''ciphertext_sha256'';
          sz = jget d ''ciphertext_size'' in
      checks [
        raise_if (queue_state_of (jget d ''state'') = None \<or> queue_state_of (jget d ''resume_state'') = None)
          (ValueError ''record state''),
        raise_if (\<not> type_is_int (jget d ''sequence'') \<or> int_of (jget d ''sequence'') < 1) (ValueError ''record sequence''),
        raise_if (\<not> is_list ids \<or> \<not> (1 \<le> length (list_of ids) \<and> length (list_of ids) \<le> MAX_EVENT_IDS)
            \<or> \<not> list_all is_identifier (list_of ids) \<or> \<not> distinct (list_of ids)) (ValueError ''record event ids''),
        raise_if (\<not> type_is_bool (jget d ''is_final'')) (ValueError ''record final''),
        raise_if (fin \<noteq> JNull \<and> \<not> is_identifier fin) (ValueError ''record final event''),
        (if jget d ''owner'' = JNull then Inr () else bind_r (as_identifier (jget d ''owner'')) (\<lambda>_. Inr ())),
        raise_if (lease \<noteq> JNull \<and> (finite_number lease = None \<or> the (num_val lease) < 0)) (ValueError ''record lease''),
        raise_if (finite_number secs = None \<or> \<not> (0 < the (num_val secs) \<and> the (num_val secs) \<le> 86400))
          (ValueError ''record lease duration''),
        (if jget d ''failure_code'' = JNull then Inr () else bind_r (as_identifier (jget d ''failure_code'')) (\<lambda>_. Inr ())),
        raise_if (ok \<noteq> JNull \<and> (\<not> is_str ok \<or> \<not> is_object_key (str_of ok))) (ValueError ''record object key''),
        raise_if (dg \<noteq> JNull \<and> \<not> is_str dg) (TypeError ''expected string''),
        raise_if (dg \<noteq> JNull \<and> \<not> DIGEST (str_of dg)) (ValueError ''record ciphertext digest''),
        raise_if (sz \<noteq> JNull \<and> (\<not> type_is_int sz \<or> \<not> (0 \<le> int_of sz \<and> int_of sz \<le> MAX_CIPHERTEXT_BYTES)))
          (ValueError ''record ciphertext size''),
        (if jget d ''index_id'' = JNull then Inr () else bind_r (as_identifier (jget d ''index_id'')) (\<lambda>_. Inr ()))])"

text \<open>The record the fields describe; the expanded fields are validated last.\<close>

definition record_of_fields :: "jobj \<Rightarrow> string \<Rightarrow> string \<Rightarrow> checkpoint \<Rightarrow> jobj \<Rightarrow> queue_record" where
  "record_of_fields d event_id session_id c m =
     \<lparr>q_event_id = event_id, q_session_id = session_id, q_checkpoint = c, q_metadata = m,
      q_state = the (queue_state_of (jget d ''state'')), q_sequence = int_of (jget d ''sequence''),
      q_event_ids = map str_of (list_of (jget d ''event_ids'')), q_is_final = (jget d ''is_final'' = JBool True),
      q_final_event_id = str_opt (jget d ''final_event_id''), q_owner = str_opt (jget d ''owner''),
      q_lease_until = finite_number (jget d ''lease_until''),
      q_lease_seconds = the (finite_number (jget d ''lease_seconds'')),
      q_resume_state = the (queue_state_of (jget d ''resume_state'')),
      q_failure_code = str_opt (jget d ''failure_code''), q_object_key = str_opt (jget d ''object_key''),
      q_ciphertext_sha256 = str_opt (jget d ''ciphertext_sha256''),
      q_ciphertext_size = (if jget d ''ciphertext_size'' = JNull then None else Some (int_of (jget d ''ciphertext_size''))),
      q_index_id = str_opt (jget d ''index_id''), q_expanded_event_ids = [], q_expanded_checkpoint = None\<rparr>"

definition record_from_dict :: "outbox_env \<Rightarrow> json \<Rightarrow> queue_record result" where
  "record_from_dict env v =
     bind_r (raise_if (\<not> is_obj v) (TypeError ''record shape'')) (\<lambda>_.
     let d = obj_of v in
     bind_r (raise_if (\<not> set RECORD_REQUIRED \<subseteq> set (keys d) \<or>
         \<not> set (keys d) \<subseteq> set RECORD_REQUIRED \<union> set RECORD_OPTIONAL) (ValueError ''record fields'')) (\<lambda>_.
     bind_r (as_identifier (jget d ''event_id'')) (\<lambda>event_id.
     bind_r (as_identifier (jget d ''session_id'')) (\<lambda>session_id.
     bind_r (validate_checkpoint (jget d ''checkpoint'')) (\<lambda>c.
     bind_r (validate_metadata env (jget d ''metadata'')) (\<lambda>m.
     bind_r (check_fields d) (\<lambda>_.
     let r = record_of_fields d event_id session_id c m in
     bind_r (check_relations r) (\<lambda>_.
     bind_r (tuple_of (case map_of d ''expanded_event_ids'' of None \<Rightarrow> JList [] | Some x \<Rightarrow> x)) (\<lambda>expanded_ids.
     bind_r (raise_if (length expanded_ids > MAX_EVENT_IDS \<or> \<not> list_all is_identifier expanded_ids)
       (ValueError ''record expanded event ids'')) (\<lambda>_.
     bind_r (let e = jget d ''expanded_checkpoint'' in
             if e = JNull then Inr None else bind_r (validate_expanded_checkpoint e) (\<lambda>x. Inr (Some x))) (\<lambda>ec.
     Inr (r\<lparr>q_expanded_event_ids := map str_of expanded_ids, q_expanded_checkpoint := ec\<rparr>))))))))))))"

text \<open>The bytes of a record's file, and what reading a file gives.\<close>

definition record_body :: "outbox_env \<Rightarrow> queue_record \<Rightarrow> string" where
  "record_body env r = json_dumps True (float_repr env) (JObj (record_to_obj r))"

definition read_record :: "outbox_env \<Rightarrow> string \<Rightarrow> queue_record result" where
  "read_record env txt = bind_r (json_loads (default_hooks (float_parse env)) txt) (record_from_dict env)"



section \<open>What the reader accepts\<close>

definition checkpoint_ok :: "checkpoint \<Rightarrow> bool" where
  "checkpoint_ok c \<longleftrightarrow> IDENTIFIER (cp_source c) \<and> IDENTIFIER (cp_representation c) \<and>
     0 \<le> cp_start c \<and> cp_start c \<le> cp_end c \<and> DIGEST (cp_prefix c)"

definition cursor_ok :: "checkpoint \<Rightarrow> cursor \<Rightarrow> bool" where
  "cursor_ok c k \<longleftrightarrow> 0 \<le> next_record_index k \<and> next_byte_offset k = cp_end c \<and>
     next_byte_offset k \<le> observed_size k \<and> pred_option DIGEST (chain_head k)"

definition expanded_ok :: "expanded \<Rightarrow> bool" where
  "expanded_ok e \<longleftrightarrow> checkpoint_ok (fst e) \<and> pred_option (cursor_ok (fst e)) (snd e)"

definition metadata_ok :: "outbox_env \<Rightarrow> jobj \<Rightarrow> bool" where
  "metadata_ok env d \<longleftrightarrow> wf_dict d \<and>
     list_all (\<lambda>(k, v). k \<in> set METADATA_ALLOWED \<and> metadata_stored k \<and> metadata_item k v = Inr ()) d \<and>
     utf8_len (json_dumps True (float_repr env) (JObj d)) \<le> MAX_METADATA_BYTES"

definition fields_ok :: "queue_record \<Rightarrow> bool" where
  "fields_ok r \<longleftrightarrow> IDENTIFIER (q_event_id r) \<and> IDENTIFIER (q_session_id r) \<and> 1 \<le> q_sequence r \<and>
     1 \<le> length (q_event_ids r) \<and> length (q_event_ids r) \<le> MAX_EVENT_IDS \<and>
     list_all IDENTIFIER (q_event_ids r) \<and> distinct (q_event_ids r) \<and>
     pred_option IDENTIFIER (q_final_event_id r) \<and> pred_option IDENTIFIER (q_owner r) \<and>
     pred_option (\<lambda>t. 0 \<le> t) (q_lease_until r) \<and> 0 < q_lease_seconds r \<and> q_lease_seconds r \<le> 86400 \<and>
     pred_option IDENTIFIER (q_failure_code r) \<and> pred_option is_object_key (q_object_key r) \<and>
     pred_option DIGEST (q_ciphertext_sha256 r) \<and>
     pred_option (\<lambda>n. 0 \<le> n \<and> n \<le> MAX_CIPHERTEXT_BYTES) (q_ciphertext_size r) \<and>
     pred_option IDENTIFIER (q_index_id r) \<and>
     length (q_expanded_event_ids r) \<le> MAX_EVENT_IDS \<and> list_all IDENTIFIER (q_expanded_event_ids r)"

definition record_ok :: "outbox_env \<Rightarrow> queue_record \<Rightarrow> bool" where
  "record_ok env r \<longleftrightarrow> fields_ok r \<and> checkpoint_ok (q_checkpoint r) \<and> metadata_ok env (q_metadata r) \<and>
     pred_option expanded_ok (q_expanded_checkpoint r) \<and> check_relations r = Inr ()"

text \<open>A record as its own reader returns it: the metadata sorted by key.\<close>

definition canon :: "queue_record \<Rightarrow> queue_record" where
  "canon r = r\<lparr>q_metadata := jsort_obj (q_metadata r)\<rparr>"

lemma as_identifier_Inr [check_simps]: "as_identifier v = Inr s \<longleftrightarrow> v = JStr s \<and> IDENTIFIER s"
  by (cases v) (auto simp: as_identifier_def)

lemma as_identifier_JStr [simp]: "IDENTIFIER s \<Longrightarrow> as_identifier (JStr s) = Inr s"
  by (simp add: as_identifier_def)

lemma as_identifier_error: "as_identifier v = Inl e \<Longrightarrow> e = ValueError ''identifier is invalid''"
  by (cases v) (auto simp: as_identifier_def split: if_splits)

lemma is_identifier_JStr [simp]: "is_identifier (JStr s) = IDENTIFIER s"
  by (simp add: is_identifier_def)

lemma is_identifier_conv: "is_identifier v \<longleftrightarrow> (\<exists>s. v = JStr s \<and> IDENTIFIER s)"
  by (cases v) (auto simp: is_identifier_def)

lemma queue_state_of_value [simp]: "queue_state_of (JStr (state_value q)) = Some q"
  by (cases q) (simp_all add: queue_state_of_def ALL_STATES_def)

lemma str_opt_opt_str [simp]: "str_opt (opt_str x) = x"
  by (cases x) (simp_all add: str_opt_def)

lemma opt_str_null [simp]: "(opt_str x = JNull) = (x = None)"
  by (cases x) simp_all

subsection \<open>Checkpoints\<close>

lemma checkpoint_get [simp]:
  "jget (checkpoint_to_obj c) ''source'' = JStr (cp_source c)"
  "jget (checkpoint_to_obj c) ''representation'' = JStr (cp_representation c)"
  "jget (checkpoint_to_obj c) ''start'' = JInt (cp_start c)"
  "jget (checkpoint_to_obj c) ''end'' = JInt (cp_end c)"
  "jget (checkpoint_to_obj c) ''prefix_sha256'' = JStr (cp_prefix c)"
  by (simp_all add: checkpoint_to_obj_def jget_def)

lemma checkpoint_keys: "fst ` set (checkpoint_to_obj c) = set CHECKPOINT_FIELDS"
  by (simp add: checkpoint_to_obj_def CHECKPOINT_FIELDS_def)

lemma wf_checkpoint: "wf_dict (checkpoint_to_obj c)"
  by (simp add: checkpoint_to_obj_def)

text \<open>The validator sees the keys and the values of a dictionary, not their order.\<close>

lemma validate_checkpoint_fields:
  assumes "fst ` set d = set CHECKPOINT_FIELDS" "\<forall>k \<in> set CHECKPOINT_FIELDS. jget d k = jget (checkpoint_to_obj c) k"
    and "checkpoint_ok c"
  shows "validate_checkpoint (JObj d) = Inr c"
  using assms by (simp add: validate_checkpoint_def Let_def checkpoint_ok_def CHECKPOINT_FIELDS_def)

lemma validate_checkpoint_obj:
  "checkpoint_ok c \<Longrightarrow> validate_checkpoint (JObj (jsort_obj (checkpoint_to_obj c))) = Inr c"
  by (intro validate_checkpoint_fields)
     (auto simp: checkpoint_keys jget_jsort_obj[OF wf_checkpoint] CHECKPOINT_FIELDS_def)

lemma validate_checkpoint_sound: "validate_checkpoint v = Inr c \<Longrightarrow> checkpoint_ok c"
  by (cases v) (auto simp: validate_checkpoint_def Let_def check_simps checkpoint_ok_def is_str_conv type_is_int_conv)

lemma expanded_get [simp]:
  "jget (expanded_to_obj e) ''source'' = JStr (cp_source (fst e))"
  "jget (expanded_to_obj e) ''representation'' = JStr (cp_representation (fst e))"
  "jget (expanded_to_obj e) ''start'' = JInt (cp_start (fst e))"
  "jget (expanded_to_obj e) ''end'' = JInt (cp_end (fst e))"
  "jget (expanded_to_obj e) ''prefix_sha256'' = JStr (cp_prefix (fst e))"
  by (simp_all add: expanded_to_obj_def checkpoint_to_obj_def jget_def)

lemma expanded_cursor_get [simp]:
  "jget (expanded_to_obj (c, Some k)) ''next_record_index'' = JInt (next_record_index k)"
  "jget (expanded_to_obj (c, Some k)) ''next_byte_offset'' = JInt (next_byte_offset k)"
  "jget (expanded_to_obj (c, Some k)) ''observed_size'' = JInt (observed_size k)"
  "jget (expanded_to_obj (c, Some k)) ''chain_head_sha256'' = opt_str (chain_head k)"
  by (simp_all add: expanded_to_obj_def checkpoint_to_obj_def jget_def)

lemma wf_expanded: "wf_dict (expanded_to_obj e)"
  by (cases "snd e") (simp_all add: expanded_to_obj_def checkpoint_to_obj_def)

lemma expanded_keys:
  "fst ` set (expanded_to_obj e) =
     set CHECKPOINT_FIELDS \<union> (if snd e = None then {} else set CURSOR_FIELDS)"
  by (cases "snd e")
     (simp_all add: expanded_to_obj_def checkpoint_to_obj_def CHECKPOINT_FIELDS_def CURSOR_FIELDS_def insert_commute)

lemma cursor_fields_new: "set CHECKPOINT_FIELDS \<union> set CURSOR_FIELDS \<noteq> set CHECKPOINT_FIELDS"
proof
  assume eq: "set CHECKPOINT_FIELDS \<union> set CURSOR_FIELDS = set CHECKPOINT_FIELDS"
  have "''observed_size'' \<in> set CHECKPOINT_FIELDS \<union> set CURSOR_FIELDS" by (simp add: CURSOR_FIELDS_def)
  then have "''observed_size'' \<in> set CHECKPOINT_FIELDS" by (simp only: eq)
  then show False by (simp add: CHECKPOINT_FIELDS_def)
qed

lemma validate_expanded_obj:
  assumes "expanded_ok e"
  shows "validate_expanded_checkpoint (JObj (jsort_obj (expanded_to_obj e))) = Inr e"
proof -
  obtain c ko where e: "e = (c, ko)" by (cases e)
  let ?d = "jsort_obj (expanded_to_obj e)"
  note get = jget_jsort_obj[OF wf_expanded]
  have cok: "checkpoint_ok c" using assms e by (simp add: expanded_ok_def)
  show ?thesis
  proof (cases ko)
    case None
    have "validate_checkpoint (JObj ?d) = Inr c"
      by (rule validate_checkpoint_fields)
         (auto simp: get expanded_keys e None cok CHECKPOINT_FIELDS_def)
    then show ?thesis using e None by (simp add: validate_expanded_checkpoint_def expanded_keys)
  next
    case (Some k)
    let ?b = "map (\<lambda>f. (f, jget ?d f)) CHECKPOINT_FIELDS"
    have "validate_checkpoint (JObj ?b) = Inr c"
    proof (rule validate_checkpoint_fields)
      show "fst ` set ?b = set CHECKPOINT_FIELDS" by (simp add: image_image)
      show "\<forall>f \<in> set CHECKPOINT_FIELDS. jget ?b f = jget (checkpoint_to_obj c) f"
        by (simp add: CHECKPOINT_FIELDS_def get e) (simp add: jget_def)
    qed (rule cok)
    moreover have "cursor_ok c k" using assms e Some by (simp add: expanded_ok_def)
    ultimately show ?thesis
      using e Some cok
      by (cases k; cases "chain_head k")
         (simp_all add: validate_expanded_checkpoint_def expanded_keys cursor_fields_new Let_def get cursor_ok_def checkpoint_ok_def)
  qed
qed

lemma validate_expanded_sound: "validate_expanded_checkpoint v = Inr e \<Longrightarrow> expanded_ok e"
  by (cases v)
     (auto simp: validate_expanded_checkpoint_def Let_def check_simps expanded_ok_def cursor_ok_def is_str_conv
        type_is_int_conv dest!: validate_checkpoint_sound split: if_splits)


subsection \<open>Metadata\<close>

lemma metadata_item_kind:
  assumes "metadata_item k v = Inr ()" "k \<in> set METADATA_ALLOWED" "metadata_stored k"
  shows "is_str v \<or> type_is_int v"
proof (rule ccontr)
  assume n: "\<not> (is_str v \<or> type_is_int v)"
  then have "as_identifier v = Inl (ValueError ''identifier is invalid'')" "require_in v ss e \<noteq> Inr ()" for ss e
    by (cases v; auto simp: as_identifier_def require_in_conv)+
  with n assms(1) have "k \<notin> set METADATA_IDENTIFIERS" "k \<notin> {''destination_class'', ''recipient_set_fingerprint'',
      ''content_type'', ''content_sha256'', ''ciphertext_sha256'', ''content_size'', ''ciphertext_size'', ''object_key'',
      ''policy_decision'', ''capture_status'', ''sensitivity''}"
    unfolding metadata_item_def by (auto split: if_splits)
  then show False using assms(2,3) by (simp add: METADATA_ALLOWED_def METADATA_IDENTIFIERS_def metadata_stored_def)
qed

lemma metadata_item_scalar:
  "metadata_item k v = Inr () \<Longrightarrow> k \<in> set METADATA_ALLOWED \<Longrightarrow> metadata_stored k \<Longrightarrow> jsort v = v \<and> no_floats v"
  using metadata_item_kind[of k v] by (cases v) auto

lemma metadata_ok_item:
  "metadata_ok env d \<Longrightarrow> (k, v) \<in> set d \<Longrightarrow>
     k \<in> set METADATA_ALLOWED \<and> metadata_stored k \<and> metadata_item k v = Inr ()"
  by (auto simp: metadata_ok_def list_all_iff)

lemma metadata_ok_sorted_set: "metadata_ok env d \<Longrightarrow> set (jsort_obj d) = set d"
proof -
  assume d: "metadata_ok env d"
  have "map (\<lambda>(k, v). (k, jsort v)) d = d"
    by (rule map_idI) (use metadata_ok_item[OF d] metadata_item_scalar in auto)
  then show ?thesis by (simp add: jsort_obj_def)
qed

lemma metadata_ok_sort: "metadata_ok env d \<Longrightarrow> metadata_ok env (jsort_obj d)"
proof -
  assume d: "metadata_ok env d"
  have "json_dumps a fr (JObj (jsort_obj d)) = json_dumps a fr (JObj d)" for a fr
    using jsort_idem[of "JObj d"] by (simp only: json_dumps_def jsort_JObj)
  then show ?thesis
    using d metadata_ok_sorted_set[OF d] wf_dict_jsort_obj[of d] by (simp add: metadata_ok_def list_all_iff)
qed

lemma validate_metadata_ok: "metadata_ok env d \<Longrightarrow> validate_metadata env (JObj d) = Inr d"
proof -
  assume d: "metadata_ok env d"
  have "filter (\<lambda>(k, item). metadata_stored k) d = d"
    using metadata_ok_item[OF d] by (auto simp: filter_id_conv)
  moreover have "checks (map (\<lambda>(k, item). metadata_item k item) d) = Inr ()"
    using metadata_ok_item[OF d] by (auto simp: check_simps)
  moreover have "\<forall>k \<in> fst ` set d. k \<in> set METADATA_ALLOWED" using metadata_ok_item[OF d] by auto
  ultimately show ?thesis using d by (simp add: validate_metadata_def Let_def metadata_ok_def)
qed

lemma validate_metadata_sound:
  assumes "validate_metadata env v = Inr m" "wf_json v"
  shows "metadata_ok env m"
proof -
  from assms(1) obtain d where v: "v = JObj d" by (cases v) (auto simp: validate_metadata_def check_simps)
  have items: "k \<in> set METADATA_ALLOWED \<and> metadata_item k x = Inr ()" if "(k, x) \<in> set d" for k x
    using assms(1) that by (force simp: v validate_metadata_def Let_def check_simps)
  have m: "m = filter (\<lambda>(k, item). metadata_stored k) d"
    and size: "utf8_len (json_dumps True (float_repr env) (JObj m)) \<le> MAX_METADATA_BYTES"
    using assms(1) by (auto simp: v validate_metadata_def Let_def check_simps)
  have "wf_dict m" using assms(2) by (simp add: v m distinct_map_filter)
  moreover have "list_all (\<lambda>(k, v). k \<in> set METADATA_ALLOWED \<and> metadata_stored k \<and> metadata_item k v = Inr ()) m"
    using items by (auto simp: m list_all_iff)
  ultimately show ?thesis using size by (simp add: metadata_ok_def)
qed

subsection \<open>Records\<close>

lemma record_get [simp]:
  "jget (record_to_obj r) ''event_id'' = JStr (q_event_id r)"
  "jget (record_to_obj r) ''session_id'' = JStr (q_session_id r)"
  "jget (record_to_obj r) ''checkpoint'' = JObj (checkpoint_to_obj (q_checkpoint r))"
  "jget (record_to_obj r) ''metadata'' = JObj (q_metadata r)"
  "jget (record_to_obj r) ''state'' = JStr (state_value (q_state r))"
  "jget (record_to_obj r) ''sequence'' = JInt (q_sequence r)"
  "jget (record_to_obj r) ''event_ids'' = JList (map JStr (q_event_ids r))"
  "jget (record_to_obj r) ''is_final'' = JBool (q_is_final r)"
  "jget (record_to_obj r) ''final_event_id'' = opt_str (q_final_event_id r)"
  "jget (record_to_obj r) ''owner'' = opt_str (q_owner r)"
  "jget (record_to_obj r) ''lease_until'' = (case q_lease_until r of None \<Rightarrow> JNull | Some t \<Rightarrow> JFloat t)"
  "jget (record_to_obj r) ''lease_seconds'' = JFloat (q_lease_seconds r)"
  "jget (record_to_obj r) ''resume_state'' = JStr (state_value (q_resume_state r))"
  "jget (record_to_obj r) ''failure_code'' = opt_str (q_failure_code r)"
  "jget (record_to_obj r) ''object_key'' = opt_str (q_object_key r)"
  "jget (record_to_obj r) ''ciphertext_sha256'' = opt_str (q_ciphertext_sha256 r)"
  "jget (record_to_obj r) ''ciphertext_size'' = (case q_ciphertext_size r of None \<Rightarrow> JNull | Some n \<Rightarrow> JInt n)"
  "jget (record_to_obj r) ''index_id'' = opt_str (q_index_id r)"
  "jget (record_to_obj r) ''expanded_event_ids'' = JList (map JStr (q_expanded_event_ids r))"
  "jget (record_to_obj r) ''expanded_checkpoint'' =
     (case q_expanded_checkpoint r of None \<Rightarrow> JNull | Some e \<Rightarrow> JObj (expanded_to_obj e))"
  by (simp_all add: record_to_obj_def jget_def)

lemma record_keys: "keys (record_to_obj r) = [''event_id'', ''session_id'', ''checkpoint'', ''metadata'', ''state'',
   ''sequence'', ''event_ids'', ''is_final'', ''final_event_id'', ''owner'', ''lease_until'', ''lease_seconds'',
   ''resume_state'', ''failure_code'', ''object_key'', ''ciphertext_sha256'', ''ciphertext_size'', ''index_id'',
   ''expanded_event_ids'', ''expanded_checkpoint'']"
  by (simp add: record_to_obj_def)

lemma record_key_set: "fst ` set (record_to_obj r) = set RECORD_REQUIRED \<union> set RECORD_OPTIONAL"
  using arg_cong[OF record_keys[of r], of set] by (simp add: RECORD_REQUIRED_def RECORD_OPTIONAL_def insert_commute)

lemma wf_record: "wf_dict (record_to_obj r)"
  by (simp add: record_keys)

lemmas record_sorted_get = jget_jsort_obj[OF wf_record]

lemma jsort_opt_str [simp]: "jsort (opt_str x) = opt_str x"
  by (cases x) simp_all

lemma list_all_JStr: "list_all is_identifier (map JStr xs) = list_all IDENTIFIER xs"
  by (induction xs) auto

lemma distinct_JStr: "distinct (map JStr xs) = distinct xs"
  by (simp add: distinct_map inj_on_def)

lemma map_JStr [simp]:
  "map (jsort \<circ> JStr) xs = map JStr xs" "map (str_of \<circ> JStr) xs = xs" "map (\<lambda>x. str_of (JStr x)) xs = xs"
  by (induction xs) auto

lemma opt_checks:
  "pred_option IDENTIFIER x \<Longrightarrow> (if opt_str x = JNull then Inr () else bind_r (as_identifier (opt_str x)) (\<lambda>_. Inr ())) = Inr ()"
  "pred_option IDENTIFIER x \<Longrightarrow> opt_str x = JNull \<or> is_identifier (opt_str x)"
  "pred_option is_object_key x \<Longrightarrow> opt_str x = JNull \<or> is_str (opt_str x) \<and> is_object_key (str_of (opt_str x))"
  "opt_str x = JNull \<or> is_str (opt_str x)"
  "pred_option DIGEST x \<Longrightarrow> opt_str x = JNull \<or> DIGEST (str_of (opt_str x))"
  by (cases x; simp)+

lemma check_fields_record:
  assumes "fields_ok r"
  shows "check_fields (jsort_obj (record_to_obj r)) = Inr ()"
proof -
  note ok = assms[unfolded fields_ok_def]
  have lease: "\<not> ((case q_lease_until r of None \<Rightarrow> JNull | Some t \<Rightarrow> JFloat t) \<noteq> JNull \<and>
      (finite_number (case q_lease_until r of None \<Rightarrow> JNull | Some t \<Rightarrow> JFloat t) = None \<or>
       the (num_val (case q_lease_until r of None \<Rightarrow> JNull | Some t \<Rightarrow> JFloat t)) < 0))"
    using ok by (cases "q_lease_until r") auto
  have size: "\<not> ((case q_ciphertext_size r of None \<Rightarrow> JNull | Some n \<Rightarrow> JInt n) \<noteq> JNull \<and>
      (\<not> type_is_int (case q_ciphertext_size r of None \<Rightarrow> JNull | Some n \<Rightarrow> JInt n) \<or>
       \<not> (0 \<le> int_of (case q_ciphertext_size r of None \<Rightarrow> JNull | Some n \<Rightarrow> JInt n) \<and>
          int_of (case q_ciphertext_size r of None \<Rightarrow> JNull | Some n \<Rightarrow> JInt n) \<le> MAX_CIPHERTEXT_BYTES)))"
    using ok by (cases "q_ciphertext_size r") auto
  have sorted: "jsort (case q_lease_until r of None \<Rightarrow> JNull | Some t \<Rightarrow> JFloat t) =
        (case q_lease_until r of None \<Rightarrow> JNull | Some t \<Rightarrow> JFloat t)"
      "jsort (case q_ciphertext_size r of None \<Rightarrow> JNull | Some n \<Rightarrow> JInt n) =
        (case q_ciphertext_size r of None \<Rightarrow> JNull | Some n \<Rightarrow> JInt n)"
    by (cases "q_lease_until r"; simp) (cases "q_ciphertext_size r"; simp)
  show ?thesis
    unfolding check_fields_def Let_def record_sorted_get record_get sorted check_simps jsort_opt_str
    using ok lease size opt_checks[of "q_final_event_id r"] opt_checks[of "q_owner r"] opt_checks[of "q_failure_code r"]
      opt_checks[of "q_object_key r"] opt_checks[of "q_ciphertext_sha256 r"] opt_checks[of "q_index_id r"]
    by (intro conjI) (simp_all add: list_all_JStr distinct_JStr)
qed

lemma record_of_fields_sorted:
  "record_of_fields (jsort_obj (record_to_obj r)) (q_event_id r) (q_session_id r) (q_checkpoint r) m =
     r\<lparr>q_metadata := m, q_expanded_event_ids := [], q_expanded_checkpoint := None\<rparr>"
  unfolding record_of_fields_def record_sorted_get record_get
  by (cases r) (simp split: option.splits)

lemma check_relations_irrelevant [simp]:
  "check_relations (r\<lparr>q_metadata := m\<rparr>) = check_relations r"
  "check_relations (r\<lparr>q_expanded_event_ids := x\<rparr>) = check_relations r"
  "check_relations (r\<lparr>q_expanded_checkpoint := c\<rparr>) = check_relations r"
  "check_relations (r\<lparr>q_checkpoint := k\<rparr>) = check_relations r"
  by (simp_all add: check_relations_def Let_def)

lemma record_sorted_has: "map_of (jsort_obj (record_to_obj r)) ''expanded_event_ids'' = Some (JList (map JStr (q_expanded_event_ids r)))"
proof -
  have "''expanded_event_ids'' \<in> fst ` set (jsort_obj (record_to_obj r))"
    by (simp add: record_key_set RECORD_OPTIONAL_def)
  then obtain x where x: "map_of (jsort_obj (record_to_obj r)) ''expanded_event_ids'' = Some x"
    by (metis map_of_eq_None_iff not_None_eq)
  then have "jget (jsort_obj (record_to_obj r)) ''expanded_event_ids'' = x" by (simp add: jget_def)
  then show ?thesis using x by (simp add: record_sorted_get)
qed

text \<open>Reading what a record writes.\<close>

lemma record_from_dict_to_obj:
  assumes "record_ok env r"
  shows "record_from_dict env (JObj (jsort_obj (record_to_obj r))) = Inr (canon r)"
proof -
  note ok = assms[unfolded record_ok_def]
  let ?d = "jsort_obj (record_to_obj r)"
  have ids: "as_identifier (jget ?d ''event_id'') = Inr (q_event_id r)"
      "as_identifier (jget ?d ''session_id'') = Inr (q_session_id r)"
    using ok by (simp_all add: record_sorted_get fields_ok_def)
  have cp: "validate_checkpoint (jget ?d ''checkpoint'') = Inr (q_checkpoint r)"
    using ok by (simp only: record_sorted_get record_get jsort_JObj validate_checkpoint_obj)
  have md: "validate_metadata env (jget ?d ''metadata'') = Inr (jsort_obj (q_metadata r))"
    using ok by (simp only: record_sorted_get record_get jsort_JObj validate_metadata_ok[OF metadata_ok_sort])
  have ec: "(if jget ?d ''expanded_checkpoint'' = JNull then Inr None
      else bind_r (validate_expanded_checkpoint (jget ?d ''expanded_checkpoint'')) (\<lambda>x. Inr (Some x)))
      = Inr (q_expanded_checkpoint r)"
    unfolding record_sorted_get record_get
    using ok by (cases "q_expanded_checkpoint r") (simp_all add: jsort_JObj validate_expanded_obj del: jsort.simps(2))
  have rel: "check_relations (record_of_fields ?d (q_event_id r) (q_session_id r) (q_checkpoint r) (jsort_obj (q_metadata r))) = Inr ()"
    using ok by (simp add: record_of_fields_sorted)
  show ?thesis
    unfolding record_from_dict_def Let_def obj_of.simps ec
    using ok check_fields_record[of r]
    by (simp add: ids cp md rel record_sorted_has record_of_fields_sorted record_key_set canon_def fields_ok_def
        list_all_JStr)
qed

text \<open>Whatever the reader accepts satisfies the specification.\<close>

lemma wf_json_jget: "wf_json (JObj d) \<Longrightarrow> wf_json (jget d k)"
  by (auto simp: jget_def list_all_iff split: option.splits dest!: map_of_SomeD)

lemma str_opt_ok:
  "(if v = JNull then Inr () else bind_r (as_identifier v) (\<lambda>_. Inr ())) = Inr () \<Longrightarrow> pred_option IDENTIFIER (str_opt v)"
  "v = JNull \<or> is_identifier v \<Longrightarrow> pred_option IDENTIFIER (str_opt v)"
  "v = JNull \<or> is_str v \<and> is_object_key (str_of v) \<Longrightarrow> pred_option is_object_key (str_opt v)"
  "v = JNull \<or> DIGEST (str_of v) \<Longrightarrow> pred_option DIGEST (str_opt v)"
proof -
  show "(if v = JNull then Inr () else bind_r (as_identifier v) (\<lambda>_. Inr ())) = Inr () \<Longrightarrow> pred_option IDENTIFIER (str_opt v)"
    by (cases v) (simp_all add: str_opt_def as_identifier_def split: if_splits)
qed (auto simp: str_opt_def is_identifier_def)

lemma float_of_int_sign:
  "float_of_int i = Some t \<Longrightarrow> 0 \<le> i \<Longrightarrow> 0 \<le> t"
  by (auto simp: float_of_int_def Let_def round_double_nonneg split: if_splits)

lemma finite_number_sign:
  "\<not> (v \<noteq> JNull \<and> (finite_number v = None \<or> the (num_val v) < 0)) \<Longrightarrow> pred_option (\<lambda>t. 0 \<le> t) (finite_number v)"
  by (cases v) (auto simp: finite_number_def pred_option_def intro: float_of_int_sign)

lemma event_ids_ok:
  assumes "is_list v" "list_all is_identifier (list_of v)" "distinct (list_of v)"
  shows "list_all IDENTIFIER (map str_of (list_of v)) \<and> distinct (map str_of (list_of v))"
proof -
  obtain xs where "list_of v = map JStr xs"
    using assms(2) by (metis (mono_tags, lifting) ex_map_conv is_identifier_conv list_all_iff)
  then show ?thesis using assms(2,3) by (simp add: list_all_JStr distinct_JStr)
qed

lemma record_of_fields_ok:
  assumes "check_fields d = Inr ()" "IDENTIFIER e" "IDENTIFIER s"
  shows "fields_ok (record_of_fields d e s c m)"
proof -
  note c = assms(1)[unfolded check_fields_def Let_def check_simps]
  have lease: "pred_option (\<lambda>t. 0 \<le> t) (finite_number (jget d ''lease_until''))"
    using finite_number_sign[of "jget d ''lease_until''"] c by simp
  have secs: "0 < the (finite_number (jget d ''lease_seconds'')) \<and> the (finite_number (jget d ''lease_seconds'')) \<le> 86400"
    using c small_finite_number[of "jget d ''lease_seconds''"] by (cases "finite_number (jget d ''lease_seconds'')") auto
  have size: "pred_option (\<lambda>n. 0 \<le> n \<and> n \<le> MAX_CIPHERTEXT_BYTES)
      (if jget d ''ciphertext_size'' = JNull then None else Some (int_of (jget d ''ciphertext_size'')))"
    using c by (simp split: if_split) blast
  show ?thesis
    unfolding fields_ok_def record_of_fields_def queue_record.simps
    using c assms(2,3) lease secs size event_ids_ok[of "jget d ''event_ids''"]
    by (intro conjI str_opt_ok(1) str_opt_ok(2)[of "jget d ''final_event_id''"] str_opt_ok(3,4)) simp_all
qed

lemma record_from_dict_sound:
  assumes "record_from_dict env v = Inr r" "wf_json v"
  shows "record_ok env r"
proof -
  from assms(1) obtain d where v: "v = JObj d" by (cases v) (auto simp: record_from_dict_def)
  from assms(1) obtain e s c m xs ec where
    e: "as_identifier (jget d ''event_id'') = Inr e" and s: "as_identifier (jget d ''session_id'') = Inr s" and
    c: "validate_checkpoint (jget d ''checkpoint'') = Inr c" and
    m: "validate_metadata env (jget d ''metadata'') = Inr m" and f: "check_fields d = Inr ()" and
    rel: "check_relations (record_of_fields d e s c m) = Inr ()" and
    ids: "\<not> (MAX_EVENT_IDS < length xs \<or> \<not> list_all is_identifier xs)" and
    ec: "(if jget d ''expanded_checkpoint'' = JNull then Inr None
      else bind_r (validate_expanded_checkpoint (jget d ''expanded_checkpoint'')) (\<lambda>x. Inr (Some x))) = Inr ec" and
    r': "Inr ((record_of_fields d e s c m)\<lparr>q_expanded_event_ids := map str_of xs, q_expanded_checkpoint := ec\<rparr>) = (Inr r :: queue_record result)"
    unfolding record_from_dict_def v obj_of.simps Let_def bind_r_eq_Inr raise_if_Inr
    by (elim exE conjE) (rule that, (assumption | simp)+)
  note r = sym[OF sum.inject(2)[THEN iffD1, OF r']]
  have xs: "length xs \<le> MAX_EVENT_IDS" "list_all is_identifier xs" using ids by auto
  have "fields_ok (record_of_fields d e s c m)" using f e s by (intro record_of_fields_ok) (auto simp: check_simps)
  moreover have "list_all IDENTIFIER (map str_of xs)"
    using xs(2) by (auto simp: list_all_iff is_identifier_def)
  ultimately have "fields_ok r" using xs(1) by (simp add: r fields_ok_def)
  moreover have "metadata_ok env m" using m wf_json_jget assms(2) v by (intro validate_metadata_sound[OF m]) simp
  moreover have "pred_option expanded_ok ec"
    using ec by (auto simp: Let_def check_simps split: if_splits dest: validate_expanded_sound)
  moreover have "q_checkpoint r = c" "q_metadata r = m" "q_expanded_checkpoint r = ec"
    by (simp_all add: r record_of_fields_def)
  moreover have "check_relations r = Inr ()" using rel by (simp add: r)
  ultimately show ?thesis using validate_checkpoint_sound[OF c] by (simp add: record_ok_def)
qed

subsection \<open>Files\<close>

text \<open>A float whose text reads back as itself, as the interpreter guarantees of every double.\<close>

definition float_reads :: "outbox_env \<Rightarrow> rat \<Rightarrow> bool" where
  "float_reads env q \<longleftrightarrow> parse_num (float_parse env) (float_repr env q) = Some (JFloat q, [])"

definition record_floats :: "outbox_env \<Rightarrow> queue_record \<Rightarrow> bool" where
  "record_floats env r \<longleftrightarrow> pred_option (float_reads env) (q_lease_until r) \<and> float_reads env (q_lease_seconds r)"

lemma metadata_ok_json:
  assumes "metadata_ok env d"
  shows "wf_json (JObj d) \<and> no_floats (JObj d)"
proof -
  have "wf_json v \<and> no_floats v" if "(k, v) \<in> set d" for k v
    using metadata_item_kind[of k v] metadata_ok_item[OF assms that] by (cases v) auto
  then show ?thesis using assms by (auto simp: metadata_ok_def list_all_iff)
qed

lemma checkpoint_json: "wf_json (JObj (checkpoint_to_obj c)) \<and> no_floats (JObj (checkpoint_to_obj c))"
  by (simp add: checkpoint_to_obj_def)

lemma expanded_json: "wf_json (JObj (expanded_to_obj e)) \<and> no_floats (JObj (expanded_to_obj e))"
  by (cases "snd e"; cases "chain_head (the (snd e))") (simp_all add: expanded_to_obj_def checkpoint_to_obj_def)

lemma opt_str_json [simp]: "wf_json (opt_str x)" "floats_ok fr pf (opt_str x)"
  by (cases x; simp)+

lemma wf_record_json: "metadata_ok env (q_metadata r) \<Longrightarrow> wf_json (JObj (record_to_obj r))"
proof -
  assume m: "metadata_ok env (q_metadata r)"
  have strs: "list_all wf_json (map JStr xs)" for xs by (induction xs) auto
  have opts: "wf_json (case q_lease_until r of None \<Rightarrow> JNull | Some t \<Rightarrow> JFloat t)"
    "wf_json (case q_ciphertext_size r of None \<Rightarrow> JNull | Some n \<Rightarrow> JInt n)"
    "wf_json (case q_expanded_checkpoint r of None \<Rightarrow> JNull | Some e \<Rightarrow> JObj (expanded_to_obj e))"
    using expanded_json by (auto split: option.splits)
  have "list_all (\<lambda>(k, v). wf_json v) (record_to_obj r)"
    using metadata_ok_json[OF m] checkpoint_json[of "q_checkpoint r"] strs opts
    by (simp add: record_to_obj_def del: wf_json.simps(2))
  then show ?thesis using wf_record[of r] by simp
qed

lemma record_floats_ok:
  assumes "metadata_ok env (q_metadata r)" "record_floats env r"
  shows "floats_ok (float_repr env) (float_parse env) (JObj (record_to_obj r))"
proof -
  let ?ok = "floats_ok (float_repr env) (float_parse env)"
  have strs: "list_all ?ok (map JStr xs)" for xs by (induction xs) auto
  have opts: "?ok (case q_lease_until r of None \<Rightarrow> JNull | Some t \<Rightarrow> JFloat t)" "?ok (JFloat (q_lease_seconds r))"
    "?ok (case q_ciphertext_size r of None \<Rightarrow> JNull | Some n \<Rightarrow> JInt n)"
    "?ok (case q_expanded_checkpoint r of None \<Rightarrow> JNull | Some e \<Rightarrow> JObj (expanded_to_obj e))"
    using assms(2) expanded_json no_floats_ok by (auto simp: record_floats_def float_reads_def split: option.splits)
  have objs: "?ok (JObj (q_metadata r))" "?ok (JObj (checkpoint_to_obj (q_checkpoint r)))"
    using metadata_ok_json[OF assms(1)] checkpoint_json no_floats_ok by blast+
  show ?thesis
    unfolding record_to_obj_def floats_ok.simps(4)
    using strs opts objs by (simp del: floats_ok.simps(4))
qed

lemma read_record_body:
  assumes "record_ok env r" "record_floats env r"
  shows "read_record env (record_body env r) = Inr (canon r)"
proof -
  have m: "metadata_ok env (q_metadata r)" using assms(1) by (simp add: record_ok_def)
  have "json_loads (default_hooks (float_parse env)) (record_body env r) = Inr (jsort (JObj (record_to_obj r)))"
    unfolding record_body_def
    by (rule json_loads_dumps)
       (simp_all add: default_hooks_def default_pairs_wf wf_record_json[OF m, simplified] record_floats_ok[OF m assms(2), simplified])
  then show ?thesis
    by (simp only: read_record_def bind_r_Inr jsort_JObj record_from_dict_to_obj[OF assms(1)])
qed

lemma read_record_sound: "read_record env txt = Inr r \<Longrightarrow> record_ok env r"
  unfolding read_record_def check_simps by (blast intro: record_from_dict_sound json_loads_wf)

lemma canon_ok [simp]: "record_ok env r \<Longrightarrow> record_ok env (canon r)"
  by (simp add: record_ok_def canon_def fields_ok_def metadata_ok_sort)

lemma canon_floats [simp]: "record_floats env (canon r) = record_floats env r"
  by (simp add: record_floats_def canon_def)

lemma canon_canon [simp]: "canon (canon r) = canon r"
  using jsort_idem[of "JObj (q_metadata r)"] by (simp add: canon_def jsort_JObj del: jsort.simps)

lemma canon_fields [simp]:
  "q_event_id (canon r) = q_event_id r" "q_state (canon r) = q_state r" "q_owner (canon r) = q_owner r"
  "q_lease_until (canon r) = q_lease_until r" "q_resume_state (canon r) = q_resume_state r"
  "q_event_ids (canon r) = q_event_ids r" "q_sequence (canon r) = q_sequence r"
  "q_ciphertext_sha256 (canon r) = q_ciphertext_sha256 r" "q_ciphertext_size (canon r) = q_ciphertext_size r"
  "q_object_key (canon r) = q_object_key r" "q_index_id (canon r) = q_index_id r"
  "q_is_final (canon r) = q_is_final r" "q_final_event_id (canon r) = q_final_event_id r"
  "q_session_id (canon r) = q_session_id r" "q_checkpoint (canon r) = q_checkpoint r"
  "q_lease_seconds (canon r) = q_lease_seconds r" "q_failure_code (canon r) = q_failure_code r"
  "q_expanded_event_ids (canon r) = q_expanded_event_ids r"
  "q_expanded_checkpoint (canon r) = q_expanded_checkpoint r"
  by (simp_all add: canon_def)

lemma canon_id: "canon r = r \<longleftrightarrow> jsort_obj (q_metadata r) = q_metadata r"
  by (cases r) (simp add: canon_def)

end
