(* ===== verification/Prepared.thy ===== *)
theory Prepared
  imports OutboxRecord
begin

text \<open>
  The prepared records of \<^verbatim>\<open>src/josh_room/pcc_outbox.py\<close>: ciphertext kept inside a JSON
  record (base64) or in a file beside it, their dictionary forms and validation, and the
  standard library's base64 codec they rely on.
\<close>

section \<open>base64\<close>

definition b64_alphabet :: string where
  "b64_alphabet = ''ABCDEFGHIJKLMNOPQRSTUVWXYZabcdefghijklmnopqrstuvwxyz0123456789+/''"

definition b64_char :: "nat \<Rightarrow> char" where
  "b64_char n = b64_alphabet ! n"

definition b64_val :: "char \<Rightarrow> nat option" where
  "b64_val c = find (\<lambda>n. b64_char n = c) [0..<64]"

definition pad :: char where "pad = CHR ''=''"

text \<open>\<^verbatim>\<open>base64.b64encode\<close>.\<close>

fun b64encode :: "string \<Rightarrow> string" where
  "b64encode [] = []"
| "b64encode [a] = [b64_char (code a div 4), b64_char (code a mod 4 * 16), pad, pad]"
| "b64encode [a, b] =
     [b64_char (code a div 4), b64_char (code a mod 4 * 16 + code b div 16), b64_char (code b mod 16 * 4), pad]"
| "b64encode (a # b # c # r) =
     b64_char (code a div 4) # b64_char (code a mod 4 * 16 + code b div 16)
     # b64_char (code b mod 16 * 4 + code c div 64) # b64_char (code c mod 64) # b64encode r"

text \<open>\<^verbatim>\<open>base64.b64decode(s, validate=True)\<close>: None where it raises.\<close>

fun b64decode :: "string \<Rightarrow> string option" where
  "b64decode [] = Some []"
| "b64decode (p # q # x # y # r) =
     (case (b64_val p, b64_val q) of
        (Some i, Some j) \<Rightarrow>
          if y = pad then
            (if r \<noteq> [] then None
             else if x = pad then Some [char_of (i * 4 + j div 16)]
             else (case b64_val x of
                None \<Rightarrow> None
              | Some k \<Rightarrow> Some [char_of (i * 4 + j div 16), char_of (j mod 16 * 16 + k div 4)]))
          else
            (case (b64_val x, b64_val y, b64decode r) of
               (Some k, Some l, Some rest) \<Rightarrow>
                 Some (char_of (i * 4 + j div 16) # char_of (j mod 16 * 16 + k div 4) # char_of (k mod 4 * 64 + l) # rest)
             | _ \<Rightarrow> None)
      | _ \<Rightarrow> None)"
| "b64decode _ = None"

lemma b64_val_char: "n < 64 \<Longrightarrow> b64_val (b64_char n) = Some n"
proof -
  have "list_all (\<lambda>n. b64_val (b64_char n) = Some n) [0..<64]" by code_simp
  then show "n < 64 \<Longrightarrow> b64_val (b64_char n) = Some n" by (simp add: list_all_iff del: upt_conv_Cons_Cons)
qed

lemma b64_char_not_pad: "n < 64 \<Longrightarrow> b64_char n \<noteq> pad"
proof -
  have "list_all (\<lambda>n. b64_char n \<noteq> pad) [0..<64]" by code_simp
  then show "n < 64 \<Longrightarrow> b64_char n \<noteq> pad" by (simp add: list_all_iff)
qed

lemma b64decode_encode: "b64decode (b64encode s) = Some s"
proof -
  have r: "x < 256 \<Longrightarrow> x div 4 < 64 \<and> x mod 4 * 16 < 64 \<and> x mod 64 < 64 \<and> x div 16 < 16 \<and> x mod 16 * 4 < 64 \<and> x div 64 < 4" for x :: nat
    by (auto simp: less_mult_imp_div_less)
  have s: "x mod 4 * 16 + y div 16 < 64" "y mod 16 * 4 + x div 64 < 64" if "x < 256" "y < 256" for x y :: nat
    using that by auto
  show ?thesis
    by (induction s rule: b64encode.induct)
       (simp_all add: b64_val_char b64_char_not_pad r s)
qed


section \<open>Prepared records\<close>

record PreparedRecord =
  p_event_id :: string
  p_ciphertext :: string
  p_metadata :: jobj
  p_ciphertext_sha256 :: string
  p_ciphertext_size :: int

record PreparedFileRecord =
  pf_event_id :: string
  pf_ciphertext_file :: string
  pf_metadata :: jobj
  pf_ciphertext_sha256 :: string
  pf_ciphertext_size :: int

definition prepared_to_obj :: "PreparedRecord \<Rightarrow> jobj" where
  "prepared_to_obj p =
     [(''event_id'', JStr (p_event_id p)),
      (''ciphertext_b64'', JStr (b64encode (p_ciphertext p))),
      (''ciphertext_sha256'', JStr (p_ciphertext_sha256 p)),
      (''ciphertext_size'', JInt (p_ciphertext_size p)),
      (''metadata'', JObj (p_metadata p))]"

definition PREPARED_FIELDS :: "string list" where
  "PREPARED_FIELDS = [''event_id'', ''ciphertext_b64'', ''ciphertext_sha256'', ''ciphertext_size'', ''metadata'']"

definition prepared_from_dict :: "outbox_env \<Rightarrow> json \<Rightarrow> PreparedRecord result" where
  "prepared_from_dict env v =
     bind_r (raise_if (\<not> is_obj v \<or> set (keys (obj_of v)) \<noteq> set PREPARED_FIELDS) (ValueError ''prepared fields'')) (\<lambda>_.
     let d = obj_of v in
     bind_r (as_identifier (jget d ''event_id'')) (\<lambda>event_id.
     let encoded = jget d ''ciphertext_b64'' in
     bind_r (raise_if (\<not> is_str encoded \<or> int (length (str_of encoded)) > (MAX_CIPHERTEXT_BYTES + 2) div 3 * 4)
       (ValueError ''prepared ciphertext'')) (\<lambda>_.
     (case b64decode (str_of encoded) of
        None \<Rightarrow> Inl (ValueError ''prepared ciphertext'')
      | Some ciphertext \<Rightarrow>
          let digest = jget d ''ciphertext_sha256''; size = jget d ''ciphertext_size'' in
          bind_r (raise_if (\<not> is_str digest \<or> \<not> DIGEST (str_of digest) \<or> \<not> type_is_int size
              \<or> int_of size \<noteq> int (length ciphertext) \<or> sha256_hex env ciphertext \<noteq> str_of digest)
            (ValueError ''prepared ciphertext metadata'')) (\<lambda>_.
          bind_r (validate_metadata env (jget d ''metadata'')) (\<lambda>m.
          Inr \<lparr>p_event_id = event_id, p_ciphertext = ciphertext, p_metadata = m,
            p_ciphertext_sha256 = str_of digest, p_ciphertext_size = int_of size\<rparr>))))))"

text \<open>
  \<^verbatim>\<open>PreparedFileRecord(...)\<close>: the constructor validates, so building one may raise. The
  arguments are decoded values because the reader passes them unchecked.
\<close>

definition prepared_file_make ::
  "outbox_env \<Rightarrow> json \<Rightarrow> json \<Rightarrow> jobj \<Rightarrow> json \<Rightarrow> json \<Rightarrow> PreparedFileRecord result" where
  "prepared_file_make env event_id file metadata digest sz =
     bind_r (as_identifier event_id) (\<lambda>e.
     bind_r (checks [
        raise_if (file \<noteq> JStr (e @ ''.age'')) (ValueError ''prepared ciphertext file''),
        raise_if (has_key metadata ''content_sha256'' \<or> has_key metadata ''content_size'') (ValueError ''prepared metadata''),
        bind_r (validate_metadata env (JObj metadata)) (\<lambda>_. Inr ()),
        raise_if (\<not> is_str digest \<or> \<not> DIGEST (str_of digest) \<or> \<not> type_is_int sz
            \<or> \<not> (0 \<le> int_of sz \<and> int_of sz \<le> MAX_CIPHERTEXT_BYTES))
          (ValueError ''prepared ciphertext metadata'')]) (\<lambda>_.
     Inr \<lparr>pf_event_id = e, pf_ciphertext_file = e @ ''.age'', pf_metadata = metadata,
       pf_ciphertext_sha256 = str_of digest, pf_ciphertext_size = int_of sz\<rparr>))"

definition prepared_file_to_obj :: "PreparedFileRecord \<Rightarrow> jobj" where
  "prepared_file_to_obj p =
     [(''event_id'', JStr (pf_event_id p)),
      (''ciphertext_file'', JStr (pf_ciphertext_file p)),
      (''ciphertext_sha256'', JStr (pf_ciphertext_sha256 p)),
      (''ciphertext_size'', JInt (pf_ciphertext_size p)),
      (''metadata'', JObj (pf_metadata p))]"

definition PREPARED_FILE_FIELDS :: "string list" where
  "PREPARED_FILE_FIELDS = [''event_id'', ''ciphertext_file'', ''ciphertext_sha256'', ''ciphertext_size'', ''metadata'']"

definition prepared_file_from_dict :: "outbox_env \<Rightarrow> json \<Rightarrow> PreparedFileRecord result" where
  "prepared_file_from_dict env v =
     bind_r (raise_if (\<not> is_obj v \<or> set (keys (obj_of v)) \<noteq> set PREPARED_FILE_FIELDS) (ValueError ''prepared file fields'')) (\<lambda>_.
     let d = obj_of v in
     bind_r (validate_metadata env (jget d ''metadata'')) (\<lambda>m.
     prepared_file_make env (jget d ''event_id'') (jget d ''ciphertext_file'') m
       (jget d ''ciphertext_sha256'') (jget d ''ciphertext_size'')))"

text \<open>What the prepared directory's reader returns, and the attributes both kinds share.\<close>

datatype prepared = InlineRecord PreparedRecord | FileRecord PreparedFileRecord

fun prepared_event_id :: "prepared \<Rightarrow> string" where
  "prepared_event_id (InlineRecord p) = p_event_id p"
| "prepared_event_id (FileRecord p) = pf_event_id p"

fun prepared_metadata :: "prepared \<Rightarrow> jobj" where
  "prepared_metadata (InlineRecord p) = p_metadata p"
| "prepared_metadata (FileRecord p) = pf_metadata p"

fun prepared_sha256 :: "prepared \<Rightarrow> string" where
  "prepared_sha256 (InlineRecord p) = p_ciphertext_sha256 p"
| "prepared_sha256 (FileRecord p) = pf_ciphertext_sha256 p"

fun prepared_size :: "prepared \<Rightarrow> int" where
  "prepared_size (InlineRecord p) = p_ciphertext_size p"
| "prepared_size (FileRecord p) = pf_ciphertext_size p"

text \<open>
  Reading one record of the prepared directory, with the ciphertext files beside it. The
  first argument names the ciphertext file to check when it is not the record's own id
  (\<^verbatim>\<open>reconcile_prepared\<close> uses the id it was asked for).
\<close>

definition check_ciphertext :: "outbox_env \<Rightarrow> (string, string) dict \<Rightarrow> string \<Rightarrow> PreparedFileRecord \<Rightarrow> unit result" where
  "check_ciphertext env ages name p =
     (case map_of ages name of
        None \<Rightarrow> Inl (ValueError ''prepared ciphertext is unavailable'')
      | Some bytes \<Rightarrow>
          raise_if (sha256_hex env bytes \<noteq> pf_ciphertext_sha256 p \<or> int (length bytes) \<noteq> pf_ciphertext_size p)
            (ValueError ''prepared ciphertext metadata''))"

definition read_prepared ::
  "string option \<Rightarrow> outbox_env \<Rightarrow> (string, string) dict \<Rightarrow> string \<Rightarrow> prepared result" where
  "read_prepared name env ages txt =
     bind_r (json_loads (default_hooks (float_parse env)) txt) (\<lambda>v.
     if is_obj v \<and> has_key (obj_of v) ''ciphertext_file''
     then bind_r (prepared_file_from_dict env v) (\<lambda>p.
       bind_r (check_ciphertext env ages (case name of None \<Rightarrow> pf_event_id p | Some n \<Rightarrow> n) p) (\<lambda>_.
       Inr (FileRecord p)))
     else bind_r (prepared_from_dict env v) (\<lambda>p. Inr (InlineRecord p)))"

definition prepared_body :: "outbox_env \<Rightarrow> PreparedRecord \<Rightarrow> string" where
  "prepared_body env p = json_dumps True (float_repr env) (JObj (prepared_to_obj p))"

definition prepared_file_body :: "outbox_env \<Rightarrow> PreparedFileRecord \<Rightarrow> string" where
  "prepared_file_body env p = json_dumps True (float_repr env) (JObj (prepared_file_to_obj p))"


section \<open>Reading back prepared records\<close>

definition prepared_ok :: "outbox_env \<Rightarrow> PreparedRecord \<Rightarrow> bool" where
  "prepared_ok env p \<longleftrightarrow> IDENTIFIER (p_event_id p) \<and> metadata_ok env (p_metadata p) \<and>
     int (length (p_ciphertext p)) \<le> MAX_CIPHERTEXT_BYTES \<and> p_ciphertext_size p = int (length (p_ciphertext p)) \<and>
     p_ciphertext_sha256 p = sha256_hex env (p_ciphertext p) \<and> DIGEST (p_ciphertext_sha256 p)"

definition prepared_file_ok :: "outbox_env \<Rightarrow> PreparedFileRecord \<Rightarrow> bool" where
  "prepared_file_ok env p \<longleftrightarrow> IDENTIFIER (pf_event_id p) \<and> pf_ciphertext_file p = pf_event_id p @ ''.age'' \<and>
     metadata_ok env (pf_metadata p) \<and>
     \<not> has_key (pf_metadata p) ''content_sha256'' \<and> \<not> has_key (pf_metadata p) ''content_size'' \<and>
     DIGEST (pf_ciphertext_sha256 p) \<and> 0 \<le> pf_ciphertext_size p \<and> pf_ciphertext_size p \<le> MAX_CIPHERTEXT_BYTES"

lemma prepared_get [simp]:
  "jget (prepared_to_obj p) ''event_id'' = JStr (p_event_id p)"
  "jget (prepared_to_obj p) ''ciphertext_b64'' = JStr (b64encode (p_ciphertext p))"
  "jget (prepared_to_obj p) ''ciphertext_sha256'' = JStr (p_ciphertext_sha256 p)"
  "jget (prepared_to_obj p) ''ciphertext_size'' = JInt (p_ciphertext_size p)"
  "jget (prepared_to_obj p) ''metadata'' = JObj (p_metadata p)"
  by (simp_all add: prepared_to_obj_def jget_def)

lemma prepared_file_get [simp]:
  "jget (prepared_file_to_obj f) ''event_id'' = JStr (pf_event_id f)"
  "jget (prepared_file_to_obj f) ''ciphertext_file'' = JStr (pf_ciphertext_file f)"
  "jget (prepared_file_to_obj f) ''ciphertext_sha256'' = JStr (pf_ciphertext_sha256 f)"
  "jget (prepared_file_to_obj f) ''ciphertext_size'' = JInt (pf_ciphertext_size f)"
  "jget (prepared_file_to_obj f) ''metadata'' = JObj (pf_metadata f)"
  by (simp_all add: prepared_file_to_obj_def jget_def)

lemma wf_prepared: "wf_dict (prepared_to_obj p)" "wf_dict (prepared_file_to_obj f)"
  by (simp_all add: prepared_to_obj_def prepared_file_to_obj_def)

lemma prepared_keys:
  "fst ` set (prepared_to_obj p) = set PREPARED_FIELDS"
  "fst ` set (prepared_file_to_obj f) = set PREPARED_FILE_FIELDS"
  by (simp_all add: prepared_to_obj_def prepared_file_to_obj_def PREPARED_FIELDS_def PREPARED_FILE_FIELDS_def)

lemma length_b64encode: "length (b64encode s) = (length s + 2) div 3 * 4"
proof (induction s rule: b64encode.induct)
  case (4 a b c r)
  have "(length (a # b # c # r) + 2) div 3 = Suc ((length r + 2) div 3)"
    using div_add_self1[of 3 "length r + 2"] by simp
  then show ?case using 4 by simp
qed simp_all

lemma prepared_from_dict_to_obj:
  assumes "prepared_ok env p"
  shows "prepared_from_dict env (JObj (jsort_obj (prepared_to_obj p))) = Inr (p\<lparr>p_metadata := jsort_obj (p_metadata p)\<rparr>)"
proof -
  note ok = assms[unfolded prepared_ok_def]
  have "int ((length (p_ciphertext p) + 2) div 3 * 4) \<le> (MAX_CIPHERTEXT_BYTES + 2) div 3 * 4"
    using ok by (simp add: zdiv_int zdiv_mono1)
  then have len: "int (length (b64encode (p_ciphertext p))) \<le> (MAX_CIPHERTEXT_BYTES + 2) div 3 * 4"
    by (simp only: length_b64encode)
  have md: "validate_metadata env (JObj (jsort_obj (p_metadata p))) = Inr (jsort_obj (p_metadata p))"
    using ok by (blast intro: validate_metadata_ok metadata_ok_sort)
  show ?thesis
    using ok len md
    by (cases p) (simp add: prepared_from_dict_def Let_def jget_jsort_obj[OF wf_prepared(1)] prepared_keys
        b64decode_encode jsort_JObj del: jsort.simps(2))
qed

lemma prepared_file_make_ok:
  assumes "prepared_file_ok env f"
  shows "prepared_file_make env (JStr (pf_event_id f)) (JStr (pf_ciphertext_file f)) (pf_metadata f)
     (JStr (pf_ciphertext_sha256 f)) (JInt (pf_ciphertext_size f)) = Inr f"
  using assms by (cases f) (simp add: prepared_file_make_def prepared_file_ok_def validate_metadata_ok)

lemma prepared_file_make_sound:
  assumes "prepared_file_make env (JStr e) (JStr (e @ ''.age'')) m (JStr d) (JInt n) = Inr f" "wf_json (JObj m)"
    "validate_metadata env (JObj m) = Inr m"
  shows "prepared_file_ok env f \<and> pf_event_id f = e \<and> pf_ciphertext_sha256 f = d \<and> pf_ciphertext_size f = n \<and> pf_metadata f = m"
  using assms validate_metadata_sound[OF assms(3,2)]
  by (auto simp: prepared_file_make_def prepared_file_ok_def check_simps)

lemma prepared_file_ok_sort: "prepared_file_ok env f \<Longrightarrow> prepared_file_ok env (f\<lparr>pf_metadata := jsort_obj (pf_metadata f)\<rparr>)"
  by (simp add: prepared_file_ok_def metadata_ok_sort)

lemma prepared_file_from_dict_to_obj:
  assumes "prepared_file_ok env f"
  shows "prepared_file_from_dict env (JObj (jsort_obj (prepared_file_to_obj f))) = Inr (f\<lparr>pf_metadata := jsort_obj (pf_metadata f)\<rparr>)"
proof -
  have md: "validate_metadata env (JObj (jsort_obj (pf_metadata f))) = Inr (jsort_obj (pf_metadata f))"
    using assms by (auto simp: prepared_file_ok_def intro: validate_metadata_ok metadata_ok_sort)
  show ?thesis
    using prepared_file_make_ok[OF prepared_file_ok_sort[OF assms]] md
    by (simp add: prepared_file_from_dict_def Let_def jget_jsort_obj[OF wf_prepared(2)] prepared_keys jsort_JObj
        del: jsort.simps(2))
qed

lemma prepared_json:
  "metadata_ok env (p_metadata p) \<Longrightarrow> wf_json (JObj (prepared_to_obj p)) \<and> no_floats (JObj (prepared_to_obj p))"
  "metadata_ok env (pf_metadata f) \<Longrightarrow> wf_json (JObj (prepared_file_to_obj f)) \<and> no_floats (JObj (prepared_file_to_obj f))"
  using metadata_ok_json by (simp_all add: prepared_to_obj_def prepared_file_to_obj_def)

lemma loads_prepared:
  "wf_json (JObj d) \<and> no_floats (JObj d) \<Longrightarrow>
     json_loads (default_hooks (float_parse env)) (json_dumps True (float_repr env) (JObj d)) = Inr (JObj (jsort_obj d))"
  using json_loads_dumps[of "default_hooks (float_parse env)" "JObj d" "float_repr env" True] no_floats_ok[of "JObj d"]
  by (simp add: default_hooks_def default_pairs_wf jsort_JObj del: jsort.simps(2) wf_json.simps floats_ok.simps no_floats.simps)

lemma read_prepared_body:
  assumes "prepared_ok env p"
  shows "read_prepared name env ages (prepared_body env p) = Inr (InlineRecord (p\<lparr>p_metadata := jsort_obj (p_metadata p)\<rparr>))"
proof -
  have "metadata_ok env (p_metadata p)" using assms by (simp add: prepared_ok_def)
  moreover have "''ciphertext_file'' \<notin> fst ` set (jsort_obj (prepared_to_obj p))"
    by (simp add: prepared_keys PREPARED_FIELDS_def)
  ultimately show ?thesis
    using prepared_from_dict_to_obj[OF assms]
    by (simp add: read_prepared_def prepared_body_def loads_prepared[OF prepared_json(1)])
qed

lemma read_prepared_file_body:
  assumes "prepared_file_ok env f"
    and "map_of ages (case name of None \<Rightarrow> pf_event_id f | Some n \<Rightarrow> n) = Some bytes"
    and "sha256_hex env bytes = pf_ciphertext_sha256 f" "int (length bytes) = pf_ciphertext_size f"
  shows "read_prepared name env ages (prepared_file_body env f) = Inr (FileRecord (f\<lparr>pf_metadata := jsort_obj (pf_metadata f)\<rparr>))"
proof -
  have "metadata_ok env (pf_metadata f)" using assms(1) by (simp add: prepared_file_ok_def)
  moreover have "''ciphertext_file'' \<in> fst ` set (jsort_obj (prepared_file_to_obj f))"
    by (simp add: prepared_keys PREPARED_FILE_FIELDS_def)
  ultimately show ?thesis
    using prepared_file_from_dict_to_obj[OF assms(1)] assms(2-4)
    by (cases name) (simp_all add: read_prepared_def prepared_file_body_def loads_prepared[OF prepared_json(2)] check_ciphertext_def)
qed

end
