(* ===== verification/Outbox.thy ===== *)
theory Outbox
  imports Prepared
begin

text \<open>
  The trigger queue and prepared outbox of \<^verbatim>\<open>src/josh_room/pcc_outbox.py\<close> as a state
  machine over its directories. A queue file, a prepared record and a receipt are the text
  stored under an event id; a ciphertext file is its bytes. Every operation runs under the
  exclusive file lock, so it is one function from the state before to a result and the state
  after. A clock reading and the outcome of each durable publication are arguments: a
  publication can fail before or after the rename that makes it visible.

  The directories exist and hold regular files (the symbolic-link and file-type checks
  pass), and moving a corrupt file to quarantine succeeds.
\<close>

section \<open>Storage\<close>

text \<open>What was moved to the quarantine directory, under names the queue never reads back.\<close>

datatype quarantined =
    CorruptQueueFile string
  | CorruptPrepared string "string option"
  | OrphanCiphertext string
  | CaptureGapCiphertext string string

record outbox =
  queue_files :: "(string, string) dict"
  prepared_files :: "(string, string) dict"
  age_files :: "(string, string) dict"
  quarantine_items :: "quarantined list"
  receipt_files :: "(string, string) dict"
  partial_files :: nat

text \<open>
  How one durable publication ends: no temporary file could be created (an OSError outside
  the publisher's handler), a failure before the rename, a failure after it (the directory
  could not be synchronised), or success.
\<close>

datatype publication = NoTemporary | FailedBefore | FailedAfter | Published

fun publish :: "publication \<Rightarrow> string \<Rightarrow> string \<Rightarrow> (string, string) dict \<Rightarrow> unit result \<times> (string, string) dict" where
  "publish NoTemporary path body files = (Inl (OSError ''temporary file''), files)"
| "publish FailedBefore path body files =
     (Inl (OutboxStorageError ''publication-failed'' (Some (has_key files path))), files)"
| "publish FailedAfter path body files =
     (Inl (OutboxStorageError ''publication-failed'' (Some True)), AList.update path body files)"
| "publish Published path body files = (Inr (), AList.update path body files)"

fun is_os_error :: "py_error \<Rightarrow> bool" where
  "is_os_error (OSError _) = True"
| "is_os_error FileNotFoundError = True"
| "is_os_error FileExistsError = True"
| "is_os_error _ = False"

type_synonym 'a step = "'a result \<times> outbox"

definition bind_st :: "'a step \<Rightarrow> ('a \<Rightarrow> outbox \<Rightarrow> 'b step) \<Rightarrow> 'b step" where
  "bind_st m k = (case m of (Inl e, st) \<Rightarrow> (Inl e, st) | (Inr x, st) \<Rightarrow> k x st)"

text \<open>A check or a reading that leaves the state alone.\<close>

definition reads_st :: "'a result \<Rightarrow> outbox \<Rightarrow> ('a \<Rightarrow> 'b step) \<Rightarrow> 'b step" where
  "reads_st r st k = (case r of Inl e \<Rightarrow> (Inl e, st) | Inr x \<Rightarrow> k x)"

text \<open>\<^verbatim>\<open>_publish_record_unlocked\<close>, alone and followed by the return of the record.\<close>

definition publish_record :: "outbox_env \<Rightarrow> publication \<Rightarrow> queue_record \<Rightarrow> outbox \<Rightarrow> unit step" where
  "publish_record env pub r st =
     (case publish pub (q_event_id r) (record_body env r) (queue_files st) of
        (res, files) \<Rightarrow> (res, st\<lparr>queue_files := files\<rparr>))"

definition publish_return :: "outbox_env \<Rightarrow> publication \<Rightarrow> queue_record \<Rightarrow> outbox \<Rightarrow> queue_record step" where
  "publish_return env pub r st = bind_st (publish_record env pub r st) (\<lambda>_ st'. (Inr r, st'))"

text \<open>
  \<^verbatim>\<open>_safe_records_unlocked\<close>: the readable records in the order of their sequence numbers;
  every other file is moved to quarantine and counted.
\<close>

definition readable :: "outbox_env \<Rightarrow> string \<times> string \<Rightarrow> bool" where
  "readable env f \<longleftrightarrow> ok (read_record env (snd f))"

definition record_of_file :: "outbox_env \<Rightarrow> string \<times> string \<Rightarrow> queue_record" where
  "record_of_file env f = projr (read_record env (snd f))"

definition safe_records :: "outbox_env \<Rightarrow> outbox \<Rightarrow> queue_record list" where
  "safe_records env st =
     sort_key (\<lambda>r. (q_sequence r, q_event_id r)) (map (record_of_file env) (filter (readable env) (queue_files st)))"

definition quarantine_corrupt :: "outbox_env \<Rightarrow> outbox \<Rightarrow> outbox" where
  "quarantine_corrupt env st =
     st\<lparr>queue_files := filter (readable env) (queue_files st),
        quarantine_items := quarantine_items st @
          map (\<lambda>f. CorruptQueueFile (snd f)) (filter (\<lambda>f. \<not> readable env f) (queue_files st))\<rparr>"

definition corrupt_count :: "outbox_env \<Rightarrow> outbox \<Rightarrow> nat" where
  "corrupt_count env st = length (filter (\<lambda>f. \<not> readable env f) (queue_files st))"

text \<open>\<^verbatim>\<open>path.stat().st_size\<close> of a record's own file, and the sum over some records.\<close>

definition file_size :: "outbox \<Rightarrow> string \<Rightarrow> int result" where
  "file_size st event_id =
     (case map_of (queue_files st) event_id of None \<Rightarrow> Inl FileNotFoundError | Some t \<Rightarrow> Inr (int (utf8_len t)))"

definition queue_bytes :: "outbox \<Rightarrow> queue_record list \<Rightarrow> int result" where
  "queue_bytes st rs = bind_r (map_r (\<lambda>r. file_size st (q_event_id r)) rs) (\<lambda>sizes. Inr (sum_list sizes))"

definition body_size :: "string \<Rightarrow> int" where
  "body_size body = int (utf8_len body)"

text \<open>\<^verbatim>\<open>_prepared_bytes_unlocked\<close>: every file of the prepared directory (leftover temporary files aside).\<close>

definition prepared_bytes :: "outbox \<Rightarrow> int" where
  "prepared_bytes st =
     sum_list (map (\<lambda>f. int (utf8_len (snd f))) (prepared_files st)) + sum_list (map (\<lambda>f. int (length (snd f))) (age_files st))"

definition must_read :: "outbox_env \<Rightarrow> string \<Rightarrow> outbox \<Rightarrow> queue_record result" where
  "must_read env event_id st =
     bind_r (as_identifier (JStr event_id)) (\<lambda>_.
     (case map_of (queue_files st) event_id of
        None \<Rightarrow> Inl (OutboxError ''outbox record not found'')
      | Some txt \<Rightarrow>
          (case read_record env txt of
             Inl _ \<Rightarrow> Inl (OutboxError ''outbox record is quarantined'')
           | Inr r \<Rightarrow> Inr r)))"

text \<open>\<^verbatim>\<open>_now\<close>: the clock may return anything.\<close>

definition now_of :: "json \<Rightarrow> rat result" where
  "now_of v =
     (case finite_number v of
        None \<Rightarrow> Inl (OutboxStorageError ''clock-invalid'' None)
      | Some t \<Rightarrow> if the (num_val v) < 0 then Inl (OutboxStorageError ''clock-invalid'' None) else Inr t)"


section \<open>Enqueue\<close>

record CaptureGap =
  gap_reason_code :: string
  gap_pending_preserved :: bool
  gap_retryable :: bool

record QueueReceipt =
  rc_event_id :: string
  rc_state :: QueueState
  rc_coalesced :: bool
  rc_sequence :: "int option"
  rc_is_final :: bool
  rc_diagnostic :: "CaptureGap option"

definition capture_gap :: "string \<Rightarrow> bool \<Rightarrow> CaptureGap" where
  "capture_gap reason preserved = \<lparr>gap_reason_code = reason, gap_pending_preserved = preserved, gap_retryable = True\<rparr>"

definition gap_receipt :: "string \<Rightarrow> string \<Rightarrow> bool \<Rightarrow> QueueReceipt" where
  "gap_receipt event_id reason preserved =
     \<lparr>rc_event_id = event_id, rc_state = CAPTURE_GAP, rc_coalesced = False, rc_sequence = None, rc_is_final = False,
      rc_diagnostic = Some (capture_gap reason preserved)\<rparr>"

definition coalesced_gap :: "queue_record \<Rightarrow> string \<Rightarrow> bool \<Rightarrow> QueueReceipt" where
  "coalesced_gap r reason preserved =
     \<lparr>rc_event_id = q_event_id r, rc_state = CAPTURE_GAP, rc_coalesced = True, rc_sequence = Some (q_sequence r),
      rc_is_final = q_is_final r, rc_diagnostic = Some (capture_gap reason preserved)\<rparr>"

text \<open>The validated arguments of one trigger.\<close>

record trigger =
  t_event_id :: string
  t_session_id :: string
  t_checkpoint :: checkpoint
  t_metadata :: jobj
  t_is_final :: bool
  t_initial_state :: QueueState
  t_coalesce :: bool

definition initial_state :: "string \<Rightarrow> QueueState" where
  "initial_state decision =
     (if decision = ''deny'' then POLICY_DENIED else if decision = ''quarantine'' then QUARANTINED else QUEUED)"

definition trigger_make ::
  "outbox_env \<Rightarrow> json \<Rightarrow> json \<Rightarrow> json \<Rightarrow> json \<Rightarrow> json \<Rightarrow> json \<Rightarrow> bool \<Rightarrow> trigger result" where
  "trigger_make env event_id session_id checkpoint is_final metadata decision coalesce =
     bind_r (as_identifier event_id) (\<lambda>e.
     bind_r (as_identifier session_id) (\<lambda>s.
     bind_r (validate_checkpoint checkpoint) (\<lambda>c.
     bind_r (validate_metadata env (or_empty metadata)) (\<lambda>m.
     bind_r (raise_if (\<not> type_is_bool is_final) (ValueError ''final marker is invalid'')) (\<lambda>_.
     bind_r (require_in decision [''allow'', ''deny'', ''local-only'', ''quarantine''] (ValueError ''policy decision is invalid'')) (\<lambda>_.
     Inr \<lparr>t_event_id = e, t_session_id = s, t_checkpoint = c, t_metadata = m, t_is_final = (is_final = JBool True),
       t_initial_state = initial_state (str_of decision), t_coalesce = coalesce\<rparr>))))))"

definition record_key :: "queue_record \<Rightarrow> string \<times> string \<times> string \<times> int \<times> int \<times> string" where
  "record_key r = checkpoint_key (q_session_id r) (q_checkpoint r)"

definition find_existing :: "trigger \<Rightarrow> queue_record list \<Rightarrow> queue_record option" where
  "find_existing t rs =
     (if t_coalesce t
      then find (\<lambda>r. q_state r \<in> {QUEUED, RETRYABLE_FAILURE, CAPTURE_GAP} \<and>
          record_key r = checkpoint_key (t_session_id t) (t_checkpoint t)) rs
      else None)"

definition find_event_owner :: "trigger \<Rightarrow> queue_record list \<Rightarrow> queue_record option" where
  "find_event_owner t rs = find (\<lambda>r. t_event_id t \<in> set (q_event_ids r)) rs"

text \<open>The event ids after coalescing, and whether an older id had to make room for a final marker.\<close>

definition coalesced_ids :: "trigger \<Rightarrow> queue_record \<Rightarrow> string list \<times> bool" where
  "coalesced_ids t r =
     (if t_event_id t \<in> set (q_event_ids r) then (q_event_ids r, False)
      else if length (q_event_ids r) \<ge> MAX_EVENT_IDS
        then (q_event_id r # take (MAX_EVENT_IDS - 2) (drop 1 (q_event_ids r)) @ [t_event_id t], True)
      else (q_event_ids r @ [t_event_id t], False))"

definition coalesce_record :: "trigger \<Rightarrow> queue_record \<Rightarrow> queue_record" where
  "coalesce_record t r =
     r\<lparr>q_event_ids := fst (coalesced_ids t r), q_is_final := q_is_final r \<or> t_is_final t,
       q_final_event_id := (if t_is_final t then Some (t_event_id t) else q_final_event_id r)\<rparr>"

definition enqueue_coalesced :: "outbox_env \<Rightarrow> publication \<Rightarrow> trigger \<Rightarrow> queue_record \<Rightarrow> outbox \<Rightarrow> QueueReceipt step" where
  "enqueue_coalesced env pub t r st =
     (if t_event_id t \<notin> set (q_event_ids r) \<and> length (q_event_ids r) \<ge> MAX_EVENT_IDS \<and> \<not> t_is_final t
      then (Inr (coalesced_gap r ''event-id-quota'' True), st)
      else
        let u = coalesce_record t r in
        (case publish_record env pub u st of
           (Inl (OutboxStorageError reason preserved), st') \<Rightarrow>
             (Inr (coalesced_gap r ''publication-failed'' (case preserved of None \<Rightarrow> True | Some b \<Rightarrow> b)), st')
         | (Inl e, st') \<Rightarrow> (Inl e, st')
         | (Inr _, st') \<Rightarrow>
             (Inr (if snd (coalesced_ids t r) then coalesced_gap u ''event-id-quota'' True
                   else \<lparr>rc_event_id = q_event_id u, rc_state = q_state u, rc_coalesced = True,
                     rc_sequence = Some (q_sequence u), rc_is_final = q_is_final u, rc_diagnostic = None\<rparr>), st')))"

text \<open>\<^verbatim>\<open>max((item.sequence for item in records), default=0) + 1\<close>.\<close>

definition next_sequence :: "queue_record list \<Rightarrow> int" where
  "next_sequence rs = (if rs = [] then 0 else Max (set (map q_sequence rs))) + 1"

definition new_record :: "trigger \<Rightarrow> int \<Rightarrow> queue_record" where
  "new_record t seq =
     \<lparr>q_event_id = t_event_id t, q_session_id = t_session_id t, q_checkpoint = t_checkpoint t,
      q_metadata = t_metadata t, q_state = t_initial_state t, q_sequence = seq, q_event_ids = [t_event_id t],
      q_is_final = t_is_final t, q_final_event_id = (if t_is_final t then Some (t_event_id t) else None),
      q_owner = None, q_lease_until = None, q_lease_seconds = 60, q_resume_state = QUEUED, q_failure_code = None,
      q_object_key = None, q_ciphertext_sha256 = None, q_ciphertext_size = None, q_index_id = None,
      q_expanded_event_ids = [], q_expanded_checkpoint = None\<rparr>"

definition enqueue_new :: "outbox_env \<Rightarrow> publication \<Rightarrow> trigger \<Rightarrow> queue_record list \<Rightarrow> outbox \<Rightarrow> QueueReceipt step" where
  "enqueue_new env pub t rs st =
     (if length rs \<ge> max_events env then (Inr (gap_receipt (t_event_id t) ''queue-full'' False), st)
      else reads_st (queue_bytes st rs) st (\<lambda>current.
        let seq = next_sequence rs; r = new_record t seq in
        if current + body_size (record_body env r) > max_bytes env
        then (Inr (gap_receipt (t_event_id t) ''queue-full'' False), st)
        else
          (case publish_record env pub r st of
             (Inl (OutboxStorageError reason preserved), st') \<Rightarrow>
               (Inr (gap_receipt (t_event_id t) ''publication-failed'' (case preserved of None \<Rightarrow> False | Some b \<Rightarrow> b)), st')
           | (Inl e, st') \<Rightarrow> (Inl e, st')
           | (Inr _, st') \<Rightarrow>
               (Inr \<lparr>rc_event_id = t_event_id t, rc_state = t_initial_state t, rc_coalesced = False,
                  rc_sequence = Some seq, rc_is_final = t_is_final t, rc_diagnostic = None\<rparr>, st'))))"

text \<open>The body of the lock's \<^verbatim>\<open>with\<close> statement.\<close>

definition enqueue_locked :: "outbox_env \<Rightarrow> publication \<Rightarrow> trigger \<Rightarrow> outbox \<Rightarrow> QueueReceipt step" where
  "enqueue_locked env pub t st0 =
     (let rs = safe_records env st0; st = quarantine_corrupt env st0;
          key = checkpoint_key (t_session_id t) (t_checkpoint t) in
      case find_event_owner t rs of
        Some r \<Rightarrow>
          if q_event_id r = t_event_id t then
            (if record_key r = key
             then (Inr \<lparr>rc_event_id = t_event_id t, rc_state = q_state r, rc_coalesced = False,
                     rc_sequence = Some (q_sequence r), rc_is_final = q_is_final r, rc_diagnostic = None\<rparr>, st)
             else (Inr (gap_receipt (t_event_id t) ''event-id-conflict'' True), st))
          else (case find_existing t rs of
              Some x \<Rightarrow> enqueue_coalesced env pub t x st
            | None \<Rightarrow> enqueue_new env pub t rs st)
      | None \<Rightarrow> (case find_existing t rs of
              Some x \<Rightarrow> enqueue_coalesced env pub t x st
            | None \<Rightarrow> enqueue_new env pub t rs st))"

text \<open>
  \<^verbatim>\<open>_enqueue_authority\<close>: a storage failure never escapes, it becomes a capture-gap
  receipt. The outcome of taking the lock is an argument.
\<close>

definition enqueue ::
  "outbox_env \<Rightarrow> unit result \<Rightarrow> publication \<Rightarrow> json \<Rightarrow> json \<Rightarrow> json \<Rightarrow> json \<Rightarrow> json \<Rightarrow> json \<Rightarrow> bool \<Rightarrow> outbox \<Rightarrow> QueueReceipt step" where
  "enqueue env lock pub event_id session_id checkpoint is_final metadata decision coalesce st =
     reads_st (trigger_make env event_id session_id checkpoint is_final metadata decision coalesce) st (\<lambda>t.
     (case (case lock of Inl e \<Rightarrow> (Inl e, st) | Inr _ \<Rightarrow> enqueue_locked env pub t st) of
        (Inl (OutboxStorageError reason _), st') \<Rightarrow>
          (Inr (if reason = ''lock-timeout'' then gap_receipt (t_event_id t) ''lock-timeout'' True
                else gap_receipt (t_event_id t) ''storage-unavailable'' False), st')
      | (Inl e, st') \<Rightarrow>
          if is_os_error e then (Inr (gap_receipt (t_event_id t) ''storage-unavailable'' False), st') else (Inl e, st')
      | (Inr rc, st') \<Rightarrow> (Inr rc, st')))"



section \<open>Leases\<close>

definition owned_states :: "QueueState list" where
  "owned_states = [CLAIMED, SOURCE_SNAPSHOTTED, PREPARED_ENCRYPTED, OBJECT_UPLOADED, INDEX_PUBLISHED]"

definition claimable :: "queue_record \<Rightarrow> bool" where
  "claimable r \<longleftrightarrow>
     q_state r \<in> {QUEUED, RETRYABLE_FAILURE, CAPTURE_GAP, SOURCE_SNAPSHOTTED, PREPARED_ENCRYPTED, OBJECT_UPLOADED,
       INDEX_PUBLISHED} \<and> q_owner r = None"

text \<open>The claimed form of a record: the progress made so far becomes the state to resume.\<close>

definition claimed_record :: "outbox_env \<Rightarrow> string \<Rightarrow> rat \<Rightarrow> queue_record \<Rightarrow> queue_record" where
  "claimed_record env owner now r =
     r\<lparr>q_state := CLAIMED, q_owner := Some owner, q_lease_until := Some (float_add now (lease_secs env)),
       q_lease_seconds := lease_secs env,
       q_resume_state := (if q_state r \<in> {RETRYABLE_FAILURE, CAPTURE_GAP} then q_resume_state r else q_state r),
       q_failure_code := None\<rparr>"

definition claim :: "outbox_env \<Rightarrow> json \<Rightarrow> publication \<Rightarrow> json \<Rightarrow> outbox \<Rightarrow> queue_record option step" where
  "claim env clock pub owner st0 =
     reads_st (as_identifier owner) st0 (\<lambda>ow.
     let st = quarantine_corrupt env st0 in
     (case find claimable (safe_records env st0) of
        None \<Rightarrow> (Inr None, st)
      | Some r \<Rightarrow>
          reads_st (now_of clock) st (\<lambda>now.
          bind_st (publish_return env pub (claimed_record env ow now r) st) (\<lambda>c st'. (Inr (Some c), st')))))"

definition lease_expired :: "queue_record \<Rightarrow> rat \<Rightarrow> bool" where
  "lease_expired r now \<longleftrightarrow>
     q_state r \<in> set owned_states \<and> q_owner r \<noteq> None \<and> q_lease_until r \<noteq> None \<and> \<not> the (q_lease_until r) > now"

definition taken_record :: "string \<Rightarrow> rat \<Rightarrow> queue_record \<Rightarrow> queue_record" where
  "taken_record owner now r = r\<lparr>q_owner := Some owner, q_lease_until := Some (float_add now (q_lease_seconds r))\<rparr>"

definition claim_specific ::
  "outbox_env \<Rightarrow> json \<Rightarrow> publication \<Rightarrow> json \<Rightarrow> json \<Rightarrow> json \<Rightarrow> outbox \<Rightarrow> queue_record option step" where
  "claim_specific env clock pub event_id owner takeover_flag st =
     reads_st (as_identifier event_id) st (\<lambda>e.
     reads_st (as_identifier owner) st (\<lambda>ow.
     reads_st (raise_if (\<not> type_is_bool takeover_flag) (ValueError ''takeover flag is invalid'')) st (\<lambda>_.
     reads_st (must_read env e st) st (\<lambda>r.
     if q_owner r = None \<and> \<not> claimable r then (Inr None, st)
     else reads_st (now_of clock) st (\<lambda>now.
       if claimable r then
         bind_st (publish_return env pub (claimed_record env ow now r) st) (\<lambda>c st'. (Inr (Some c), st'))
       else if takeover_flag \<noteq> JBool True \<or> \<not> lease_expired r now then (Inl LeaseConflict, st)
       else bind_st (publish_return env pub (taken_record ow now r) st) (\<lambda>c st'. (Inr (Some c), st')))))))"

definition require_claim :: "queue_record \<Rightarrow> string \<Rightarrow> rat \<Rightarrow> unit result" where
  "require_claim r owner now =
     raise_if (q_state r \<notin> set owned_states \<or> q_owner r \<noteq> Some owner \<or> q_lease_until r = None \<or>
       the (q_lease_until r) \<le> now) LeaseConflict"

text \<open>
  \<^verbatim>\<open>_require_claim\<close> reads the clock only when the first three conditions pass; a record
  that fails one of them raises before an invalid clock could.
\<close>

definition require_claim_at :: "queue_record \<Rightarrow> string \<Rightarrow> json \<Rightarrow> unit result" where
  "require_claim_at r owner clock =
     (if q_state r \<notin> set owned_states \<or> q_owner r \<noteq> Some owner \<or> q_lease_until r = None then Inl LeaseConflict
      else bind_r (now_of clock) (require_claim r owner))"

text \<open>\<^verbatim>\<open>renew\<close> and \<^verbatim>\<open>takeover\<close> read the clock twice: for the check and for the new lease.\<close>

definition renew :: "outbox_env \<Rightarrow> json \<Rightarrow> json \<Rightarrow> publication \<Rightarrow> string \<Rightarrow> json \<Rightarrow> outbox \<Rightarrow> queue_record step" where
  "renew env clock clock2 pub event_id owner st =
     reads_st (as_identifier owner) st (\<lambda>ow.
     reads_st (must_read env event_id st) st (\<lambda>r.
     reads_st (require_claim_at r ow clock) st (\<lambda>_.
     reads_st (now_of clock2) st (\<lambda>now.
     publish_return env pub (r\<lparr>q_lease_until := Some (float_add now (q_lease_seconds r))\<rparr>) st))))"

definition takeover :: "outbox_env \<Rightarrow> json \<Rightarrow> json \<Rightarrow> publication \<Rightarrow> string \<Rightarrow> json \<Rightarrow> outbox \<Rightarrow> queue_record step" where
  "takeover env clock clock2 pub event_id owner st =
     reads_st (as_identifier owner) st (\<lambda>ow.
     reads_st (must_read env event_id st) st (\<lambda>r.
     if q_state r \<notin> set owned_states \<or> q_owner r = None \<or> q_lease_until r = None then (Inl LeaseConflict, st)
     else reads_st (now_of clock) st (\<lambda>now.
       if \<not> lease_expired r now then (Inl LeaseConflict, st)
       else reads_st (now_of clock2) st (\<lambda>now2. publish_return env pub (taken_record ow now2 r) st))))"


section \<open>Transitions\<close>

definition next_state_valid :: "queue_record \<Rightarrow> QueueState \<Rightarrow> bool" where
  "next_state_valid r target =
     (case target of
        SOURCE_SNAPSHOTTED \<Rightarrow> q_resume_state r = QUEUED
      | PREPARED_ENCRYPTED \<Rightarrow> q_resume_state r = SOURCE_SNAPSHOTTED
      | OBJECT_UPLOADED \<Rightarrow> q_resume_state r = PREPARED_ENCRYPTED
      | INDEX_PUBLISHED \<Rightarrow> q_resume_state r = OBJECT_UPLOADED
      | COMMITTED \<Rightarrow> q_resume_state r = INDEX_PUBLISHED \<and> q_index_id r \<noteq> None
      | _ \<Rightarrow> target \<in> {RETRYABLE_FAILURE, QUARANTINED, POLICY_DENIED, CAPTURE_GAP})"

text \<open>
  The keyword arguments of \<^verbatim>\<open>transition\<close> are a dictionary. \<^verbatim>\<open>details.get(k) not in
  {None, x}\<close> raises for an unhashable value and otherwise compares.
\<close>

definition detail_differs :: "jobj \<Rightarrow> string \<Rightarrow> json \<Rightarrow> bool result" where
  "detail_differs details k current =
     (case jget details k of
        JList _ \<Rightarrow> Inl (TypeError ''unhashable type'')
      | JObj _ \<Rightarrow> Inl (TypeError ''unhashable type'')
      | v \<Rightarrow> Inr (v \<noteq> JNull \<and> \<not> py_eq v current))"

definition reject_different :: "bool \<Rightarrow> jobj \<Rightarrow> string \<Rightarrow> json \<Rightarrow> unit result" where
  "reject_different applies details k current =
     (if applies then bind_r (detail_differs details k current) (\<lambda>b. raise_if b InvalidTransition) else Inr ())"

definition detail_or :: "jobj \<Rightarrow> string \<Rightarrow> string \<Rightarrow> json" where
  "detail_or details k dflt = (case map_of details k of None \<Rightarrow> JStr dflt | Some v \<Rightarrow> v)"

text \<open>The digest named by an object key of either kind.\<close>

definition key_digest :: "string \<Rightarrow> string option" where
  "key_digest s = (case OBJECT_KEY_GROUP s of Some d \<Rightarrow> Some d | None \<Rightarrow> EVIDENCE_OBJECT_KEY_GROUP s)"

text \<open>The fields the keyword arguments set; a missing argument leaves the record's value.\<close>

definition detail_object_key :: "QueueState \<Rightarrow> jobj \<Rightarrow> queue_record \<Rightarrow> (string option \<times> string option) result" where
  "detail_object_key target details r =
     (case map_of details ''object_key'' of
        None \<Rightarrow> Inr (q_object_key r, q_ciphertext_sha256 r)
      | Some v \<Rightarrow>
          if \<not> is_str v then Inl (ValueError ''object key is invalid'')
          else (case key_digest (str_of v) of
                  None \<Rightarrow> Inl (ValueError ''object key is invalid'')
                | Some d \<Rightarrow>
                    if target = OBJECT_UPLOADED \<and> Some d \<noteq> q_ciphertext_sha256 r then Inl InvalidTransition
                    else Inr (Some (str_of v), Some d)))"

definition detail_size :: "QueueState \<Rightarrow> jobj \<Rightarrow> queue_record \<Rightarrow> int option result" where
  "detail_size target details r =
     (case map_of details ''ciphertext_size'' of
        None \<Rightarrow> Inr (q_ciphertext_size r)
      | Some v \<Rightarrow>
          if \<not> type_is_int v \<or> \<not> (0 \<le> int_of v \<and> int_of v \<le> MAX_CIPHERTEXT_BYTES)
          then Inl (ValueError ''ciphertext size is invalid'')
          else if target = OBJECT_UPLOADED \<and> Some (int_of v) \<noteq> q_ciphertext_size r then Inl InvalidTransition
          else Inr (Some (int_of v)))"

definition detail_index :: "jobj \<Rightarrow> queue_record \<Rightarrow> string option result" where
  "detail_index details r =
     (case map_of details ''index_id'' of
        None \<Rightarrow> Inr (q_index_id r)
      | Some v \<Rightarrow> bind_r (as_identifier v) (\<lambda>i. Inr (Some i)))"

text \<open>The record a transition publishes.\<close>

definition progressed_record :: "QueueState \<Rightarrow> jobj \<Rightarrow> queue_record \<Rightarrow> queue_record result" where
  "progressed_record target details r =
     bind_r (detail_object_key target details r) (\<lambda>(k, d).
     bind_r (detail_size target details r) (\<lambda>n.
     bind_r (detail_index details r) (\<lambda>i.
     Inr (r\<lparr>q_state := target, q_resume_state := (if target = COMMITTED then q_resume_state r else target),
       q_failure_code := None, q_object_key := k, q_ciphertext_sha256 := d, q_ciphertext_size := n, q_index_id := i,
       q_owner := (if target = COMMITTED then None else q_owner r),
       q_lease_until := (if target = COMMITTED then None else q_lease_until r)\<rparr>))))"

definition transitioned_record :: "QueueState \<Rightarrow> jobj \<Rightarrow> queue_record \<Rightarrow> queue_record result" where
  "transitioned_record target details r =
     (if target \<in> {RETRYABLE_FAILURE, QUARANTINED, CAPTURE_GAP, POLICY_DENIED}
      then bind_r (as_identifier (detail_or details ''reason_code'' (state_value target))) (\<lambda>reason.
        Inr (r\<lparr>q_state := target, q_failure_code := Some reason, q_owner := None, q_lease_until := None\<rparr>))
      else progressed_record target details r)"

definition transition ::
  "outbox_env \<Rightarrow> json \<Rightarrow> publication \<Rightarrow> string \<Rightarrow> json \<Rightarrow> json \<Rightarrow> jobj \<Rightarrow> outbox \<Rightarrow> queue_record step" where
  "transition env clock pub event_id owner target_value details st =
     reads_st (as_identifier owner) st (\<lambda>ow.
     (case queue_state_of target_value of
        None \<Rightarrow> (Inl InvalidTransition, st)
      | Some target \<Rightarrow>
          reads_st (must_read env event_id st) st (\<lambda>r.
          reads_st (if target \<in> {RETRYABLE_FAILURE, QUARANTINED} \<and> q_state r = target
                    then bind_r (as_identifier (detail_or details ''reason_code'' (state_value target))) (\<lambda>x. Inr (Some x))
                    else Inr None) st (\<lambda>requested.
          if requested \<noteq> None \<and> q_failure_code r = requested then (Inr r, st)
          else if q_state r = COMMITTED \<and> target = COMMITTED then (Inr r, st)
          else reads_st (require_claim_at r ow clock) st (\<lambda>_.
            if q_state r = target then
              reads_st (checks [
                 reject_different (target = OBJECT_UPLOADED) details ''object_key'' (opt_str (q_object_key r)),
                 reject_different (target = OBJECT_UPLOADED) details ''ciphertext_size''
                   (case q_ciphertext_size r of None \<Rightarrow> JNull | Some n \<Rightarrow> JInt n),
                 reject_different (target = INDEX_PUBLISHED) details ''index_id'' (opt_str (q_index_id r))]) st (\<lambda>_. (Inr r, st))
            else if \<not> next_state_valid r target then (Inl InvalidTransition, st)
            else reads_st (transitioned_record target details r) st (\<lambda>u. publish_return env pub u st))))))"

definition mark_uploaded ::
  "outbox_env \<Rightarrow> json \<Rightarrow> publication \<Rightarrow> string \<Rightarrow> json \<Rightarrow> json \<Rightarrow> json \<Rightarrow> outbox \<Rightarrow> queue_record step" where
  "mark_uploaded env clock pub event_id owner object_key ciphertext_size st =
     transition env clock pub event_id owner (JStr (state_value OBJECT_UPLOADED))
       ((''object_key'', object_key) # (if ciphertext_size = JNull then [] else [(''ciphertext_size'', ciphertext_size)])) st"

definition publish_index :: "outbox_env \<Rightarrow> json \<Rightarrow> publication \<Rightarrow> string \<Rightarrow> json \<Rightarrow> json \<Rightarrow> outbox \<Rightarrow> queue_record step" where
  "publish_index env clock pub event_id owner index_id st =
     transition env clock pub event_id owner (JStr (state_value INDEX_PUBLISHED)) [(''index_id'', index_id)] st"

definition retry :: "outbox_env \<Rightarrow> json \<Rightarrow> publication \<Rightarrow> string \<Rightarrow> json \<Rightarrow> json \<Rightarrow> outbox \<Rightarrow> queue_record step" where
  "retry env clock pub event_id owner reason st =
     transition env clock pub event_id owner (JStr (state_value RETRYABLE_FAILURE)) [(''reason_code'', reason)] st"

definition quarantine_event :: "outbox_env \<Rightarrow> json \<Rightarrow> publication \<Rightarrow> string \<Rightarrow> json \<Rightarrow> json \<Rightarrow> outbox \<Rightarrow> queue_record step" where
  "quarantine_event env clock pub event_id owner reason st =
     transition env clock pub event_id owner (JStr (state_value QUARANTINED)) [(''reason_code'', reason)] st"

definition commit :: "outbox_env \<Rightarrow> json \<Rightarrow> publication \<Rightarrow> string \<Rightarrow> json \<Rightarrow> outbox \<Rightarrow> queue_record step" where
  "commit env clock pub event_id owner st =
     transition env clock pub event_id owner (JStr (state_value COMMITTED)) [] st"



section \<open>Preparing ciphertext\<close>

definition prepared_progress :: "string \<Rightarrow> int \<Rightarrow> queue_record \<Rightarrow> queue_record" where
  "prepared_progress digest sz r =
     r\<lparr>q_state := PREPARED_ENCRYPTED, q_resume_state := PREPARED_ENCRYPTED, q_failure_code := None,
       q_ciphertext_sha256 := Some digest, q_ciphertext_size := Some sz\<rparr>"

definition quota_gap :: "queue_record \<Rightarrow> queue_record" where
  "quota_gap r =
     r\<lparr>q_state := CAPTURE_GAP, q_owner := None, q_lease_until := None, q_resume_state := SOURCE_SNAPSHOTTED,
       q_failure_code := Some ''prepared-byte-quota''\<rparr>"

text \<open>The guard both preparation entry points share: None continues, Some returns the record as it is.\<close>

definition prepare_guard :: "queue_record \<Rightarrow> queue_record option result" where
  "prepare_guard r =
     (if q_resume_state r \<noteq> SOURCE_SNAPSHOTTED
      then if q_resume_state r \<in> {PREPARED_ENCRYPTED, OBJECT_UPLOADED, INDEX_PUBLISHED} then Inr (Some r)
           else Inl InvalidTransition
      else Inr None)"

definition publish_prepared :: "outbox_env \<Rightarrow> publication \<Rightarrow> PreparedRecord \<Rightarrow> outbox \<Rightarrow> unit step" where
  "publish_prepared env pub p st =
     (case publish pub (p_event_id p) (prepared_body env p) (prepared_files st) of
        (res, files) \<Rightarrow> (res, st\<lparr>prepared_files := files\<rparr>))"

definition prepare_encrypted ::
  "outbox_env \<Rightarrow> json \<Rightarrow> publication \<Rightarrow> publication \<Rightarrow> json \<Rightarrow> json \<Rightarrow> string \<Rightarrow> json \<Rightarrow> outbox \<Rightarrow> queue_record step" where
  "prepare_encrypted env clock pub pub2 event_id owner ciphertext metadata st =
     reads_st (raise_if (int (length ciphertext) > MAX_CIPHERTEXT_BYTES) (ValueError ''ciphertext is invalid'')) st (\<lambda>_.
     reads_st (as_identifier event_id) st (\<lambda>e.
     reads_st (validate_metadata env (or_empty metadata)) st (\<lambda>m.
     reads_st (must_read env e st) st (\<lambda>r.
     reads_st (as_identifier owner) st (\<lambda>ow.
     reads_st (require_claim_at r ow clock) st (\<lambda>_.
     reads_st (prepare_guard r) st (\<lambda>g.
     (case g of
        Some x \<Rightarrow> (Inr x, st)
      | None \<Rightarrow>
          let p = \<lparr>p_event_id = e, p_ciphertext = ciphertext, p_metadata = m,
                p_ciphertext_sha256 = sha256_hex env ciphertext, p_ciphertext_size = int (length ciphertext)\<rparr>;
              rs = safe_records env st; st' = quarantine_corrupt env st;
              u = prepared_progress (p_ciphertext_sha256 p) (p_ciphertext_size p) r;
              existing = (case map_of (prepared_files st') e of None \<Rightarrow> 0 | Some t \<Rightarrow> int (utf8_len t)) in
          reads_st (queue_bytes st' rs) st' (\<lambda>current.
          reads_st (file_size st' (q_event_id r)) st' (\<lambda>own.
          if current - own + body_size (record_body env u) + prepared_bytes st' - existing + body_size (prepared_body env p)
             > max_bytes env
          then publish_return env pub (quota_gap r) st'
          else bind_st (publish_prepared env pub p st') (\<lambda>_ st''. publish_return env pub2 u st''))))))))))) "

text \<open>The file handed to \<^verbatim>\<open>prepare_encrypted_file\<close>.\<close>

datatype source_file = MissingSource | IrregularSource | SourceFile bool string

definition read_source :: "outbox_env \<Rightarrow> source_file \<Rightarrow> (string \<times> int \<times> string) result" where
  "read_source env src =
     (case src of
        MissingSource \<Rightarrow> Inl (OutboxStorageError ''prepared-record-unavailable'' None)
      | IrregularSource \<Rightarrow> Inl (ValueError ''ciphertext file is invalid'')
      | SourceFile private bytes \<Rightarrow>
          if \<not> private then Inl (ValueError ''ciphertext file is not private'')
          else if int (length bytes) > MAX_CIPHERTEXT_BYTES then Inl (ValueError ''ciphertext file is too large'')
          else Inr (sha256_hex env bytes, int (length bytes), bytes))"

text \<open>
  \<^verbatim>\<open>_publish_file_unlocked\<close>: the ciphertext is renamed into place before its record is
  published; when that publication fails both are removed again. An OSError raised before the
  publisher's handler is turned into publication-failed by the outer one, which removes the
  ciphertext. The source was checked by the caller under no lock, and is read again here.
\<close>

definition publish_file :: "outbox_env \<Rightarrow> publication \<Rightarrow> PreparedFileRecord \<Rightarrow> source_file \<Rightarrow> outbox \<Rightarrow> unit step" where
  "publish_file env pub p src st =
     (let e = pf_event_id p in
      case src of
        SourceFile private bytes \<Rightarrow>
          if \<not> private \<or> sha256_hex env bytes \<noteq> pf_ciphertext_sha256 p \<or> int (length bytes) \<noteq> pf_ciphertext_size p
          then (Inl (OutboxStorageError ''publication-failed'' (Some False)), st\<lparr>age_files := AList.delete e (age_files st)\<rparr>)
          else if has_key (age_files st) e \<or> has_key (prepared_files st) e
          then (Inl (OutboxStorageError ''prepared-record-conflict'' None), st)
          else
            (case publish pub e (prepared_file_body env p) (prepared_files st) of
               (Inr _, files) \<Rightarrow> (Inr (), st\<lparr>prepared_files := files, age_files := AList.update e bytes (age_files st)\<rparr>)
             | (Inl (OutboxStorageError k b), files) \<Rightarrow>
                 (Inl (OutboxStorageError k b), st\<lparr>prepared_files := AList.delete e files, age_files := AList.delete e (age_files st)\<rparr>)
             | (Inl _, files) \<Rightarrow>
                 (Inl (OutboxStorageError ''publication-failed'' (Some False)),
                  st\<lparr>prepared_files := files, age_files := AList.delete e (age_files st)\<rparr>))
      | _ \<Rightarrow> (Inl (OutboxStorageError ''publication-failed'' (Some False)), st\<lparr>age_files := AList.delete e (age_files st)\<rparr>))"

definition prepare_encrypted_file ::
  "outbox_env \<Rightarrow> json \<Rightarrow> publication \<Rightarrow> publication \<Rightarrow> json \<Rightarrow> json \<Rightarrow> source_file \<Rightarrow> json \<Rightarrow> outbox \<Rightarrow> queue_record step" where
  "prepare_encrypted_file env clock pub pub2 event_id owner src metadata st =
     reads_st (as_identifier event_id) st (\<lambda>e.
     reads_st (validate_metadata env (or_empty metadata)) st (\<lambda>m.
     reads_st (raise_if (has_key m ''content_sha256'' \<or> has_key m ''content_size'')
       (ValueError ''file-backed prepared metadata cannot contain plaintext identity'')) st (\<lambda>_.
     reads_st (read_source env src) st (\<lambda>(digest, sz, bytes).
     reads_st (prepared_file_make env (JStr e) (JStr (e @ ''.age'')) m (JStr digest) (JInt sz)) st (\<lambda>p.
     reads_st (must_read env e st) st (\<lambda>r.
     reads_st (as_identifier owner) st (\<lambda>ow.
     reads_st (require_claim_at r ow clock) st (\<lambda>_.
     reads_st (prepare_guard r) st (\<lambda>g.
     (case g of
        Some x \<Rightarrow> (Inr x, st)
      | None \<Rightarrow>
          let rs = safe_records env st; st' = quarantine_corrupt env st; u = prepared_progress digest sz r in
          reads_st (queue_bytes st' rs) st' (\<lambda>current.
          reads_st (file_size st' (q_event_id r)) st' (\<lambda>own.
          if current - own + body_size (record_body env u) + prepared_bytes st' + sz + body_size (prepared_file_body env p)
             > max_bytes env
          then publish_return env pub (quota_gap r) st'
          else bind_st (publish_file env pub p src st') (\<lambda>_ st''. publish_return env pub2 u st''))))))))))))) "

text \<open>\<^verbatim>\<open>PreparedOutbox._records_unlocked\<close>: every prepared record by its event id; one corrupt file fails all.\<close>

definition prepared_records :: "outbox_env \<Rightarrow> outbox \<Rightarrow> (string, prepared) dict result" where
  "prepared_records env st =
     (case map_r (\<lambda>f. read_prepared None env (age_files st) (snd f)) (prepared_files st) of
        Inl _ \<Rightarrow> Inl (OutboxStorageError ''prepared-record-corrupt'' None)
      | Inr ps \<Rightarrow> Inr (fold (\<lambda>p d. AList.update (prepared_event_id p) p d) ps []))"

definition require_prepared :: "outbox_env \<Rightarrow> queue_record \<Rightarrow> outbox \<Rightarrow> unit result" where
  "require_prepared env r st =
     bind_r (prepared_records env st) (\<lambda>ps.
     (case map_of ps (q_event_id r) of
        None \<Rightarrow> Inl (OutboxStorageError ''prepared-record-unavailable'' (Some True))
      | Some p \<Rightarrow>
          raise_if (Some (prepared_sha256 p) \<noteq> q_ciphertext_sha256 r \<or> Some (prepared_size p) \<noteq> q_ciphertext_size r)
            (OutboxStorageError ''prepared-record-conflict'' (Some True))))"

definition release :: "outbox_env \<Rightarrow> json \<Rightarrow> publication \<Rightarrow> json \<Rightarrow> json \<Rightarrow> outbox \<Rightarrow> queue_record step" where
  "release env clock pub event_id owner st =
     reads_st (as_identifier event_id) st (\<lambda>e.
     reads_st (as_identifier owner) st (\<lambda>ow.
     reads_st (must_read env e st) st (\<lambda>r.
     if q_owner r = None then
       (if q_state r \<noteq> PREPARED_ENCRYPTED \<or> q_resume_state r \<noteq> PREPARED_ENCRYPTED then (Inl LeaseConflict, st)
        else reads_st (require_prepared env r st) st (\<lambda>_. (Inr r, st)))
     else reads_st (require_claim_at r ow clock) st (\<lambda>_.
       if q_state r \<notin> {CLAIMED, PREPARED_ENCRYPTED} \<or> q_resume_state r \<noteq> PREPARED_ENCRYPTED then (Inl InvalidTransition, st)
       else reads_st (require_prepared env r st) st (\<lambda>_.
         publish_return env pub (r\<lparr>q_state := PREPARED_ENCRYPTED, q_owner := None, q_lease_until := None\<rparr>) st)))))"


section \<open>Recovery\<close>

text \<open>
  \<^verbatim>\<open>PreparedOutbox._quarantine_unlocked\<close> of one prepared record, with its ciphertext if any.
\<close>

definition quarantine_prepared :: "string \<Rightarrow> outbox \<Rightarrow> outbox" where
  "quarantine_prepared event_id st =
     st\<lparr>prepared_files := AList.delete event_id (prepared_files st),
        age_files := AList.delete event_id (age_files st),
        quarantine_items := quarantine_items st @
          [CorruptPrepared (case map_of (prepared_files st) event_id of None \<Rightarrow> [] | Some t \<Rightarrow> t) (map_of (age_files st) event_id)]\<rparr>"

text \<open>\<^verbatim>\<open>{**a, **b}\<close>.\<close>

definition dict_union :: "('k, 'v) dict \<Rightarrow> ('k, 'v) dict \<Rightarrow> ('k, 'v) dict" where
  "dict_union a b = fold (\<lambda>(k, v) d. AList.update k v d) b a"

definition reattached_record :: "bool \<Rightarrow> jobj \<Rightarrow> prepared \<Rightarrow> queue_record \<Rightarrow> queue_record" where
  "reattached_record fin m p r =
     r\<lparr>q_state := PREPARED_ENCRYPTED, q_resume_state := PREPARED_ENCRYPTED, q_metadata := m,
       q_is_final := q_is_final r \<or> fin,
       q_final_event_id := (case q_final_event_id r of Some f \<Rightarrow> Some f | None \<Rightarrow> if fin then Some (q_event_id r) else None),
       q_ciphertext_sha256 := Some (prepared_sha256 p), q_ciphertext_size := Some (prepared_size p)\<rparr>"

definition recovered_record :: "string \<Rightarrow> string \<Rightarrow> checkpoint \<Rightarrow> jobj \<Rightarrow> bool \<Rightarrow> int \<Rightarrow> prepared \<Rightarrow> queue_record" where
  "recovered_record e session c m fin seq p =
     \<lparr>q_event_id = e, q_session_id = session, q_checkpoint = c, q_metadata = m, q_state = PREPARED_ENCRYPTED,
      q_sequence = seq, q_event_ids = [e], q_is_final = fin, q_final_event_id = (if fin then Some e else None),
      q_owner = None, q_lease_until = None, q_lease_seconds = 60, q_resume_state = PREPARED_ENCRYPTED,
      q_failure_code = None, q_object_key = None, q_ciphertext_sha256 = Some (prepared_sha256 p),
      q_ciphertext_size = Some (prepared_size p), q_index_id = None, q_expanded_event_ids = [], q_expanded_checkpoint = None\<rparr>"

text \<open>The branch for a queue record that still exists.\<close>

definition reattach :: "outbox_env \<Rightarrow> json \<Rightarrow> publication \<Rightarrow> bool \<Rightarrow> jobj \<Rightarrow> prepared \<Rightarrow> queue_record \<Rightarrow> outbox \<Rightarrow> queue_record step" where
  "reattach env clock pub fin m p r st =
     reads_st (if q_owner r \<noteq> None \<and> q_lease_until r \<noteq> None
               then bind_r (now_of clock) (\<lambda>now. raise_if (the (q_lease_until r) > now) LeaseConflict)
               else Inr ()) st (\<lambda>_.
     let stale_owner = (q_owner r \<noteq> None);
         x = (if stale_owner then r\<lparr>q_owner := None, q_lease_until := None\<rparr> else r) in
     if q_resume_state x \<in> {PREPARED_ENCRYPTED, OBJECT_UPLOADED, INDEX_PUBLISHED} \<or> q_state x = COMMITTED
     then (if stale_owner then publish_return env pub x st else (Inr x, st))
     else publish_return env pub (reattached_record fin m p x) st)"

definition recover_new ::
  "outbox_env \<Rightarrow> publication \<Rightarrow> string \<Rightarrow> string \<Rightarrow> checkpoint \<Rightarrow> bool \<Rightarrow> jobj \<Rightarrow> prepared \<Rightarrow> queue_record list \<Rightarrow> outbox \<Rightarrow> queue_record step" where
  "recover_new env pub e session c fin m p rs st =
     (if length rs \<ge> max_events env then (Inl (OutboxStorageError ''queue-full'' None), st)
      else
        let r = recovered_record e session c m fin (next_sequence rs) p in
        reads_st (queue_bytes st rs) st (\<lambda>current.
        if current + body_size (record_body env r) + prepared_bytes st > max_bytes env
        then (Inl (OutboxStorageError ''queue-full'' None), st)
        else publish_return env pub r st))"

definition reconcile_prepared ::
  "outbox_env \<Rightarrow> json \<Rightarrow> publication \<Rightarrow> json \<Rightarrow> json \<Rightarrow> json \<Rightarrow> json \<Rightarrow> json \<Rightarrow> outbox \<Rightarrow> queue_record step" where
  "reconcile_prepared env clock pub event_id session_id checkpoint metadata is_final st =
     reads_st (as_identifier event_id) st (\<lambda>e.
     reads_st (as_identifier session_id) st (\<lambda>session.
     reads_st (validate_checkpoint checkpoint) st (\<lambda>c.
     reads_st (validate_metadata env (or_empty metadata)) st (\<lambda>requested.
     reads_st (raise_if (\<not> type_is_bool is_final) (ValueError ''final marker is invalid'')) st (\<lambda>_.
     (case map_of (prepared_files st) e of
        None \<Rightarrow> (Inl (OutboxError ''prepared record not found''), st)
      | Some txt \<Rightarrow>
          (case read_prepared (Some e) env (age_files st) txt of
             Inl _ \<Rightarrow> (Inl (OutboxStorageError ''prepared-record-corrupt'' None), quarantine_prepared e st)
           | Inr p \<Rightarrow>
               if prepared_event_id p \<noteq> e
               then (Inl (OutboxStorageError ''prepared-record-corrupt'' None), quarantine_prepared e st)
               else
                 let rs = safe_records env st; st' = quarantine_corrupt env st in
                 reads_st (validate_metadata env (JObj (dict_union (prepared_metadata p) requested))) st' (\<lambda>m.
                 (case find (\<lambda>r. q_event_id r = e) rs of
                    Some r \<Rightarrow> reattach env clock pub (is_final = JBool True) m p r st'
                  | None \<Rightarrow> recover_new env pub e session c (is_final = JBool True) m p rs st')))))))))"

definition expand ::
  "outbox_env \<Rightarrow> json \<Rightarrow> publication \<Rightarrow> json \<Rightarrow> json \<Rightarrow> json list \<Rightarrow> json \<Rightarrow> outbox \<Rightarrow> queue_record step" where
  "expand env clock pub event_id owner child_event_ids checkpoint st =
     reads_st (as_identifier event_id) st (\<lambda>e.
     reads_st (as_identifier owner) st (\<lambda>ow.
     reads_st (raise_if (child_event_ids = []) (ValueError ''expanded event ids are invalid'')) st (\<lambda>_.
     reads_st (map_r as_identifier child_event_ids) st (\<lambda>children.
     reads_st (raise_if (length children > MAX_EVENT_IDS \<or> \<not> distinct children)
       (ValueError ''expanded event ids are invalid'')) st (\<lambda>_.
     reads_st (validate_expanded_checkpoint checkpoint) st (\<lambda>ec.
     reads_st (must_read env e st) st (\<lambda>r.
     if q_state r = TRIGGER_EXPANDED then
       (if q_expanded_event_ids r \<noteq> children \<or> q_expanded_checkpoint r \<noteq> Some ec then (Inl InvalidTransition, st)
        else (Inr r, st))
     else reads_st (require_claim_at r ow clock) st (\<lambda>_.
       if q_state r \<notin> {CLAIMED, SOURCE_SNAPSHOTTED} then (Inl InvalidTransition, st)
       else publish_return env pub
         (r\<lparr>q_state := TRIGGER_EXPANDED, q_resume_state := TRIGGER_EXPANDED, q_owner := None, q_lease_until := None,
           q_failure_code := None, q_expanded_event_ids := children, q_expanded_checkpoint := Some ec\<rparr>) st))))))))"

definition quarantine_operator :: "outbox_env \<Rightarrow> publication \<Rightarrow> json \<Rightarrow> json \<Rightarrow> outbox \<Rightarrow> queue_record step" where
  "quarantine_operator env pub event_id reason st =
     reads_st (as_identifier event_id) st (\<lambda>e.
     reads_st (as_identifier reason) st (\<lambda>code'.
     reads_st (must_read env e st) st (\<lambda>r.
     if q_state r \<noteq> POLICY_DENIED then (Inl InvalidTransition, st)
     else publish_return env pub (r\<lparr>q_state := QUARANTINED, q_failure_code := Some code'\<rparr>) st)))"



section \<open>Inspection, receipts and direct access to the prepared directory\<close>

definition inspect_record :: "outbox_env \<Rightarrow> json \<Rightarrow> outbox \<Rightarrow> queue_record option step" where
  "inspect_record env event_id st =
     reads_st (as_identifier event_id) st (\<lambda>e.
     (case map_of (queue_files st) e of
        None \<Rightarrow> (Inr None, st)
      | Some txt \<Rightarrow>
          (case read_record env txt of
             Inr r \<Rightarrow> (Inr (Some r), st)
           | Inl _ \<Rightarrow> (Inr None, st\<lparr>queue_files := AList.delete e (queue_files st),
               quarantine_items := quarantine_items st @ [CorruptQueueFile txt]\<rparr>))))"

record Inspection =
  in_records :: "queue_record list"
  in_diagnostics :: "string list"
  in_quarantined_count :: nat
  in_partial_count :: nat
  in_orphan_prepared :: "string list"

text \<open>The prepared records that read, by file, and the files that do not.\<close>

definition prepared_reads :: "outbox_env \<Rightarrow> outbox \<Rightarrow> string \<times> string \<Rightarrow> prepared option" where
  "prepared_reads env st f =
     (case read_prepared None env (age_files st) (snd f) of Inl _ \<Rightarrow> None | Inr p \<Rightarrow> Some p)"

fun sweep_prepared :: "outbox_env \<Rightarrow> (string \<times> string) list \<Rightarrow> outbox \<Rightarrow> string list \<times> nat \<times> outbox" where
  "sweep_prepared env [] st = ([], 0, st)"
| "sweep_prepared env (f # fs) st =
     (case prepared_reads env st f of
        Some p \<Rightarrow> (case sweep_prepared env fs st of (ids, n, st') \<Rightarrow> (prepared_event_id p # ids, n, st'))
      | None \<Rightarrow> (case sweep_prepared env fs (quarantine_prepared (fst f) st) of (ids, n, st') \<Rightarrow> (ids, Suc n, st')))"

definition orphan_ages :: "string list \<Rightarrow> outbox \<Rightarrow> (string, string) dict" where
  "orphan_ages ids st = filter (\<lambda>f. fst f \<notin> set ids) (age_files st)"

definition sweep_orphans :: "string list \<Rightarrow> outbox \<Rightarrow> outbox" where
  "sweep_orphans ids st =
     st\<lparr>age_files := filter (\<lambda>f. fst f \<in> set ids) (age_files st),
        quarantine_items := quarantine_items st @ map (\<lambda>f. OrphanCiphertext (snd f)) (orphan_ages ids st)\<rparr>"

fun retained :: "quarantined \<Rightarrow> bool" where
  "retained (CaptureGapCiphertext _ _) = False"
| "retained _ = True"

text \<open>\<^verbatim>\<open>inspect()\<close> without an event id.\<close>

definition inspect_all :: "outbox_env \<Rightarrow> outbox \<Rightarrow> Inspection \<times> outbox" where
  "inspect_all env st0 =
     (let rs = safe_records env st0; corrupt = corrupt_count env st0; st1 = quarantine_corrupt env st0 in
      case sweep_prepared env (prepared_files st1) st1 of
        (ids, bad, st2) \<Rightarrow>
          let orphans = length (orphan_ages ids st2); st3 = sweep_orphans ids st2 in
          (\<lparr>in_records = rs,
            in_diagnostics = replicate corrupt ''corrupt-record'' @ replicate bad ''prepared-record-corrupt''
              @ replicate orphans ''prepared-ciphertext-orphan''
              @ (if \<exists>q \<in> set (quarantine_items st3). retained q then [''corrupt-record''] else []),
            in_quarantined_count = corrupt + bad + orphans,
            in_partial_count = partial_files st0,
            in_orphan_prepared = sort (filter (\<lambda>i. i \<notin> set (map q_event_id rs)) (remdups ids))\<rparr>, st3))"

definition inspect_event :: "outbox_env \<Rightarrow> json \<Rightarrow> outbox \<Rightarrow> Inspection step" where
  "inspect_event env event_id st =
     bind_st (inspect_record env event_id st) (\<lambda>found st'.
     (case found of
        Some r \<Rightarrow> (Inr \<lparr>in_records = [r], in_diagnostics = [], in_quarantined_count = 0, in_partial_count = 0,
            in_orphan_prepared = []\<rparr>, st')
      | None \<Rightarrow> (case inspect_all env st' of (i, st'') \<Rightarrow> (Inr (i\<lparr>in_records := []\<rparr>), st''))))"

definition prepared_inspect_record :: "outbox_env \<Rightarrow> json \<Rightarrow> outbox \<Rightarrow> prepared option step" where
  "prepared_inspect_record env event_id st =
     reads_st (as_identifier event_id) st (\<lambda>e.
     (case map_of (prepared_files st) e of
        None \<Rightarrow> (Inr None, st)
      | Some txt \<Rightarrow>
          (case read_prepared None env (age_files st) txt of
             Inr p \<Rightarrow> (Inr (Some p), st)
           | Inl _ \<Rightarrow> (Inl (OutboxStorageError ''prepared-record-corrupt'' None), quarantine_prepared e st))))"

text \<open>\<^verbatim>\<open>prepared_path\<close> gives the name of the ciphertext file of a file-backed record.\<close>

definition prepared_path :: "outbox_env \<Rightarrow> json \<Rightarrow> outbox \<Rightarrow> string step" where
  "prepared_path env event_id st =
     reads_st (as_identifier event_id) st (\<lambda>e.
     bind_st (prepared_inspect_record env (JStr e) st) (\<lambda>found st'.
     (case found of
        Some (FileRecord p) \<Rightarrow>
          if has_key (age_files st') (pf_event_id p) then (Inr (pf_ciphertext_file p), st')
          else (Inl (OutboxError ''prepared ciphertext unavailable''), st')
      | _ \<Rightarrow> (Inl (OutboxError ''prepared ciphertext unavailable''), st'))))"

text \<open>
  \<^verbatim>\<open>preserve_capture_gap_ciphertext\<close>: content-addressed in the quarantine directory; an
  existing file of the same name must have the same digest.
\<close>

definition preserve_capture_gap :: "outbox_env \<Rightarrow> json \<Rightarrow> source_file \<Rightarrow> outbox \<Rightarrow> string step" where
  "preserve_capture_gap env event_id src st =
     reads_st (as_identifier event_id) st (\<lambda>e.
     (case src of
        MissingSource \<Rightarrow> (Inl (OutboxStorageError ''capture-gap-preserve-failed'' (Some False)), st)
      | IrregularSource \<Rightarrow> (Inl (OutboxStorageError ''capture-gap-preserve-failed'' (Some False)), st)
      | SourceFile private bytes \<Rightarrow>
          if \<not> private \<or> int (length bytes) > MAX_CIPHERTEXT_BYTES
          then (Inl (OutboxStorageError ''capture-gap-preserve-failed'' (Some True)), st)
          else
            let digest = sha256_hex env bytes in
            (case find (\<lambda>q. case q of CaptureGapCiphertext d _ \<Rightarrow> d = digest | _ \<Rightarrow> False) (quarantine_items st) of
               Some (CaptureGapCiphertext d old) \<Rightarrow>
                 if sha256_hex env old \<noteq> digest then (Inl (OutboxStorageError ''capture-gap-conflict'' (Some True)), st)
                 else (Inr (''capture-gap-'' @ digest @ ''.age''), st)
             | _ \<Rightarrow> (Inr (''capture-gap-'' @ digest @ ''.age''),
                 st\<lparr>quarantine_items := quarantine_items st @ [CaptureGapCiphertext digest bytes]\<rparr>))))"

definition discard_body :: "string \<Rightarrow> json" where
  "discard_body e = JObj [(''event_id'', JStr e), (''kind'', JStr ''operator-discard''), (''discarded'', JBool True),
     (''evidence_deleted'', JBool False)]"

definition discard_receipt :: "outbox_env \<Rightarrow> publication \<Rightarrow> json \<Rightarrow> outbox \<Rightarrow> json step" where
  "discard_receipt env pub event_id st =
     reads_st (as_identifier event_id) st (\<lambda>e.
     (case map_of (receipt_files st) e of
        Some txt \<Rightarrow>
          (case json_loads (default_hooks (float_parse env)) txt of
             Inl _ \<Rightarrow> (Inl (OutboxStorageError ''receipt-corrupt'' None), st)
           | Inr v \<Rightarrow> if is_obj v then (Inr v, st) else (Inl (OutboxStorageError ''receipt-corrupt'' None), st))
      | None \<Rightarrow>
          (case publish pub e (json_dumps True (float_repr env) (discard_body e)) (receipt_files st) of
             (Inl err, files) \<Rightarrow> (Inl err, st\<lparr>receipt_files := files\<rparr>)
           | (Inr _, files) \<Rightarrow> (Inr (discard_body e), st\<lparr>receipt_files := files\<rparr>))))"

end
