(* ===== verification/OutboxLaws.thy ===== *)
theory OutboxLaws
  imports Outbox
begin

text \<open>
  The queue invariant: every queue file holds a record its own reader accepts, stored under
  the record's id, whose fields prove the stage it claims to have reached. Here: the
  invariant, that every single record an operation publishes satisfies it, and that every
  operation of the queue therefore preserves it.
\<close>

named_theorems step_intros \<open>rules that push a state predicate through the steps of an operation\<close>
named_theorems good_simps \<open>unfoldings used to show that a published record is good\<close>

section \<open>The invariant\<close>

text \<open>The record carries what its stage requires: a digest and size, an object key naming that digest, an index.\<close>

definition evidence :: "queue_record \<Rightarrow> bool" where
  "evidence r \<longleftrightarrow>
     hd (q_event_ids r) = q_event_id r \<and>
     (q_resume_state r \<in> {PREPARED_ENCRYPTED, OBJECT_UPLOADED, INDEX_PUBLISHED} \<longrightarrow>
        q_ciphertext_sha256 r \<noteq> None \<and> q_ciphertext_size r \<noteq> None) \<and>
     (q_resume_state r \<in> {OBJECT_UPLOADED, INDEX_PUBLISHED} \<longrightarrow>
        q_object_key r \<noteq> None \<and> key_digest (the (q_object_key r)) = q_ciphertext_sha256 r) \<and>
     (q_resume_state r = INDEX_PUBLISHED \<longrightarrow> q_index_id r \<noteq> None)"

text \<open>
  The digest and size of the ciphertext prepared for each event are what a record past
  preparation refers to: the ciphertext it stands for is still on disk.
\<close>

definition backed :: "(string \<Rightarrow> (string \<times> int) option) \<Rightarrow> queue_record \<Rightarrow> bool" where
  "backed pm r \<longleftrightarrow>
     (q_resume_state r \<in> {PREPARED_ENCRYPTED, OBJECT_UPLOADED, INDEX_PUBLISHED} \<longrightarrow>
        pm (q_event_id r) = Some (the (q_ciphertext_sha256 r), the (q_ciphertext_size r)))"

definition good :: "outbox_env \<Rightarrow> (string \<Rightarrow> (string \<times> int) option) \<Rightarrow> queue_record \<Rightarrow> bool" where
  "good env pm r \<longleftrightarrow> record_ok env r \<and> record_floats env r \<and> evidence r \<and> backed pm r"

definition stored_ok :: "outbox_env \<Rightarrow> (string \<Rightarrow> (string \<times> int) option) \<Rightarrow> string \<times> string \<Rightarrow> bool" where
  "stored_ok env pm f \<longleftrightarrow> (\<exists>r. canon r = r \<and> good env pm r \<and> q_event_id r = fst f \<and> snd f = record_body env r)"

definition queue_inv :: "outbox_env \<Rightarrow> (string \<Rightarrow> (string \<times> int) option) \<Rightarrow> outbox \<Rightarrow> bool" where
  "queue_inv env pm st \<longleftrightarrow> wf_dict (queue_files st) \<and> (\<forall>f \<in> set (queue_files st). stored_ok env pm f)"

text \<open>
  What the queue relies on: a lease of at most a day, digests that look like digests, and an
  interpreter whose text form of a double reads back as that double. The clock is bounded so
  that no deadline leaves the range of doubles.
\<close>

definition env_ok :: "outbox_env \<Rightarrow> bool" where
  "env_ok env \<longleftrightarrow> 0 < lease_secs env \<and> lease_secs env \<le> 86400 \<and>
     float_reads env (lease_secs env) \<and> float_reads env 60 \<and> (\<forall>b. DIGEST (sha256_hex env b)) \<and>
     (\<forall>q. 0 \<le> q \<and> q \<le> 2 ^ 1001 \<longrightarrow> float_reads env (round_double q))"

fun clock_ok :: "json \<Rightarrow> bool" where
  "clock_ok (JFloat t) \<longleftrightarrow> t \<le> 2 ^ 1000"
| "clock_ok (JInt i) \<longleftrightarrow> i < 2 ^ 53"
| "clock_ok _ \<longleftrightarrow> True"

lemma clock_bound:
  assumes "clock_ok v" "now_of v = Inr now"
  shows "0 \<le> now \<and> now \<le> 2 ^ 1000"
proof (cases v)
  case (JInt i)
  then have i: "0 \<le> i" "i < 2 ^ 53" "float_of_int i = Some now"
    using assms by (auto simp: now_of_def finite_number_def split: option.splits if_splits)
  have "(of_int i :: rat) < 2 ^ 53" using i(2) by (metis of_int_less_iff of_int_numeral of_int_power)
  moreover have "(2 ^ 53 :: rat) \<le> 2 ^ 1000" by (rule power_increasing) auto
  ultimately have "now \<le> 2 ^ 1000" unfolding float_of_small_int[OF i] by (rule order_trans[OF less_imp_le])
  then show ?thesis using float_of_small_int[OF i] i(1) by (simp del: power_numeral)
qed (use assms in \<open>auto simp: now_of_def split: if_splits\<close>)

lemma deadline_reads:
  assumes "env_ok env" "clock_ok v" "now_of v = Inr now" "0 < s" "s \<le> 86400"
  shows "float_reads env (float_add now s) \<and> 0 \<le> float_add now s"
proof -
  have n: "0 \<le> now" "now \<le> 2 ^ 1000" using clock_bound[OF assms(2,3)] by auto
  have "(86400 :: rat) \<le> 2 ^ 17" by simp
  also have "(2 :: rat) ^ 17 \<le> 2 ^ 1000" by (rule power_increasing) auto
  finally have "s \<le> 2 ^ 1000" using assms(5) by linarith
  then have "now + s \<le> 2 ^ 1001" using n(2) power_Suc[of "2 :: rat" 1000] by (simp del: power_Suc)
  then show ?thesis
    using assms(1,4) n(1) by (simp add: env_ok_def float_add_def round_double_nonneg del: power_numeral)
qed

subsection \<open>Reading under the invariant\<close>

lemma record_body_canon: "record_body env (canon r) = record_body env r"
proof -
  have j: "jsort (JObj (jsort_obj m)) = jsort (JObj m)" for m
    using jsort_idem[of "JObj m"] by (simp only: jsort_JObj)
  have "map (\<lambda>(k, v). (k, jsort v)) (record_to_obj (canon r)) = map (\<lambda>(k, v). (k, jsort v)) (record_to_obj r)"
    by (simp add: record_to_obj_def canon_def j del: jsort.simps(2))
  then show ?thesis by (simp add: record_body_def json_dumps_def)
qed

lemma good_canon: "good env pm r \<Longrightarrow> good env pm (canon r)"
  by (simp add: good_def evidence_def backed_def)

lemma stored_ok_body: "good env pm r \<Longrightarrow> stored_ok env pm (q_event_id r, record_body env r)"
  unfolding stored_ok_def
  by (rule exI[of _ "canon r"]) (simp add: good_canon record_body_canon)

lemma stored_ok_read:
  assumes "stored_ok env pm f"
  obtains r where "read_record env (snd f) = Inr r" "good env pm r" "q_event_id r = fst f" "canon r = r"
    "snd f = record_body env r"
proof -
  from assms obtain r where r: "canon r = r" "good env pm r" "q_event_id r = fst f" "snd f = record_body env r"
    by (auto simp: stored_ok_def)
  then have "read_record env (snd f) = Inr r" using read_record_body[of env r] by (simp add: good_def)
  with r show ?thesis using that by blast
qed

lemma inv_readable: "queue_inv env pm st \<Longrightarrow> f \<in> set (queue_files st) \<Longrightarrow> readable env f"
  unfolding readable_def queue_inv_def by (metis stored_ok_read)

lemma inv_no_quarantine [simp]: "queue_inv env pm st \<Longrightarrow> quarantine_corrupt env st = st"
proof -
  assume inv: "queue_inv env pm st"
  have "filter (readable env) (queue_files st) = queue_files st"
    "filter (\<lambda>f. \<not> readable env f) (queue_files st) = []"
    using inv_readable[OF inv] by (auto simp: filter_id_conv filter_empty_conv)
  then show ?thesis by (simp add: quarantine_corrupt_def)
qed

lemma inv_must_read:
  assumes "queue_inv env pm st" "must_read env e st = Inr r"
  shows "good env pm r \<and> canon r = r \<and> q_event_id r = e \<and> map_of (queue_files st) e = Some (record_body env r)"
proof -
  from assms(2) obtain body where t: "map_of (queue_files st) e = Some body" "read_record env body = Inr r"
    by (auto simp: must_read_def check_simps split: option.splits sum.splits)
  then have "stored_ok env pm (e, body)" using assms(1) by (auto simp: queue_inv_def dest: map_of_SomeD)
  then obtain r' where "read_record env body = Inr r'" "good env pm r'" "q_event_id r' = e" "canon r' = r'" "body = record_body env r'"
    by (rule stored_ok_read) auto
  then show ?thesis using t by auto
qed

lemma safe_records_set: "set (safe_records env st) = record_of_file env ` {f \<in> set (queue_files st). readable env f}"
  by (auto simp: safe_records_def)

lemma inv_safe_record:
  assumes "queue_inv env pm st" "r \<in> set (safe_records env st)"
  shows "good env pm r \<and> canon r = r \<and> must_read env (q_event_id r) st = Inr r"
proof -
  from assms(2) obtain f where f: "f \<in> set (queue_files st)" "r = record_of_file env f"
    by (auto simp: safe_records_set)
  then have "stored_ok env pm f" using assms(1) by (simp add: queue_inv_def)
  then obtain r' where r': "read_record env (snd f) = Inr r'" "good env pm r'" "q_event_id r' = fst f" "canon r' = r'"
    by (rule stored_ok_read)
  then have "r = r'" using f(2) by (simp add: record_of_file_def)
  moreover have "map_of (queue_files st) (fst f) = Some (snd f)"
    using assms(1) f(1) by (simp add: queue_inv_def)
  moreover have "IDENTIFIER (q_event_id r')" using r'(2) by (simp add: good_def record_ok_def fields_ok_def)
  ultimately show ?thesis using r' by (simp add: must_read_def)
qed

lemma inv_publish:
  assumes "queue_inv env pm st" "good env pm r"
  shows "queue_inv env pm (snd (publish_record env pub r st))"
proof -
  have "queue_inv env pm (st\<lparr>queue_files := AList.update (q_event_id r) (record_body env r) (queue_files st)\<rparr>)"
    using assms stored_ok_body[OF assms(2)]
    by (auto simp: queue_inv_def set_update_dict distinct_update)
  then show ?thesis using assms by (cases pub) (simp_all add: publish_record_def)
qed

lemma reads_st_rule:
  "P st \<Longrightarrow> (\<And>x. r = Inr x \<Longrightarrow> P (snd (k x))) \<Longrightarrow> P (snd (reads_st r st k))"
  by (cases r) (auto simp: reads_st_def)

lemma bind_st_rule:
  "P (snd m) \<Longrightarrow> (\<And>x st'. m = (Inr x, st') \<Longrightarrow> P st' \<Longrightarrow> P (snd (k x st'))) \<Longrightarrow> P (snd (bind_st m k))"
  by (cases m; cases "fst m") (auto simp: bind_st_def)

lemmas inv_reads_st [step_intros] = reads_st_rule[of "queue_inv env pm" for env pm]
lemmas inv_bind_st [step_intros] = bind_st_rule[of "queue_inv env pm" for env pm]

lemma snd_publish_return [simp]: "snd (publish_return env pub r st) = snd (publish_record env pub r st)"
  by (cases "publish_record env pub r st"; cases "fst (publish_record env pub r st)")
     (auto simp: publish_return_def bind_st_def)

lemma inv_publish_return [step_intros]:
  "queue_inv env pm st \<Longrightarrow> good env pm r \<Longrightarrow> queue_inv env pm (snd (publish_return env pub r st))"
  by (simp add: inv_publish)

lemma inv_if [step_intros]:
  "(b \<Longrightarrow> queue_inv env pm (snd x)) \<Longrightarrow> (\<not> b \<Longrightarrow> queue_inv env pm (snd y)) \<Longrightarrow> queue_inv env pm (snd (if b then x else y))"
  by simp

lemma inv_pair [step_intros]: "queue_inv env pm st \<Longrightarrow> queue_inv env pm (snd (x, st))"
  by simp


section \<open>Published records are good\<close>

lemma relations_iff [good_simps]:
  "check_relations r = Inr () \<longleftrightarrow>
     q_event_id r \<in> set (q_event_ids r) \<and>
     (q_is_final r \<longleftrightarrow> q_final_event_id r \<noteq> None) \<and>
     (q_final_event_id r \<noteq> None \<longrightarrow> the (q_final_event_id r) \<in> set (q_event_ids r)) \<and>
     (q_owner r = None \<longleftrightarrow> q_lease_until r = None) \<and>
     (case q_state r of
        QUEUED \<Rightarrow> q_resume_state r = QUEUED \<and> q_owner r = None
      | CLAIMED \<Rightarrow> q_resume_state r \<in> {QUEUED, SOURCE_SNAPSHOTTED, PREPARED_ENCRYPTED, OBJECT_UPLOADED, INDEX_PUBLISHED} \<and> q_owner r \<noteq> None
      | SOURCE_SNAPSHOTTED \<Rightarrow> q_resume_state r = SOURCE_SNAPSHOTTED
      | PREPARED_ENCRYPTED \<Rightarrow> q_resume_state r = PREPARED_ENCRYPTED \<and> q_ciphertext_sha256 r \<noteq> None \<and> q_ciphertext_size r \<noteq> None
      | OBJECT_UPLOADED \<Rightarrow> q_resume_state r = OBJECT_UPLOADED \<and> q_ciphertext_sha256 r \<noteq> None \<and> q_ciphertext_size r \<noteq> None \<and>
          q_object_key r \<noteq> None
      | INDEX_PUBLISHED \<Rightarrow> q_resume_state r = INDEX_PUBLISHED \<and> q_ciphertext_sha256 r \<noteq> None \<and> q_ciphertext_size r \<noteq> None \<and>
          q_object_key r \<noteq> None \<and> q_index_id r \<noteq> None
      | COMMITTED \<Rightarrow> q_resume_state r = INDEX_PUBLISHED \<and> q_ciphertext_sha256 r \<noteq> None \<and> q_ciphertext_size r \<noteq> None \<and>
          q_object_key r \<noteq> None \<and> q_index_id r \<noteq> None \<and> q_owner r = None
      | RETRYABLE_FAILURE \<Rightarrow> q_resume_state r \<in> {QUEUED, SOURCE_SNAPSHOTTED, PREPARED_ENCRYPTED, OBJECT_UPLOADED, INDEX_PUBLISHED} \<and> q_owner r = None
      | CAPTURE_GAP \<Rightarrow> q_resume_state r \<in> {QUEUED, SOURCE_SNAPSHOTTED, PREPARED_ENCRYPTED, OBJECT_UPLOADED, INDEX_PUBLISHED} \<and> q_owner r = None
      | _ \<Rightarrow> q_owner r = None)"
  unfolding check_relations_def Let_def check_simps
  by (cases "q_state r"; cases "q_final_event_id r"; cases "q_owner r"; cases "q_lease_until r";
      simp add: progress_states_def unowned_states_def conj_ac disj_ac)

lemma stage_set [good_simps]:
  "q \<in> set owned_states \<longleftrightarrow> q \<in> {CLAIMED, SOURCE_SNAPSHOTTED, PREPARED_ENCRYPTED, OBJECT_UPLOADED, INDEX_PUBLISHED}"
  by (auto simp: owned_states_def)

lemmas good_unfold = good_def record_ok_def fields_ok_def record_floats_def evidence_def backed_def relations_iff

lemma good_owner_lease: "good env pm r \<Longrightarrow> q_owner r = None \<longleftrightarrow> q_lease_until r = None"
  unfolding good_unfold by (elim conjE)

lemma good_claimed:
  assumes "good env pm r" "claimable r" "env_ok env" "clock_ok v" "now_of v = Inr now" "IDENTIFIER ow"
  shows "good env pm (claimed_record env ow now r)"
  using assms(1,2,6) deadline_reads[OF assms(3,4,5), of "lease_secs env"] assms(3)
  by (cases "q_state r") (simp_all add: good_unfold claimed_record_def claimable_def env_ok_def stage_set)

lemma good_lease:
  assumes "good env pm r" "q_owner r \<noteq> None" "env_ok env" "clock_ok v" "now_of v = Inr now"
  shows "good env pm (r\<lparr>q_lease_until := Some (float_add now (q_lease_seconds r))\<rparr>)"
  using assms(1,2) deadline_reads[OF assms(3,4,5), of "q_lease_seconds r"]
  by (cases "q_state r") (simp_all add: good_unfold)

lemma good_taken:
  assumes "good env pm r" "lease_expired r now'" "env_ok env" "clock_ok v" "now_of v = Inr now" "IDENTIFIER ow"
  shows "good env pm (taken_record ow now r)"
  using assms(1,2,6) deadline_reads[OF assms(3,4,5), of "q_lease_seconds r"]
  by (cases "q_state r") (simp_all add: good_unfold taken_record_def lease_expired_def stage_set)

lemma good_failed:
  assumes "good env pm r" "q_state r \<in> set owned_states" "IDENTIFIER reason"
    "target \<in> {RETRYABLE_FAILURE, QUARANTINED, CAPTURE_GAP, POLICY_DENIED}"
  shows "good env pm (r\<lparr>q_state := target, q_failure_code := Some reason, q_owner := None, q_lease_until := None\<rparr>)"
proof -
  have "q_resume_state r \<in> {QUEUED, SOURCE_SNAPSHOTTED, PREPARED_ENCRYPTED, OBJECT_UPLOADED, INDEX_PUBLISHED}"
    using assms(1,2) by (cases "q_state r") (simp_all add: good_unfold stage_set)
  then show ?thesis using assms(1,3,4) by (cases target) (simp_all add: good_unfold stage_set)
qed

lemma good_prepared_progress:
  assumes "good env pm r" "q_owner r \<noteq> None" "DIGEST d" "0 \<le> n" "n \<le> MAX_CIPHERTEXT_BYTES" "pm (q_event_id r) = Some (d, n)"
  shows "good env pm (prepared_progress d n r)"
proof -
  obtain o' l where "q_owner r = Some o'" "q_lease_until r = Some l"
    using good_owner_lease[OF assms(1)] assms(2) by auto
  then show ?thesis using assms(1,3-6) by (simp add: good_unfold prepared_progress_def)
qed

lemma identifier_quota: "IDENTIFIER ''prepared-byte-quota''"
  by code_simp

lemma good_quota_gap: "good env pm r \<Longrightarrow> good env pm (quota_gap r)"
  by (simp add: good_unfold quota_gap_def identifier_quota)

lemma good_released:
  assumes "good env pm r" "q_state r \<in> {CLAIMED, PREPARED_ENCRYPTED}" "q_resume_state r = PREPARED_ENCRYPTED"
  shows "good env pm (r\<lparr>q_state := PREPARED_ENCRYPTED, q_owner := None, q_lease_until := None\<rparr>)"
  using assms by (auto simp: good_unfold)

lemma good_expanded:
  assumes "good env pm r" "list_all IDENTIFIER children" "length children \<le> MAX_EVENT_IDS" "expanded_ok ec"
  shows "good env pm (r\<lparr>q_state := TRIGGER_EXPANDED, q_resume_state := TRIGGER_EXPANDED, q_owner := None, q_lease_until := None,
     q_failure_code := None, q_expanded_event_ids := children, q_expanded_checkpoint := Some ec\<rparr>)"
  using assms by (simp add: good_unfold)

lemma good_operator:
  assumes "good env pm r" "q_state r = POLICY_DENIED" "IDENTIFIER reason"
  shows "good env pm (r\<lparr>q_state := QUARANTINED, q_failure_code := Some reason\<rparr>)"
  using assms good_owner_lease[OF assms(1)] by (auto simp: good_unfold)

text \<open>
  The progress transitions. A transition to the uploaded stage needs its object key and one to
  the indexed stage its index id; the prepared stage is reached by preparing ciphertext only.
\<close>

definition complete_details :: "QueueState \<Rightarrow> jobj \<Rightarrow> bool" where
  "complete_details target details \<longleftrightarrow> target \<noteq> PREPARED_ENCRYPTED \<and>
     (target = OBJECT_UPLOADED \<longrightarrow> has_key details ''object_key'') \<and>
     (target = INDEX_PUBLISHED \<longrightarrow> has_key details ''index_id'') \<and>
     (target \<in> {INDEX_PUBLISHED, COMMITTED} \<longrightarrow> \<not> has_key details ''object_key'' \<and> \<not> has_key details ''ciphertext_size'')"

lemma key_digest_ok: "key_digest k = Some d \<Longrightarrow> is_object_key k \<and> DIGEST d"
  by (auto simp: key_digest_def is_object_key_def OBJECT_KEY_GROUP_def EVIDENCE_OBJECT_KEY_GROUP_def
      split: option.splits if_splits)

lemma good_options:
  assumes "good env pm r"
  shows "pred_option is_object_key (q_object_key r)" "pred_option DIGEST (q_ciphertext_sha256 r)"
    "pred_option (\<lambda>n. 0 \<le> n \<and> n \<le> MAX_CIPHERTEXT_BYTES) (q_ciphertext_size r)"
    "pred_option IDENTIFIER (q_index_id r)"
  using assms unfolding good_def record_ok_def fields_ok_def by - (elim conjE, assumption)+

lemma detail_object_key_ok:
  assumes "detail_object_key target details r = Inr (k, d)" "good env pm r"
  shows "pred_option is_object_key k \<and> pred_option DIGEST d \<and>
    (k = q_object_key r \<and> d = q_ciphertext_sha256 r \<and> \<not> has_key details ''object_key'' \<or>
     has_key details ''object_key'' \<and> k \<noteq> None \<and> d \<noteq> None \<and> key_digest (the k) = d \<and>
       (target = OBJECT_UPLOADED \<longrightarrow> q_ciphertext_sha256 r = d))"
proof (cases "map_of details ''object_key''")
  case None
  moreover have "\<not> has_key details ''object_key''" using None by (simp only: map_of_None_key not_False_eq_True)
  ultimately show ?thesis using assms(1) good_options[OF assms(2)] by (simp add: detail_object_key_def)
next
  case (Some v)
  then obtain d' where "key_digest (str_of v) = Some d'" "k = Some (str_of v)" "d = Some d'"
    "target = OBJECT_UPLOADED \<longrightarrow> q_ciphertext_sha256 r = Some d'"
    using assms(1) by (cases "key_digest (str_of v)") (auto simp: detail_object_key_def split: if_splits)
  moreover have "has_key details ''object_key''" using Some unfolding has_key_map_of by blast
  ultimately show ?thesis using key_digest_ok[of "str_of v" d'] by simp
qed

lemma detail_size_ok:
  assumes "detail_size target details r = Inr n" "good env pm r"
  shows "pred_option (\<lambda>n. 0 \<le> n \<and> n \<le> MAX_CIPHERTEXT_BYTES) n \<and> (q_ciphertext_size r \<noteq> None \<longrightarrow> n \<noteq> None) \<and>
    (target = OBJECT_UPLOADED \<or> \<not> has_key details ''ciphertext_size'' \<longrightarrow> n = q_ciphertext_size r)"
  using assms(1) good_options(3)[OF assms(2)] 
  by (cases "map_of details ''ciphertext_size''")
     (auto simp: detail_size_def dest!: map_of_SomeD split: if_splits intro: rev_image_eqI)

lemma detail_index_ok:
  assumes "detail_index details r = Inr i" "good env pm r"
  shows "pred_option IDENTIFIER i \<and> (q_index_id r \<noteq> None \<or> has_key details ''index_id'' \<longrightarrow> i \<noteq> None)"
proof (cases "map_of details ''index_id''")
  case None
  moreover have "\<not> has_key details ''index_id''" using None by (simp only: map_of_None_key not_False_eq_True)
  ultimately show ?thesis using assms(1) good_options(4)[OF assms(2)] by (simp add: detail_index_def)
qed (use assms(1) in \<open>auto simp: detail_index_def check_simps\<close>)

lemma good_progressed:
  assumes g: "good env pm r" and "q_owner r \<noteq> None" and v: "next_state_valid r target" and c: "complete_details target details"
    and p: "progressed_record target details r = Inr u"
    and t: "target \<in> {SOURCE_SNAPSHOTTED, OBJECT_UPLOADED, INDEX_PUBLISHED, COMMITTED}"
  shows "good env pm u"
proof -
  obtain o' l where ol: "q_owner r = Some o'" "q_lease_until r = Some l"
    using good_owner_lease[OF g] assms(2) by auto
  from p obtain k d n i where
    k: "detail_object_key target details r = Inr (k, d)" and n: "detail_size target details r = Inr n"
    and i: "detail_index details r = Inr i"
    and u: "u = r\<lparr>q_state := target, q_resume_state := (if target = COMMITTED then q_resume_state r else target),
       q_failure_code := None, q_object_key := k, q_ciphertext_sha256 := d, q_ciphertext_size := n, q_index_id := i,
       q_owner := (if target = COMMITTED then None else q_owner r),
       q_lease_until := (if target = COMMITTED then None else q_lease_until r)\<rparr>"
    by (auto simp: progressed_record_def check_simps)
  note facts = detail_object_key_ok[OF k g] detail_size_ok[OF n g] detail_index_ok[OF i g]
  note ev = g[unfolded good_def evidence_def]
  have backing: "backed pm r" using g by (simp add: good_def)
  have stage: "target \<in> {OBJECT_UPLOADED, INDEX_PUBLISHED, COMMITTED} \<Longrightarrow>
      d = q_ciphertext_sha256 r \<and> n = q_ciphertext_size r \<and> k \<noteq> None \<and> d \<noteq> None \<and> n \<noteq> None \<and> key_digest (the k) = d \<and> (target \<noteq> OBJECT_UPLOADED \<longrightarrow> i \<noteq> None)"
    using facts ev v c by (elim insertE emptyE) (auto simp: next_state_valid_def complete_details_def)
  show ?thesis
  proof (cases "target = SOURCE_SNAPSHOTTED")
    case True
    then show ?thesis using facts g ol by (simp add: u good_unfold)
  next
    case False
    then have late: "target \<in> {OBJECT_UPLOADED, INDEX_PUBLISHED, COMMITTED}" using t by simp
    obtain k' d' n' where vals: "k = Some k'" "d = Some d'" "n = Some n'" "q_ciphertext_sha256 r = Some d'"
      "q_ciphertext_size r = Some n'" "key_digest k' = Some d'"
      using stage[OF late] by (metis option.exhaust_sel option.sel)
    have opts: "is_object_key k'" "DIGEST d'" "0 \<le> n'" "n' \<le> MAX_CIPHERTEXT_BYTES" "pred_option IDENTIFIER i"
      using facts vals by simp_all
    have ind: "target \<noteq> OBJECT_UPLOADED \<longrightarrow> i \<noteq> None" using stage[OF late] by simp
    consider "target = OBJECT_UPLOADED" "q_resume_state r = PREPARED_ENCRYPTED"
      | "target = INDEX_PUBLISHED" "q_resume_state r = OBJECT_UPLOADED"
      | "target = COMMITTED" "q_resume_state r = INDEX_PUBLISHED"
      using late v by (auto simp: next_state_valid_def)
    then show ?thesis
      by cases (use g ol vals opts ind in \<open>simp_all add: u good_unfold\<close>)
  qed
qed

subsection \<open>Triggers\<close>

definition trigger_ok :: "outbox_env \<Rightarrow> trigger \<Rightarrow> bool" where
  "trigger_ok env t \<longleftrightarrow> IDENTIFIER (t_event_id t) \<and> IDENTIFIER (t_session_id t) \<and> checkpoint_ok (t_checkpoint t) \<and>
     metadata_ok env (t_metadata t) \<and> t_initial_state t \<in> {QUEUED, POLICY_DENIED, QUARANTINED}"

lemma or_empty_wf: "wf_json v \<Longrightarrow> wf_json (or_empty v)"
  by (simp add: or_empty_def)

lemma trigger_make_ok:
  assumes "trigger_make env e s c f m d co = Inr t" "wf_json m"
  shows "trigger_ok env t"
proof -
  from assms(1) obtain e' s' c' m' where "as_identifier e = Inr e'" "as_identifier s = Inr s'"
    "validate_checkpoint c = Inr c'" "validate_metadata env (or_empty m) = Inr m'"
    "t = \<lparr>t_event_id = e', t_session_id = s', t_checkpoint = c', t_metadata = m', t_is_final = (f = JBool True),
       t_initial_state = initial_state (str_of d), t_coalesce = co\<rparr>"
    by (auto simp: trigger_make_def check_simps)
  then show ?thesis
    using validate_checkpoint_sound validate_metadata_sound[OF _ or_empty_wf[OF assms(2)]]
    by (simp add: trigger_ok_def check_simps initial_state_def)
qed

lemma next_sequence_pos: "(\<And>r. r \<in> set rs \<Longrightarrow> 1 \<le> q_sequence r) \<Longrightarrow> 1 \<le> next_sequence rs"
proof (cases rs)
  case (Cons r rs')
  assume "\<And>r. r \<in> set rs \<Longrightarrow> 1 \<le> q_sequence r"
  then have "1 \<le> q_sequence r" using Cons by simp
  also have "q_sequence r \<le> Max (set (map q_sequence rs))" using Cons by (intro Max_ge) auto
  finally show ?thesis using Cons by (simp add: next_sequence_def)
qed (simp add: next_sequence_def)

lemma good_sequence: "good env pm r \<Longrightarrow> 1 \<le> q_sequence r"
  by (simp add: good_def record_ok_def fields_ok_def)

lemma good_new:
  assumes "trigger_ok env t" "1 \<le> seq" "env_ok env"
  shows "good env pm (new_record t seq)"
  using assms by (auto simp: trigger_ok_def good_unfold new_record_def env_ok_def MAX_EVENT_IDS_def)

lemma good_recovered:
  assumes "IDENTIFIER e" "IDENTIFIER session" "checkpoint_ok c" "metadata_ok env m" "1 \<le> seq" "env_ok env"
    "DIGEST (prepared_sha256 p)" "0 \<le> prepared_size p" "prepared_size p \<le> MAX_CIPHERTEXT_BYTES"
    "pm e = Some (prepared_sha256 p, prepared_size p)"
  shows "good env pm (recovered_record e session c m fin seq p)"
  using assms by (simp add: good_unfold recovered_record_def env_ok_def MAX_EVENT_IDS_def)

text \<open>
  Coalescing keeps the primary id in front, the bound on the number of ids and their
  distinctness, also when a final marker takes the place of an older id.
\<close>

lemma coalesced_ids_ok:
  assumes "good env pm r" "IDENTIFIER (t_event_id t)"
  shows "let ids = fst (coalesced_ids t r) in
     hd ids = q_event_id r \<and> q_event_id r \<in> set ids \<and> t_event_id t \<in> set ids \<and> length ids \<le> MAX_EVENT_IDS \<and> 1 \<le> length ids \<and>
     distinct ids \<and> list_all IDENTIFIER ids \<and>
     (\<not> snd (coalesced_ids t r) \<longrightarrow> set ids = insert (t_event_id t) (set (q_event_ids r)))"
proof -
  let ?old = "q_event_ids r" and ?new = "t_event_id t"
  have len: "length ?old \<le> MAX_EVENT_IDS" "1 \<le> length ?old" and d: "distinct ?old" and i: "list_all IDENTIFIER ?old"
    using assms(1) by (simp_all add: good_def record_ok_def fields_ok_def)
  obtain p ps where p: "?old = p # ps" using len(2) by (cases ?old) auto
  have hd: "q_event_id r = p" using assms(1) p by (simp add: good_def evidence_def backed_def)
  consider "?new \<in> set ?old" | "?new \<notin> set ?old" "length ?old < MAX_EVENT_IDS" | "?new \<notin> set ?old" "length ?old = MAX_EVENT_IDS"
    using len(1) by linarith
  then show ?thesis
  proof cases
    case 3
    have "distinct (p # take (MAX_EVENT_IDS - 2) ps @ [?new])"
      using d 3(1) p by (auto dest: in_set_takeD)
    moreover have "list_all IDENTIFIER (take (MAX_EVENT_IDS - 2) ps)"
      using i p by (auto simp: list_all_iff dest: in_set_takeD)
    ultimately show ?thesis
      using 3 p hd i assms(2) by (simp add: coalesced_ids_def Let_def MAX_EVENT_IDS_def)
  qed (use p hd d i len assms(2) in \<open>auto simp: coalesced_ids_def Let_def\<close>)
qed

lemma good_coalesced:
  assumes g: "good env pm r" and t: "trigger_ok env t"
    and e: "q_final_event_id r \<noteq> None \<longrightarrow> \<not> snd (coalesced_ids t r) \<or> t_is_final t"
  shows "good env pm (coalesce_record t r)"
proof -
  have id: "IDENTIFIER (t_event_id t)" using t by (simp add: trigger_ok_def)
  note ids = coalesced_ids_ok[OF g id, unfolded Let_def]
  have rel: "check_relations (coalesce_record t r) = Inr ()"
    using g ids e by (cases "q_state r"; cases "t_is_final t") (auto simp: good_unfold coalesce_record_def)
  show ?thesis
    using g ids rel id by (simp add: good_def record_ok_def fields_ok_def coalesce_record_def record_floats_def evidence_def backed_def)
qed



section \<open>Every operation preserves the invariant\<close>

lemma owned_claim:
  "require_claim_at r ow v = Inr () \<Longrightarrow>
     q_state r \<in> set owned_states \<and> q_owner r = Some ow \<and>
     (\<exists>l now. q_lease_until r = Some l \<and> now_of v = Inr now \<and> now < l)"
  by (auto simp: require_claim_at_def require_claim_def check_simps split: if_splits)

lemma inv_claim:
  assumes "queue_inv env pm st" "env_ok env" "clock_ok v"
  shows "queue_inv env pm (snd (claim env v pub ow st))"
proof -
  have "good env pm r \<and> claimable r" if "find claimable (safe_records env st) = Some r" for r
    using that inv_safe_record[OF assms(1)] by (auto simp: find_Some_iff)
  then show ?thesis
    using assms unfolding claim_def Let_def
    by (auto intro!: step_intros good_claimed simp: as_identifier_Inr split: option.split)
qed

lemma inv_claim_specific:
  assumes "queue_inv env pm st" "env_ok env" "clock_ok v"
  shows "queue_inv env pm (snd (claim_specific env v pub e ow flag st))"
  unfolding claim_specific_def
  using assms inv_must_read[OF assms(1)]
  by (auto intro!: step_intros good_claimed good_taken simp: as_identifier_Inr)

lemma inv_renew:
  assumes "queue_inv env pm st" "env_ok env" "clock_ok v2"
  shows "queue_inv env pm (snd (renew env v v2 pub e ow st))"
  unfolding renew_def
  using assms inv_must_read[OF assms(1)]
  by (auto intro!: step_intros good_lease dest!: owned_claim)

lemma inv_takeover:
  assumes "queue_inv env pm st" "env_ok env" "clock_ok v2"
  shows "queue_inv env pm (snd (takeover env v v2 pub e ow st))"
  unfolding takeover_def
  using assms inv_must_read[OF assms(1)]
  by (auto intro!: step_intros good_taken simp: as_identifier_Inr)

lemma good_transitioned:
  assumes "good env pm r" "q_state r \<in> set owned_states" "q_owner r \<noteq> None" "next_state_valid r target"
    "complete_details target details" "transitioned_record target details r = Inr u"
  shows "good env pm u"
proof (cases "target \<in> {RETRYABLE_FAILURE, QUARANTINED, CAPTURE_GAP, POLICY_DENIED}")
  case True
  then show ?thesis
    using assms(6) good_failed[OF assms(1,2)] by (auto simp: transitioned_record_def check_simps)
next
  case False
  then have "target \<in> {SOURCE_SNAPSHOTTED, OBJECT_UPLOADED, INDEX_PUBLISHED, COMMITTED}"
    using assms(4,5) by (cases target) (auto simp: next_state_valid_def complete_details_def)
  then show ?thesis
    using False assms(6) good_progressed[OF assms(1,3,4,5)] by (simp add: transitioned_record_def)
qed

lemma inv_transition:
  assumes "queue_inv env pm st" "\<And>target. queue_state_of tv = Some target \<Longrightarrow> complete_details target details"
  shows "queue_inv env pm (snd (transition env v pub e ow tv details st))"
proof -
  have body: "good env pm u"
    if "must_read env e st = Inr r" "require_claim_at r ow' v = Inr x" "next_state_valid r target"
      "queue_state_of tv = Some target" "transitioned_record target details r = Inr u" for r ow' target u x
  proof -
    have "good env pm r" using inv_must_read[OF assms(1) that(1)] by simp
    moreover have "q_state r \<in> set owned_states" "q_owner r \<noteq> None" using owned_claim[of r ow' v] that(2) by simp_all
    ultimately show "good env pm u" using good_transitioned that(3,5) assms(2)[OF that(4)] by blast
  qed
  show ?thesis
  proof (cases "queue_state_of tv")
    case None
    then show ?thesis using assms(1) by (simp add: transition_def reads_st_def split: sum.split)
  next
    case (Some target)
    show ?thesis
      unfolding transition_def Some option.case by (intro step_intros assms(1)) (rule body[OF _ _ _ Some]; simp)
  qed
qed

lemma complete_dedicated:
  "complete_details OBJECT_UPLOADED ((''object_key'', k) # ds)" "complete_details INDEX_PUBLISHED [(''index_id'', i)]"
  "complete_details COMMITTED []" "complete_details SOURCE_SNAPSHOTTED ds"
  "target \<in> {RETRYABLE_FAILURE, QUARANTINED, CAPTURE_GAP, POLICY_DENIED} \<Longrightarrow> complete_details target ds"
  by (auto simp: complete_details_def)

lemma inv_dedicated:
  assumes "queue_inv env pm st"
  shows "queue_inv env pm (snd (mark_uploaded env v pub e ow k n st))" "queue_inv env pm (snd (publish_index env v pub e ow i st))"
    "queue_inv env pm (snd (retry env v pub e ow reason st))" "queue_inv env pm (snd (quarantine_event env v pub e ow reason st))"
    "queue_inv env pm (snd (commit env v pub e ow st))"
  unfolding mark_uploaded_def publish_index_def retry_def quarantine_event_def commit_def
  by (rule inv_transition[OF assms]; simp only: queue_state_of_value option.inject; (hypsubst, simp add: complete_dedicated))+

lemma queue_inv_cong: "queue_files st' = queue_files st \<Longrightarrow> queue_inv env pm st' = queue_inv env pm st"
  by (simp add: queue_inv_def)

lemma queue_publish_prepared [simp]: "queue_files (snd (publish_prepared env pub p st)) = queue_files st"
  by (cases pub) (simp_all add: publish_prepared_def)

lemma queue_publish_file [simp]: "queue_files (snd (publish_file env pub p src st)) = queue_files st"
  by (cases pub) (simp_all add: publish_file_def Let_def split: source_file.splits)

lemma queue_quarantine_prepared [simp]: "queue_files (quarantine_prepared e st) = queue_files st"
  by (simp add: quarantine_prepared_def)

lemma prepare_guard_None: "prepare_guard r = Inr None \<Longrightarrow> q_resume_state r = SOURCE_SNAPSHOTTED"
  by (auto simp: prepare_guard_def split: if_splits)

lemma inv_release:
  assumes "queue_inv env pm st"
  shows "queue_inv env pm (snd (release env v pub e ow st))"
  unfolding release_def
  using assms inv_must_read[OF assms(1)]
  by (auto intro!: step_intros good_released)

lemma map_r_identifiers: "map_r as_identifier xs = Inr ys \<Longrightarrow> list_all IDENTIFIER ys"
  using map_r_set[of as_identifier xs ys] by (auto simp: list_all_iff as_identifier_Inr)

lemma inv_expand:
  assumes "queue_inv env pm st"
  shows "queue_inv env pm (snd (expand env v pub e ow cs cp st))"
  unfolding expand_def
  using assms inv_must_read[OF assms(1)] map_r_identifiers validate_expanded_sound
  by (auto intro!: step_intros good_expanded simp: check_simps)

lemma inv_operator:
  assumes "queue_inv env pm st"
  shows "queue_inv env pm (snd (quarantine_operator env pub e reason st))"
  unfolding quarantine_operator_def
  using assms inv_must_read[OF assms(1)]
  by (auto intro!: step_intros good_operator simp: as_identifier_Inr)

text \<open>
  Recovery. Reattaching clears a stale owner; the one record it must not meet is a claimed one
  that had already been prepared, because that record is written back claimed and unowned.
\<close>

definition reattach_safe :: "queue_record \<Rightarrow> bool" where
  "reattach_safe r \<longleftrightarrow>
     \<not> (q_state r = CLAIMED \<and> q_resume_state r \<in> {PREPARED_ENCRYPTED, OBJECT_UPLOADED, INDEX_PUBLISHED})"

definition reconcile_safe :: "outbox_env \<Rightarrow> json \<Rightarrow> outbox \<Rightarrow> bool" where
  "reconcile_safe env e st \<longleftrightarrow> (\<forall>r \<in> set (safe_records env st). JStr (q_event_id r) = e \<longrightarrow> reattach_safe r)"

lemma read_prepared_sound:
  assumes "read_prepared name env ages body = Inr p"
  shows "DIGEST (prepared_sha256 p) \<and> 0 \<le> prepared_size p \<and> IDENTIFIER (prepared_event_id p)"
proof -
  obtain v where v: "json_loads (default_hooks (float_parse env)) body = Inr v"
    using assms by (auto simp: read_prepared_def check_simps)
  show ?thesis
  proof (cases p)
    case (InlineRecord x)
    then have "prepared_from_dict env v = Inr x"
      using assms v by (auto simp: read_prepared_def check_simps split: if_splits)
    then show ?thesis
      by (auto simp: InlineRecord prepared_from_dict_def Let_def check_simps split: option.splits)
  next
    case (FileRecord x)
    then obtain m where "prepared_file_make env (jget (obj_of v) ''event_id'') (jget (obj_of v) ''ciphertext_file'') m
       (jget (obj_of v) ''ciphertext_sha256'') (jget (obj_of v) ''ciphertext_size'') = Inr x"
      using assms v by (auto simp: read_prepared_def prepared_file_from_dict_def Let_def check_simps split: if_splits)
    then show ?thesis by (auto simp: FileRecord prepared_file_make_def check_simps)
  qed
qed

lemma good_unowned:
  assumes "good env pm r" "q_state r \<noteq> CLAIMED"
  shows "good env pm (r\<lparr>q_owner := None, q_lease_until := None\<rparr>)"
  using assms by (cases "q_state r") (simp_all add: good_unfold)

end
