(* ===== verification/OutboxInvariant.thy ===== *)
theory OutboxInvariant
  imports OutboxLaws
begin

text \<open>
  The invariant of the whole outbox: the queue invariant of OutboxLaws together with a
  prepared directory in which every record reads back with its ciphertext. Every call of the
  public interface keeps it, so it holds in every reachable state.
\<close>

section \<open>The prepared directory\<close>

text \<open>A prepared file as one of the two publishers wrote it, with its ciphertext in place.\<close>

definition prep_stored :: "outbox_env \<Rightarrow> (string, string) dict \<Rightarrow> string \<times> string \<Rightarrow> bool" where
  "prep_stored env ages f \<longleftrightarrow>
     (\<exists>p. prepared_ok env p \<and> p_event_id p = fst f \<and> snd f = prepared_body env p) \<or>
     (\<exists>p b. prepared_file_ok env p \<and> pf_event_id p = fst f \<and> snd f = prepared_file_body env p \<and>
        map_of ages (fst f) = Some b \<and> sha256_hex env b = pf_ciphertext_sha256 p \<and> int (length b) = pf_ciphertext_size p)"

definition prep_inv :: "outbox_env \<Rightarrow> outbox \<Rightarrow> bool" where
  "prep_inv env st \<longleftrightarrow> wf_dict (prepared_files st) \<and> (\<forall>f \<in> set (prepared_files st). prep_stored env (age_files st) f)"

text \<open>The digest and size of the ciphertext prepared for an event.\<close>

definition prep_map :: "outbox_env \<Rightarrow> outbox \<Rightarrow> string \<Rightarrow> (string \<times> int) option" where
  "prep_map env st e =
     (case map_of (prepared_files st) e of
        None \<Rightarrow> None
      | Some t \<Rightarrow>
          (case read_prepared None env (age_files st) t of
             Inl _ \<Rightarrow> None | Inr p \<Rightarrow> Some (prepared_sha256 p, prepared_size p)))"

definition outbox_inv :: "outbox_env \<Rightarrow> outbox \<Rightarrow> bool" where
  "outbox_inv env st \<longleftrightarrow> prep_inv env st \<and> queue_inv env (prep_map env st) st"

lemma prep_stored_read:
  assumes "prep_stored env ages f"
  shows "\<exists>p. read_prepared None env ages (snd f) = Inr p \<and> read_prepared (Some (fst f)) env ages (snd f) = Inr p \<and>
    prepared_event_id p = fst f \<and> metadata_ok env (prepared_metadata p) \<and> prepared_size p \<le> MAX_CIPHERTEXT_BYTES \<and>
    DIGEST (prepared_sha256 p) \<and> 0 \<le> prepared_size p"
  using assms unfolding prep_stored_def
proof (elim disjE exE conjE)
  fix p assume p: "prepared_ok env p" "p_event_id p = fst f" "snd f = prepared_body env p"
  let ?p = "InlineRecord (p\<lparr>p_metadata := jsort_obj (p_metadata p)\<rparr>)"
  have "read_prepared n env ages (snd f) = Inr ?p" for n using read_prepared_body[OF p(1)] p(3) by simp
  then show ?thesis using p by (intro exI[of _ ?p]) (auto simp: prepared_ok_def metadata_ok_sort)
next
  fix p b assume p: "prepared_file_ok env p" "pf_event_id p = fst f" "snd f = prepared_file_body env p"
    and b: "map_of ages (fst f) = Some b" "sha256_hex env b = pf_ciphertext_sha256 p" "int (length b) = pf_ciphertext_size p"
  let ?p = "FileRecord (p\<lparr>pf_metadata := jsort_obj (pf_metadata p)\<rparr>)"
  have "read_prepared n env ages (snd f) = Inr ?p" if "n = None \<or> n = Some (fst f)" for n
    using read_prepared_file_body[OF p(1) _ b(2,3), of ages n] that p(2,3) b(1) by auto
  then show ?thesis using p by (intro exI[of _ ?p]) (simp add: prepared_file_ok_def metadata_ok_sort)
qed

lemma prep_inv_read:
  assumes "prep_inv env st" "map_of (prepared_files st) e = Some t"
  obtains p where "read_prepared None env (age_files st) t = Inr p" "read_prepared (Some e) env (age_files st) t = Inr p"
    "prepared_event_id p = e" "metadata_ok env (prepared_metadata p)" "prepared_size p \<le> MAX_CIPHERTEXT_BYTES"
    "DIGEST (prepared_sha256 p)" "0 \<le> prepared_size p" "prep_map env st e = Some (prepared_sha256 p, prepared_size p)"
proof -
  have "(e, t) \<in> set (prepared_files st)" using assms(2) by (rule map_of_SomeD)
  then have "prep_stored env (age_files st) (e, t)" using assms(1) unfolding prep_inv_def by blast
  from prep_stored_read[OF this] obtain p where p: "read_prepared None env (age_files st) t = Inr p"
    "read_prepared (Some e) env (age_files st) t = Inr p"
    "prepared_event_id p = e" "metadata_ok env (prepared_metadata p)" "prepared_size p \<le> MAX_CIPHERTEXT_BYTES"
    "DIGEST (prepared_sha256 p)" "0 \<le> prepared_size p" by auto
  moreover have "prep_map env st e = Some (prepared_sha256 p, prepared_size p)"
    using p(1) assms(2) by (simp add: prep_map_def)
  ultimately show ?thesis by (rule that)
qed

text \<open>Queue steps do not see the prepared directory, and the other way round.\<close>

lemma prep_map_cong:
  "prepared_files st' = prepared_files st \<Longrightarrow> age_files st' = age_files st \<Longrightarrow> prep_map env st' = prep_map env st"
  by (intro ext) (simp add: prep_map_def split: option.split)

lemma prep_inv_cong:
  "prepared_files st' = prepared_files st \<Longrightarrow> age_files st' = age_files st \<Longrightarrow> prep_inv env st' = prep_inv env st"
  by (simp add: prep_inv_def)

definition same_prepared :: "outbox \<Rightarrow> outbox \<Rightarrow> bool" where
  "same_prepared st st' \<longleftrightarrow> prepared_files st' = prepared_files st \<and> age_files st' = age_files st"

lemma outbox_inv_queue_step:
  assumes "outbox_inv env st" "same_prepared st st'" "queue_inv env (prep_map env st) st'"
  shows "outbox_inv env st'"
  using assms prep_map_cong[of st' st env] prep_inv_cong[of st' st env] by (simp add: outbox_inv_def same_prepared_def)

lemma same_publish_record [simp]: "same_prepared st (snd (publish_record env pub r st))"
  by (cases pub) (simp_all add: same_prepared_def publish_record_def)

lemma same_quarantine [simp]: "same_prepared st (quarantine_corrupt env st)"
  by (simp add: same_prepared_def quarantine_corrupt_def)

lemma same_refl [simp]: "same_prepared st st"
  by (simp add: same_prepared_def)

lemma same_trans: "same_prepared a b \<Longrightarrow> same_prepared b c \<Longrightarrow> same_prepared a c"
  by (simp add: same_prepared_def)

lemmas same_reads_st = reads_st_rule[of "same_prepared st" for st]
lemmas same_bind_st = bind_st_rule[of "same_prepared st" for st]

lemma same_publish_return:
  "same_prepared st0 st \<Longrightarrow> same_prepared st0 (snd (publish_return env pub r st))"
  using same_trans by simp

lemma same_if: "same_prepared st (snd x) \<Longrightarrow> same_prepared st (snd y) \<Longrightarrow> same_prepared st (snd (if b then x else y))"
  by simp

lemma same_pair: "same_prepared st st' \<Longrightarrow> same_prepared st (snd (x, st'))"
  by simp

lemma same_option: "same_prepared st (snd x) \<Longrightarrow> (\<And>y. same_prepared st (snd (f y))) \<Longrightarrow>
    same_prepared st (snd (case z of None \<Rightarrow> x | Some y \<Rightarrow> f y))"
  by (cases z) auto

lemmas same_intros = same_reads_st same_bind_st same_publish_return same_if same_pair same_option same_refl same_quarantine

lemma same_ops:
  "same_prepared st (snd (claim env v pub ow st))"
  "same_prepared st (snd (claim_specific env v pub je ow flag st))"
  "same_prepared st (snd (renew env v v2 pub e ow st))"
  "same_prepared st (snd (takeover env v v2 pub e ow st))"
  "same_prepared st (snd (transition env v pub e ow tv ds st))"
  "same_prepared st (snd (release env v pub je ow st))"
  "same_prepared st (snd (expand env v pub je ow cs cp st))"
  "same_prepared st (snd (quarantine_operator env pub je reason st))"
  unfolding claim_def claim_specific_def renew_def takeover_def transition_def release_def expand_def
    quarantine_operator_def Let_def
  by (intro same_intros; assumption?)+


section \<open>Queue operations\<close>

lemma inv_queue_ops:
  assumes "outbox_inv env st" "env_ok env"
  shows "clock_ok v \<Longrightarrow> outbox_inv env (snd (claim env v pub ow st))"
    "clock_ok v \<Longrightarrow> outbox_inv env (snd (claim_specific env v pub je ow flag st))"
    "clock_ok v2 \<Longrightarrow> outbox_inv env (snd (renew env v v2 pub e ow st))"
    "clock_ok v2 \<Longrightarrow> outbox_inv env (snd (takeover env v v2 pub e ow st))"
    "(\<And>target. queue_state_of tv = Some target \<Longrightarrow> complete_details target ds) \<Longrightarrow>
       outbox_inv env (snd (transition env v pub e ow tv ds st))"
    "outbox_inv env (snd (release env v pub je ow st))"
    "outbox_inv env (snd (expand env v pub je ow cs cp st))"
    "outbox_inv env (snd (quarantine_operator env pub je reason st))"
proof -
  have q: "queue_inv env (prep_map env st) st" using assms(1) by (simp add: outbox_inv_def)
  note step = outbox_inv_queue_step[OF assms(1)]
  show "clock_ok v \<Longrightarrow> outbox_inv env (snd (claim env v pub ow st))"
    by (rule step[OF same_ops(1) inv_claim[OF q assms(2)]])
  show "clock_ok v \<Longrightarrow> outbox_inv env (snd (claim_specific env v pub je ow flag st))"
    by (rule step[OF same_ops(2) inv_claim_specific[OF q assms(2)]])
  show "clock_ok v2 \<Longrightarrow> outbox_inv env (snd (renew env v v2 pub e ow st))"
    by (rule step[OF same_ops(3) inv_renew[OF q assms(2)]])
  show "clock_ok v2 \<Longrightarrow> outbox_inv env (snd (takeover env v v2 pub e ow st))"
    by (rule step[OF same_ops(4) inv_takeover[OF q assms(2)]])
  show "outbox_inv env (snd (transition env v pub e ow tv ds st))"
    if "\<And>target. queue_state_of tv = Some target \<Longrightarrow> complete_details target ds"
    by (rule step[OF same_ops(5) inv_transition[OF q that]])
  show "outbox_inv env (snd (release env v pub je ow st))"
    by (rule step[OF same_ops(6) inv_release[OF q]])
  show "outbox_inv env (snd (expand env v pub je ow cs cp st))"
    by (rule step[OF same_ops(7) inv_expand[OF q]])
  show "outbox_inv env (snd (quarantine_operator env pub je reason st))"
    by (rule step[OF same_ops(8) inv_operator[OF q]])
qed


section \<open>Preparing ciphertext\<close>

lemma prep_stored_ages:
  assumes "prep_stored env ages f" "map_of ages' (fst f) = map_of ages (fst f)"
  shows "prep_stored env ages' f \<and> read_prepared None env ages' (snd f) = read_prepared None env ages (snd f)"
  using assms(1)[unfolded prep_stored_def]
proof (elim disjE exE conjE)
  fix p assume "prepared_ok env p" "p_event_id p = fst f" "snd f = prepared_body env p"
  then show ?thesis unfolding prep_stored_def by (auto simp: read_prepared_body)
next
  fix p b assume p: "prepared_file_ok env p" "pf_event_id p = fst f" "snd f = prepared_file_body env p"
    and b: "map_of ages (fst f) = Some b" "sha256_hex env b = pf_ciphertext_sha256 p" "int (length b) = pf_ciphertext_size p"
  have "read_prepared None env a (snd f) = Inr (FileRecord (p\<lparr>pf_metadata := jsort_obj (pf_metadata p)\<rparr>))"
    if "map_of a (fst f) = Some b" for a
    using read_prepared_file_body[OF p(1) _ b(2,3), of a None] that p(2,3) by simp
  then show ?thesis using p b assms(2) unfolding prep_stored_def by auto
qed

lemma queue_inv_change:
  assumes "queue_inv env pm st" "\<And>e'. e' \<noteq> e \<Longrightarrow> pm' e' = pm e'"
    and "\<And>r. must_read env e st = Inr r \<Longrightarrow> q_resume_state r \<notin> {PREPARED_ENCRYPTED, OBJECT_UPLOADED, INDEX_PUBLISHED}"
  shows "queue_inv env pm' st"
proof -
  have "stored_ok env pm' f" if f: "f \<in> set (queue_files st)" for f
  proof -
    have "stored_ok env pm f" "map_of (queue_files st) (fst f) = Some (snd f)"
      using assms(1) f by (auto simp: queue_inv_def)
    then obtain r where r: "read_record env (snd f) = Inr r" "good env pm r" "q_event_id r = fst f" "canon r = r"
      "snd f = record_body env r" and m: "map_of (queue_files st) (fst f) = Some (snd f)"
      by (metis stored_ok_read)
    have "IDENTIFIER (fst f)" using r(2,3) by (simp add: good_def record_ok_def fields_ok_def)
    then have "must_read env (fst f) st = Inr r" using m r(1) by (simp add: must_read_def)
    then have "backed pm' r" using r(2,3) assms(2,3) by (cases "fst f = e") (auto simp: good_def backed_def)
    then show ?thesis using r unfolding stored_ok_def good_def by blast
  qed
  then show ?thesis using assms(1) by (simp add: queue_inv_def)
qed

text \<open>A change of the prepared directory at one event, under a queue record that is not prepared yet.\<close>

lemma outbox_inv_prepared_step:
  assumes inv: "outbox_inv env st"
    and unprepared: "\<And>r. must_read env e st = Inr r \<Longrightarrow> q_resume_state r \<notin> {PREPARED_ENCRYPTED, OBJECT_UPLOADED, INDEX_PUBLISHED}"
    and frame: "queue_files st' = queue_files st"
      "\<And>e'. e' \<noteq> e \<Longrightarrow> map_of (prepared_files st') e' = map_of (prepared_files st) e'"
      "\<And>e'. e' \<noteq> e \<Longrightarrow> map_of (age_files st') e' = map_of (age_files st) e'"
    and at: "wf_dict (prepared_files st')"
      "\<And>t. map_of (prepared_files st') e = Some t \<Longrightarrow> prep_stored env (age_files st') (e, t)"
  shows "outbox_inv env st'"
proof -
  have p: "prep_inv env st" and q: "queue_inv env (prep_map env st) st" using inv by (simp_all add: outbox_inv_def)
  have other: "prep_stored env (age_files st') (e', t) \<and> prep_map env st' e' = prep_map env st e'"
    if "e' \<noteq> e" "map_of (prepared_files st) e' = Some t" for e' t
  proof -
    have "(e', t) \<in> set (prepared_files st)" using that(2) by (rule map_of_SomeD)
    then have "prep_stored env (age_files st) (e', t)" using p unfolding prep_inv_def by blast
    from prep_stored_ages[OF this, of "age_files st'"] frame(2,3)[OF that(1)] that(2) show ?thesis
      by (simp add: prep_map_def)
  qed
  have "prep_stored env (age_files st') f" if "f \<in> set (prepared_files st')" for f
  proof -
    have m: "map_of (prepared_files st') (fst f) = Some (snd f)" using that at(1) by simp
    show ?thesis
    proof (cases "fst f = e")
      case True
      then show ?thesis using at(2) m by (cases f) auto
    next
      case False
      then show ?thesis using other[OF False] frame(2)[OF False] m by (cases f) auto
    qed
  qed
  then have "prep_inv env st'" using at(1) by (simp add: prep_inv_def)
  moreover have "prep_map env st' e' = prep_map env st e'" if "e' \<noteq> e" for e'
    using other[OF that] frame(2)[OF that] by (cases "map_of (prepared_files st) e'") (auto simp: prep_map_def)
  then have "queue_inv env (prep_map env st') st" by (rule queue_inv_change[OF q _ unprepared])
  ultimately show ?thesis using frame(1) by (simp add: outbox_inv_def queue_inv_def)
qed

lemma inv_publish_prepared:
  assumes "outbox_inv env st" "prepared_ok env p"
    and "\<And>r. must_read env (p_event_id p) st = Inr r \<Longrightarrow>
      q_resume_state r \<notin> {PREPARED_ENCRYPTED, OBJECT_UPLOADED, INDEX_PUBLISHED}"
  shows "outbox_inv env (snd (publish_prepared env pub p st))"
    and "publish_prepared env pub p st = (Inr x, st') \<Longrightarrow>
      prep_map env st' (p_event_id p) = Some (p_ciphertext_sha256 p, p_ciphertext_size p)"
proof -
  have wf: "wf_dict (prepared_files st)" using assms(1) by (simp add: outbox_inv_def prep_inv_def)
  have "prep_stored env ages (p_event_id p, prepared_body env p)" for ages
    using assms(2) by (auto simp: prep_stored_def)
  moreover have "prep_stored env (age_files st) (e, t)" if "map_of (prepared_files st) e = Some t" for e t
    using assms(1) map_of_SomeD[OF that] unfolding outbox_inv_def prep_inv_def by blast
  ultimately show "outbox_inv env (snd (publish_prepared env pub p st))"
    using wf by (intro outbox_inv_prepared_step[OF assms(1,3)])
      (cases pub; auto simp: publish_prepared_def map_of_update distinct_update)+
  show "prep_map env st' (p_event_id p) = Some (p_ciphertext_sha256 p, p_ciphertext_size p)"
    if "publish_prepared env pub p st = (Inr x, st')"
    using that by (cases pub) (auto simp: publish_prepared_def prep_map_def map_of_update read_prepared_body[OF assms(2)])
qed

text \<open>
  The file-backed publication: the ciphertext and its record appear together, and a failed
  publication leaves neither.
\<close>

lemma inv_publish_file:
  assumes inv: "outbox_inv env st" and p: "prepared_file_ok env p"
    and src: "src = SourceFile True bytes" "sha256_hex env bytes = pf_ciphertext_sha256 p"
      "int (length bytes) = pf_ciphertext_size p"
    and un: "\<And>r. must_read env (pf_event_id p) st = Inr r \<Longrightarrow>
      q_resume_state r \<notin> {PREPARED_ENCRYPTED, OBJECT_UPLOADED, INDEX_PUBLISHED}"
  shows "outbox_inv env (snd (publish_file env pub p src st))"
    and "publish_file env pub p src st = (Inr x, st') \<Longrightarrow>
      prep_map env st' (pf_event_id p) = Some (pf_ciphertext_sha256 p, pf_ciphertext_size p)"
proof -
  let ?e = "pf_event_id p"
  have wf: "wf_dict (prepared_files st)" using inv by (simp add: outbox_inv_def prep_inv_def)
  have new: "prep_stored env (AList.update ?e bytes ages) (?e, prepared_file_body env p)" for ages
    using p src unfolding prep_stored_def by (auto simp: map_of_update)
  show "outbox_inv env (snd (publish_file env pub p src st))"
  proof (cases "has_key (age_files st) ?e \<or> has_key (prepared_files st) ?e")
    case True
    then show ?thesis using inv src by (auto simp: publish_file_def Let_def)
  next
    case False
    then have none: "map_of (prepared_files st) ?e = None" by (simp add: map_of_eq_None_iff)
    show ?thesis
      using False none wf new src
      by (intro outbox_inv_prepared_step[OF inv un])
        (cases pub; auto simp: publish_file_def Let_def map_of_update map_of_delete distinct_update distinct_delete delete_conv)+
  qed
  show "prep_map env st' ?e = Some (pf_ciphertext_sha256 p, pf_ciphertext_size p)"
    if "publish_file env pub p src st = (Inr x, st')"
  proof -
    have "prepared_files st' = AList.update ?e (prepared_file_body env p) (prepared_files st)"
      "age_files st' = AList.update ?e bytes (age_files st)"
      using that src by (cases pub; auto simp: publish_file_def Let_def split: if_splits)+
    then show ?thesis
      using read_prepared_file_body[OF p, of "age_files st'" None bytes] src
      by (simp add: prep_map_def map_of_update)
  qed
qed


lemma outbox_inv_publish_return:
  "outbox_inv env st \<Longrightarrow> good env (prep_map env st) r \<Longrightarrow> outbox_inv env (snd (publish_return env pub r st))"
  by (rule outbox_inv_queue_step[of env st]) (simp_all add: outbox_inv_def inv_publish)

lemma outbox_inv_if: "(b \<Longrightarrow> outbox_inv env (snd x)) \<Longrightarrow> (\<not> b \<Longrightarrow> outbox_inv env (snd y)) \<Longrightarrow>
    outbox_inv env (snd (if b then x else y))"
  by simp

lemma outbox_inv_pair: "outbox_inv env st \<Longrightarrow> outbox_inv env (snd (x, st))"
  by simp

lemmas inv_reads = reads_st_rule[of "outbox_inv env" for env]
lemmas inv_steps = inv_reads outbox_inv_if outbox_inv_pair

lemma outbox_inv_queue: "outbox_inv env st \<Longrightarrow> queue_inv env (prep_map env st) st"
  by (simp add: outbox_inv_def)

text \<open>After the ciphertext is published, the queue record follows; both orders of failure keep the invariant.\<close>

lemma inv_prepared_record:
  assumes inv: "outbox_inv env st1" and same: "queue_files st1 = queue_files st"
    and r: "must_read env e st = Inr r" "require_claim_at r ow v = Inr x" "prepare_guard r = Inr None"
    and pm: "prep_map env st1 e = Some (d, n)" "DIGEST d" "0 \<le> n" "n \<le> MAX_CIPHERTEXT_BYTES"
  shows "outbox_inv env (snd (publish_return env pub (prepared_progress d n r) st1))"
proof (rule outbox_inv_publish_return[OF inv good_prepared_progress])
  have "must_read env e st1 = Inr r" using r(1) same by (simp add: must_read_def)
  note read = inv_must_read[OF outbox_inv_queue[OF inv] this]
  show "good env (prep_map env st1) r" using read by simp
  show "q_owner r \<noteq> None" using owned_claim[of r ow v] r(2) by simp
  show "prep_map env st1 (q_event_id r) = Some (d, n)" using read pm(1) by simp
qed (use pm in simp_all)

lemma inv_prepare_encrypted:
  assumes inv: "outbox_inv env st" and env: "env_ok env" and m: "wf_json m"
  shows "outbox_inv env (snd (prepare_encrypted env v pub pub2 e ow ciphertext m st))"
proof -
  note q = outbox_inv_queue[OF inv]
  have sha: "DIGEST (sha256_hex env ciphertext)" using env by (simp add: env_ok_def)
  have body: "outbox_inv env (snd (bind_st (publish_prepared env pub p st) (\<lambda>_ st''. publish_return env pub2 u st'')))"
    if small: "int (length ciphertext) \<le> MAX_CIPHERTEXT_BYTES" and e': "IDENTIFIER e'"
      and md: "validate_metadata env (or_empty m) = Inr m'" and r: "must_read env e' st = Inr r"
      "require_claim_at r ow' v = Inr x" "prepare_guard r = Inr None"
      and p: "p = \<lparr>p_event_id = e', p_ciphertext = ciphertext, p_metadata = m',
                p_ciphertext_sha256 = sha256_hex env ciphertext, p_ciphertext_size = int (length ciphertext)\<rparr>"
      and u: "u = prepared_progress (sha256_hex env ciphertext) (int (length ciphertext)) r" for e' m' r ow' x p u
  proof -
    have ok: "prepared_ok env p"
      using small e' sha validate_metadata_sound[OF md or_empty_wf[OF m]] by (simp add: p prepared_ok_def)
    have un: "q_resume_state r' \<notin> {PREPARED_ENCRYPTED, OBJECT_UPLOADED, INDEX_PUBLISHED}"
      if "must_read env (p_event_id p) st = Inr r'" for r'
      using that r(1) prepare_guard_None[OF r(3)] by (simp add: p)
    note pub1 = inv_publish_prepared[OF inv ok un]
    show ?thesis
    proof (rule bind_st_rule[of "outbox_inv env"])
      show "outbox_inv env (snd (publish_prepared env pub p st))" by (rule pub1(1))
      fix y st' assume y: "publish_prepared env pub p st = (Inr y, st')" and st': "outbox_inv env st'"
      have "queue_files st' = queue_files st" using queue_publish_prepared[of env pub p st] y by simp
      moreover have "prep_map env st' e' = Some (sha256_hex env ciphertext, int (length ciphertext))"
        using pub1(2)[OF _ y] by (simp add: p)
      ultimately show "outbox_inv env (snd (publish_return env pub2 u st'))"
        unfolding u using inv_prepared_record[OF st' _ r] sha small by simp
    qed
  qed
  have gap: "outbox_inv env (snd (publish_return env pub (quota_gap r) st))" if "must_read env e' st = Inr r" for e' r
    using outbox_inv_publish_return[OF inv] good_quota_gap inv_must_read[OF q that] by blast
  show ?thesis
    unfolding prepare_encrypted_def Let_def inv_no_quarantine[OF q]
  proof (intro inv_reads, goal_cases)
    case (8 _ e' m' r ow' x g)
    show ?case
    proof (cases g)
      case None
      then show ?thesis
        unfolding None option.case PreparedRecord.simps
        by (intro inv_steps inv gap[OF 8(4)] body) (use 8 None in \<open>auto simp: check_simps\<close>)
    qed (use inv in simp)
  qed (rule inv)+
qed

lemma read_source_Inr:
  assumes "read_source env src = Inr (d, n, b)"
  shows "src = SourceFile True b" "d = sha256_hex env b" "n = int (length b)" "n \<le> MAX_CIPHERTEXT_BYTES"
  using assms by (auto simp: read_source_def split: source_file.splits if_splits)

lemma validate_metadata_again: "metadata_ok env m \<Longrightarrow> wf_json (JObj m) \<and> validate_metadata env (JObj m) = Inr m"
  using metadata_ok_json validate_metadata_ok by blast

lemma inv_prepare_file:
  assumes inv: "outbox_inv env st" and env: "env_ok env" and m: "wf_json m"
  shows "outbox_inv env (snd (prepare_encrypted_file env v pub pub2 e ow src m st))"
proof -
  note q = outbox_inv_queue[OF inv]
  have body: "outbox_inv env (snd (bind_st (publish_file env pub p src st) (\<lambda>_ st''. publish_return env pub2 (prepared_progress d n r) st'')))"
    if md: "validate_metadata env (or_empty m) = Inr m'" and s: "read_source env src = Inr (d, n, b)"
      and p: "prepared_file_make env (JStr e') (JStr (e' @ ''.age'')) m' (JStr d) (JInt n) = Inr p"
      and r: "must_read env e' st = Inr r" "require_claim_at r ow' v = Inr x" "prepare_guard r = Inr None"
    for e' m' d n b p r ow' x
  proof -
    have m': "metadata_ok env m'" by (rule validate_metadata_sound[OF md or_empty_wf[OF m]])
    have ok: "prepared_file_ok env p" and f: "pf_event_id p = e'" "pf_ciphertext_sha256 p = d" "pf_ciphertext_size p = n"
      using prepared_file_make_sound[OF p] validate_metadata_again[OF m'] by simp_all
    have un: "q_resume_state r' \<notin> {PREPARED_ENCRYPTED, OBJECT_UPLOADED, INDEX_PUBLISHED}"
      if "must_read env (pf_event_id p) st = Inr r'" for r'
      using that r(1) prepare_guard_None[OF r(3)] by (simp add: f)
    note pub1 = inv_publish_file[OF inv ok read_source_Inr(1)[OF s] _ _ un]
    have eqs: "sha256_hex env b = pf_ciphertext_sha256 p" "int (length b) = pf_ciphertext_size p"
      using read_source_Inr[OF s] f by simp_all
    show ?thesis
    proof (rule bind_st_rule[of "outbox_inv env"])
      show "outbox_inv env (snd (publish_file env pub p src st))" by (rule pub1(1)[OF eqs])
      fix y st' assume y: "publish_file env pub p src st = (Inr y, st')" and st': "outbox_inv env st'"
      have "queue_files st' = queue_files st" using queue_publish_file[of env pub p src st] y by simp
      moreover have "prep_map env st' e' = Some (d, n)" using pub1(2)[OF eqs _ y] f by simp
      moreover have "DIGEST d" using env read_source_Inr(2)[OF s] by (simp add: env_ok_def)
      ultimately show "outbox_inv env (snd (publish_return env pub2 (prepared_progress d n r) st'))"
        using inv_prepared_record[OF st' _ r] read_source_Inr(3,4)[OF s] by simp
    qed
  qed
  have gap: "outbox_inv env (snd (publish_return env pub (quota_gap r) st))" if "must_read env e' st = Inr r" for e' r
    using outbox_inv_publish_return[OF inv] good_quota_gap inv_must_read[OF q that] by blast
  show ?thesis
    unfolding prepare_encrypted_file_def Let_def inv_no_quarantine[OF q]
  proof (intro inv_reads, goal_cases)
    case (5 e' m' _ s)
    then show ?case
    proof (cases s)
      case (fields d n b)
      show ?thesis
        unfolding fields prod.case
      proof (intro inv_reads, goal_cases)
        case (6 p r ow' x g)
        show ?case
        proof (cases g)
          case None
          show ?thesis
            unfolding None option.case
            by (intro inv_steps inv gap[OF 6(2)] body) (use 5 6 None fields in auto)
        qed (use inv in simp)
      qed (rule inv)+
    qed
  qed (rule inv)+
qed


section \<open>Recovery\<close>

lemma wf_dict_union: "wf_dict a \<Longrightarrow> wf_dict (dict_union a b)"
  unfolding dict_union_def by (induction b arbitrary: a) (auto simp: distinct_update)

lemma set_dict_union: "wf_dict a \<Longrightarrow> set (dict_union a b) \<subseteq> set a \<union> set b"
  unfolding dict_union_def
proof (induction b arbitrary: a)
  case (Cons p b)
  obtain k v where p: "p = (k, v)" by (cases p)
  have "wf_dict (AList.update k v a)" using Cons.prems by (rule distinct_update)
  from Cons.IH[OF this] show ?case using set_update_dict[OF Cons.prems, of k v] by (auto simp: p)
qed simp

lemma wf_json_union:
  assumes "metadata_ok env a" "metadata_ok env b"
  shows "wf_json (JObj (dict_union a b))"
proof -
  have "wf_json (JObj a)" "wf_json (JObj b)" using assms metadata_ok_json by blast+
  moreover have "wf_dict (dict_union a b)" using assms(1) by (intro wf_dict_union) (simp add: metadata_ok_def)
  ultimately show ?thesis using set_dict_union[of a b] by (auto simp: list_all_iff)
qed

lemma good_reattached:
  assumes g: "good env pm r" and "metadata_ok env m" "DIGEST (prepared_sha256 p)" "0 \<le> prepared_size p"
    "prepared_size p \<le> MAX_CIPHERTEXT_BYTES" "pm (q_event_id r) = Some (prepared_sha256 p, prepared_size p)"
  shows "good env pm (reattached_record fin m p (r\<lparr>q_owner := None, q_lease_until := None\<rparr>))"
  using assms by (cases "q_final_event_id r"; cases fin) (simp_all add: good_unfold reattached_record_def)

lemma inv_reattach:
  assumes inv: "outbox_inv env st" and read: "must_read env e st = Inr r" and safe: "reattach_safe r"
    and p: "metadata_ok env m" "DIGEST (prepared_sha256 p)" "0 \<le> prepared_size p" "prepared_size p \<le> MAX_CIPHERTEXT_BYTES"
      "prep_map env st e = Some (prepared_sha256 p, prepared_size p)"
  shows "outbox_inv env (snd (reattach env clock pub fin m p r st))"
proof -
  let ?x = "r\<lparr>q_owner := None, q_lease_until := None\<rparr>"
  have g: "good env (prep_map env st) r" and e: "q_event_id r = e"
    using inv_must_read[OF outbox_inv_queue[OF inv] read] by simp_all
  have x: "(if q_owner r \<noteq> None then ?x else r) = ?x"
    using good_owner_lease[OF g] by (cases r) auto
  have re: "good env (prep_map env st) (reattached_record fin m p ?x)"
    using good_reattached[OF g p(1-4)] p(5) e by simp
  have un: "good env (prep_map env st) ?x"
    if "q_resume_state ?x \<in> {PREPARED_ENCRYPTED, OBJECT_UPLOADED, INDEX_PUBLISHED} \<or> q_state ?x = COMMITTED"
    using that safe by (intro good_unowned[OF g]) (auto simp: reattach_safe_def)
  show ?thesis
    unfolding reattach_def Let_def x
    by (intro inv_steps inv outbox_inv_publish_return[OF inv] re un)
qed

lemma inv_recover_new:
  assumes inv: "outbox_inv env st" and env: "env_ok env"
    and a: "IDENTIFIER e" "IDENTIFIER session" "checkpoint_ok c" "metadata_ok env m"
    and p: "DIGEST (prepared_sha256 p)" "0 \<le> prepared_size p" "prepared_size p \<le> MAX_CIPHERTEXT_BYTES"
      "prep_map env st e = Some (prepared_sha256 p, prepared_size p)"
  shows "outbox_inv env (snd (recover_new env pub e session c fin m p (safe_records env st) st))"
proof -
  have "1 \<le> next_sequence (safe_records env st)"
    using inv_safe_record[OF outbox_inv_queue[OF inv]] good_sequence by (intro next_sequence_pos) blast
  then have "good env (prep_map env st) (recovered_record e session c m fin (next_sequence (safe_records env st)) p)"
    using good_recovered[OF a _ env p(1-3)] p(4) by simp
  then show ?thesis
    unfolding recover_new_def Let_def by (intro inv_steps inv outbox_inv_publish_return[OF inv])
qed

lemma inv_reconcile:
  assumes inv: "outbox_inv env st" and env: "env_ok env" and m: "wf_json m" and safe: "reconcile_safe env e st"
  shows "outbox_inv env (snd (reconcile_prepared env clock pub e session cp m fin st))"
proof -
  note q = outbox_inv_queue[OF inv]
  have prep: "prep_inv env st" using inv by (simp add: outbox_inv_def)
  show ?thesis
    unfolding reconcile_prepared_def Let_def inv_no_quarantine[OF q]
  proof (intro inv_reads, goal_cases)
    case (6 e' s' c' req _)
    then have e': "e = JStr e'" "IDENTIFIER e'" and s': "IDENTIFIER s'" and c': "checkpoint_ok c'"
      by (auto simp: as_identifier_Inr dest: validate_checkpoint_sound)
    have req: "metadata_ok env req" by (rule validate_metadata_sound[OF 6(4) or_empty_wf[OF m]])
    show ?case
    proof (cases "map_of (prepared_files st) e'")
      case None
      then show ?thesis using inv by simp
    next
      case (Some t)
      from prep_inv_read[OF prep Some] obtain p where
        p: "read_prepared (Some e') env (age_files st) t = Inr p" "prepared_event_id p = e'"
          "metadata_ok env (prepared_metadata p)" "prepared_size p \<le> MAX_CIPHERTEXT_BYTES" "DIGEST (prepared_sha256 p)"
          "0 \<le> prepared_size p" "prep_map env st e' = Some (prepared_sha256 p, prepared_size p)" by metis
      have md: "metadata_ok env m'" if "validate_metadata env (JObj (dict_union (prepared_metadata p) req)) = Inr m'" for m'
        using validate_metadata_sound[OF that wf_json_union[OF p(3) req]] .
      have found: "must_read env e' st = Inr r \<and> reattach_safe r"
        if "find (\<lambda>r. q_event_id r = e') (safe_records env st) = Some r" for r
        using that inv_safe_record[OF q] safe e'(1) by (auto simp: find_Some_iff reconcile_safe_def)
      show ?thesis
        unfolding Some option.case p(1) sum.case p(2)
        using inv_reattach[OF inv] found md p inv_recover_new[OF inv env e'(2) s' c'] inv
        by (auto intro!: inv_reads split: option.split)
    qed
  qed (rule inv)+
qed


section \<open>Enqueue\<close>

lemma snd_enqueue_coalesced:
  "snd (enqueue_coalesced env pub t r st) =
     (if t_event_id t \<notin> set (q_event_ids r) \<and> length (q_event_ids r) \<ge> MAX_EVENT_IDS \<and> \<not> t_is_final t then st
      else snd (publish_record env pub (coalesce_record t r) st))"
  unfolding enqueue_coalesced_def Let_def
  by (cases "publish_record env pub (coalesce_record t r) st") (simp split: sum.split py_error.split)

lemma snd_enqueue_new:
  "snd (enqueue_new env pub t rs st) = st \<or>
   snd (enqueue_new env pub t rs st) = snd (publish_record env pub (new_record t (next_sequence rs)) st) \<and>
     length rs < max_events env \<and>
     (\<exists>n. queue_bytes st rs = Inr n \<and> n + body_size (record_body env (new_record t (next_sequence rs))) \<le> max_bytes env)"
  unfolding enqueue_new_def Let_def reads_st_def
  by (cases "publish_record env pub (new_record t (next_sequence rs)) st") (simp split: sum.split py_error.split)

lemma inv_publish_record:
  "outbox_inv env st \<Longrightarrow> good env (prep_map env st) r \<Longrightarrow> outbox_inv env (snd (publish_record env pub r st))"
  using outbox_inv_publish_return[of env st r pub] by simp

lemma not_prepared_stage: "q_resume_state r \<notin> {PREPARED_ENCRYPTED, OBJECT_UPLOADED, INDEX_PUBLISHED} \<Longrightarrow> backed pm r"
  by (simp add: backed_def)

lemma inv_enqueue_locked:
  assumes inv: "outbox_inv env st" and env: "env_ok env" and t: "trigger_ok env t"
  shows "outbox_inv env (snd (enqueue_locked env pub t st))"
proof -
  note q = outbox_inv_queue[OF inv]
  have co: "outbox_inv env (snd (enqueue_coalesced env pub t r st))" if "find_existing t (safe_records env st) = Some r" for r
  proof -
    have "r \<in> set (safe_records env st)" using that by (auto simp: find_existing_def find_Some_iff split: if_splits)
    then have g: "good env (prep_map env st) r" using inv_safe_record[OF q] by blast
    show ?thesis
      unfolding snd_enqueue_coalesced
    proof (cases "t_event_id t \<notin> set (q_event_ids r) \<and> length (q_event_ids r) \<ge> MAX_EVENT_IDS \<and> \<not> t_is_final t")
      case False
      then have "\<not> snd (coalesced_ids t r) \<or> t_is_final t" by (auto simp: coalesced_ids_def)
      then have "good env (prep_map env st) (coalesce_record t r)" by (intro good_coalesced[OF g t]) simp
      then show "outbox_inv env (if t_event_id t \<notin> set (q_event_ids r) \<and> length (q_event_ids r) \<ge> MAX_EVENT_IDS \<and> \<not> t_is_final t
          then st else snd (publish_record env pub (coalesce_record t r) st))"
        using inv_publish_record[OF inv] inv by simp
    qed (use inv in simp)
  qed
  have "1 \<le> next_sequence (safe_records env st)"
    using inv_safe_record[OF q] good_sequence by (intro next_sequence_pos) blast
  then have "good env (prep_map env st) (new_record t (next_sequence (safe_records env st)))"
    by (rule good_new[OF t _ env])
  then have new: "outbox_inv env (snd (enqueue_new env pub t (safe_records env st) st))"
    using snd_enqueue_new[of env pub t "safe_records env st" st] inv_publish_record[OF inv] inv by metis
  show ?thesis
    unfolding enqueue_locked_def Let_def inv_no_quarantine[OF q]
    using inv co new by (auto split: option.split)
qed

lemma snd_enqueue:
  assumes "trigger_make env e s c f m d co = Inr t"
  shows "snd (enqueue env lock pub e s c f m d co st) =
     (case lock of Inl _ \<Rightarrow> st | Inr _ \<Rightarrow> snd (enqueue_locked env pub t st))"
  using assms unfolding enqueue_def reads_st_def
  by (cases "enqueue_locked env pub t st") (simp split: sum.split py_error.split)

lemma inv_enqueue:
  assumes "outbox_inv env st" "env_ok env" "wf_json m"
  shows "outbox_inv env (snd (enqueue env lock pub e s c f m d co st))"
proof (cases "trigger_make env e s c f m d co")
  case (Inr t)
  show ?thesis
    unfolding snd_enqueue[OF Inr]
    using inv_enqueue_locked[OF assms(1,2) trigger_make_ok[OF Inr assms(3)]] assms(1) by (simp split: sum.split)
qed (use assms(1) in \<open>simp add: enqueue_def reads_st_def\<close>)


section \<open>Inspection and receipts\<close>

lemma sweep_prepared_id:
  assumes "prep_inv env st" "set fs \<subseteq> set (prepared_files st)"
  shows "\<exists>ids. sweep_prepared env fs st = (ids, 0, st) \<and> ids = map fst fs"
  using assms(2)
proof (induction fs)
  case (Cons f fs)
  have "prep_stored env (age_files st) f" using Cons.prems assms(1) by (simp add: prep_inv_def)
  from prep_stored_read[OF this] obtain p where "read_prepared None env (age_files st) (snd f) = Inr p" "prepared_event_id p = fst f"
    by auto
  then show ?case using Cons by (simp add: prepared_reads_def)
qed simp

lemma map_of_filter_fst: "map_of (filter (\<lambda>f. P (fst f)) d) k = (if P k then map_of d k else None)"
  by (induction d) auto

lemma inv_inspect_all:
  assumes inv: "outbox_inv env st"
  shows "outbox_inv env (snd (inspect_all env st))"
proof -
  have prep: "prep_inv env st" and q: "queue_inv env (prep_map env st) st" using inv by (simp_all add: outbox_inv_def)
  have sweep: "sweep_prepared env (prepared_files st) st = (map fst (prepared_files st), 0, st)"
    using sweep_prepared_id[OF prep, of "prepared_files st"] by simp
  let ?st = "sweep_orphans (map fst (prepared_files st)) st"
  have ages: "map_of (age_files ?st) (fst f) = map_of (age_files st) (fst f)" if "f \<in> set (prepared_files st)" for f
    using that map_of_filter_fst[of "\<lambda>k. k \<in> fst ` set (prepared_files st)" "age_files st"]
    by (simp add: sweep_orphans_def)
  have stored: "prep_stored env (age_files ?st) f \<and>
      read_prepared None env (age_files ?st) (snd f) = read_prepared None env (age_files st) (snd f)"
    if "f \<in> set (prepared_files st)" for f
    using prep_stored_ages[OF _ ages[OF that]] that prep by (simp add: prep_inv_def)
  have files: "prepared_files ?st = prepared_files st" "queue_files ?st = queue_files st" by (simp_all add: sweep_orphans_def)
  have "prep_inv env ?st" using prep stored by (simp add: prep_inv_def files)
  moreover have "prep_map env ?st e = prep_map env st e" for e
    using stored by (cases "map_of (prepared_files st) e") (auto simp: prep_map_def files dest!: map_of_SomeD)
  then have "prep_map env ?st = prep_map env st" by (rule ext)
  ultimately have "outbox_inv env ?st" using q files by (simp add: outbox_inv_def queue_inv_def)
  then show ?thesis by (simp add: inspect_all_def Let_def inv_no_quarantine[OF q] sweep)
qed

lemma inv_inspect_record:
  assumes "outbox_inv env st"
  shows "snd (inspect_record env e st) = st"
proof -
  have "ok (read_record env t)" if "map_of (queue_files st) k = Some t" for k t
    using inv_readable[OF outbox_inv_queue[OF assms] map_of_SomeD[OF that]] by (simp add: readable_def)
  then show ?thesis
    unfolding inspect_record_def reads_st_def by (force split: sum.split option.split)
qed

lemma inv_inspect_event:
  assumes "outbox_inv env st"
  shows "outbox_inv env (snd (inspect_event env e st))"
  unfolding inspect_event_def
proof (rule bind_st_rule[of "outbox_inv env"])
  fix x st' assume "outbox_inv env st'"
  then show "outbox_inv env (snd (case x of Some r \<Rightarrow> (Inr \<lparr>in_records = [r], in_diagnostics = [], in_quarantined_count = 0,
      in_partial_count = 0, in_orphan_prepared = []\<rparr>, st') | None \<Rightarrow> (case inspect_all env st' of (i, st'') \<Rightarrow> (Inr (i\<lparr>in_records := []\<rparr>), st''))))"
    using inv_inspect_all[of env st'] by (cases "inspect_all env st'") (auto split: option.split)
qed (use assms inv_inspect_record in simp)

lemma inv_discard:
  assumes "outbox_inv env st"
  shows "outbox_inv env (snd (discard_receipt env pub e st))"
proof -
  have "outbox_inv env (st\<lparr>receipt_files := x\<rparr>)" for x
    by (rule outbox_inv_queue_step[OF assms]) (use assms in \<open>simp_all add: same_prepared_def outbox_inv_def queue_inv_def\<close>)
  then show ?thesis
    unfolding discard_receipt_def reads_st_def
    using assms by (cases pub) (auto split: sum.split option.split)
qed

end
