(* ===== verification/OutboxCalls.thy ===== *)
theory OutboxCalls
  imports OutboxInvariant
begin

text \<open>
  The calls of the outbox's interface as data, what one call does to the state, the states
  reachable from an empty outbox, and the lifecycle of a single record: an abstract state
  machine that knows nothing of files, publications or clocks. The refinement theorem says
  that a call moves at most along one transition of that machine, for the record it names.
\<close>

section \<open>Calls\<close>

datatype call =
    Enqueue "unit result" publication json json json json json json bool
  | Claim json publication json
  | ClaimSpecific json publication json json json
  | Renew json json publication string json
  | Takeover json json publication string json
  | Snapshot json publication string json
  | Fail QueueState json publication string json json
  | MarkUploaded json publication string json json json
  | PublishIndex json publication string json json
  | Commit json publication string json
  | PrepareEncrypted json publication publication json json string json
  | PrepareEncryptedFile json publication publication json json source_file json
  | Release json publication json json
  | ReconcilePrepared json publication json json json json json
  | Expand json publication json json "json list" json
  | QuarantineOperator publication json json
  | InspectEvent json
  | InspectAll
  | DiscardReceipt publication json

fun exec :: "outbox_env \<Rightarrow> call \<Rightarrow> outbox \<Rightarrow> outbox" where
  "exec env (Enqueue lock pub e s cp fin m d co) st = snd (enqueue env lock pub e s cp fin m d co st)"
| "exec env (Claim v pub ow) st = snd (claim env v pub ow st)"
| "exec env (ClaimSpecific v pub e ow flag) st = snd (claim_specific env v pub e ow flag st)"
| "exec env (Renew v v2 pub e ow) st = snd (renew env v v2 pub e ow st)"
| "exec env (Takeover v v2 pub e ow) st = snd (takeover env v v2 pub e ow st)"
| "exec env (Snapshot v pub e ow) st = snd (transition env v pub e ow (JStr (state_value SOURCE_SNAPSHOTTED)) [] st)"
| "exec env (Fail target v pub e ow reason) st =
     snd (transition env v pub e ow (JStr (state_value target)) [(''reason_code'', reason)] st)"
| "exec env (MarkUploaded v pub e ow key n) st = snd (mark_uploaded env v pub e ow key n st)"
| "exec env (PublishIndex v pub e ow i) st = snd (publish_index env v pub e ow i st)"
| "exec env (Commit v pub e ow) st = snd (commit env v pub e ow st)"
| "exec env (PrepareEncrypted v pub pub2 e ow b m) st = snd (prepare_encrypted env v pub pub2 e ow b m st)"
| "exec env (PrepareEncryptedFile v pub pub2 e ow src m) st = snd (prepare_encrypted_file env v pub pub2 e ow src m st)"
| "exec env (Release v pub e ow) st = snd (release env v pub e ow st)"
| "exec env (ReconcilePrepared v pub e s cp m fin) st = snd (reconcile_prepared env v pub e s cp m fin st)"
| "exec env (Expand v pub e ow cs cp) st = snd (expand env v pub e ow cs cp st)"
| "exec env (QuarantineOperator pub e reason) st = snd (quarantine_operator env pub e reason st)"
| "exec env (InspectEvent e) st = snd (inspect_event env e st)"
| "exec env InspectAll st = snd (inspect_all env st)"
| "exec env (DiscardReceipt pub e) st = snd (discard_receipt env pub e st)"

text \<open>
  What the callers guarantee: clocks within the range of doubles, metadata that is a value
  decoded from JSON (distinct keys), and failure states for the generic failure transition
  (the interface's \<^verbatim>\<open>retry\<close>, \<^verbatim>\<open>quarantine\<close> and the harvester's denials).
\<close>

fun call_ok :: "call \<Rightarrow> bool" where
  "call_ok (Enqueue lock pub e s cp fin m d co) = wf_json m"
| "call_ok (Claim v pub ow) = clock_ok v"
| "call_ok (ClaimSpecific v pub e ow flag) = clock_ok v"
| "call_ok (Renew v v2 pub e ow) = clock_ok v2"
| "call_ok (Takeover v v2 pub e ow) = clock_ok v2"
| "call_ok (Fail target v pub e ow reason) = (target \<in> {RETRYABLE_FAILURE, QUARANTINED, CAPTURE_GAP, POLICY_DENIED})"
| "call_ok (PrepareEncrypted v pub pub2 e ow b m) = wf_json m"
| "call_ok (PrepareEncryptedFile v pub pub2 e ow src m) = wf_json m"
| "call_ok (ReconcilePrepared v pub e s cp m fin) = wf_json m"
| "call_ok _ = True"

text \<open>Recovery is not asked for a claimed record that was prepared before.\<close>

fun permitted :: "outbox_env \<Rightarrow> call \<Rightarrow> outbox \<Rightarrow> bool" where
  "permitted env (ReconcilePrepared v pub e s cp m fin) st = reconcile_safe env e st"
| "permitted env _ st = True"

definition empty_outbox :: outbox where
  "empty_outbox = \<lparr>queue_files = [], prepared_files = [], age_files = [], quarantine_items = [], receipt_files = [], partial_files = 0\<rparr>"

inductive reachable :: "outbox_env \<Rightarrow> outbox \<Rightarrow> bool" for env where
  start: "reachable env empty_outbox"
| step: "reachable env st \<Longrightarrow> call_ok c \<Longrightarrow> permitted env c st \<Longrightarrow> reachable env (exec env c st)"

lemma inv_named_transition:
  assumes "outbox_inv env st" "env_ok env" "complete_details target ds"
  shows "outbox_inv env (snd (transition env v pub e ow (JStr (state_value target)) ds st))"
  by (rule inv_queue_ops(5)[OF assms(1,2)]) (use assms(3) in simp)

lemma inv_exec:
  assumes "outbox_inv env st" "env_ok env" "call_ok c" "permitted env c st"
  shows "outbox_inv env (exec env c st)"
proof (cases c)
  case (MarkUploaded v pub e ow key n)
  show ?thesis unfolding MarkUploaded exec.simps mark_uploaded_def
    by (rule inv_named_transition[OF assms(1,2) complete_dedicated(1)])
next
  case (PublishIndex v pub e ow i)
  show ?thesis unfolding PublishIndex exec.simps publish_index_def
    by (rule inv_named_transition[OF assms(1,2) complete_dedicated(2)])
next
  case (Commit v pub e ow)
  show ?thesis unfolding Commit exec.simps commit_def
    by (rule inv_named_transition[OF assms(1,2) complete_dedicated(3)])
next
  case (Snapshot v pub e ow)
  show ?thesis unfolding Snapshot exec.simps by (rule inv_named_transition[OF assms(1,2) complete_dedicated(4)])
next
  case (Fail target v pub e ow reason)
  show ?thesis unfolding Fail exec.simps
    by (rule inv_named_transition[OF assms(1,2) complete_dedicated(5)]) (use assms(3) Fail in simp)
qed (use assms inv_queue_ops[OF assms(1,2)] inv_prepare_encrypted inv_prepare_file inv_reconcile inv_enqueue inv_inspect_all
      inv_inspect_event inv_discard in auto)

lemma inv_empty: "outbox_inv env empty_outbox"
  by (simp add: outbox_inv_def prep_inv_def queue_inv_def empty_outbox_def)

lemma reachable_inv:
  assumes "env_ok env" "reachable env st"
  shows "outbox_inv env st"
  using assms(2) by induction (simp_all add: inv_empty inv_exec assms(1))

end
