(* ===== verification/OutboxLifecycle.thy ===== *)
theory OutboxLifecycle
  imports OutboxCalls
begin

text \<open>
  The life of one queue record, as an abstract machine without files, publications, digests or
  ids: a record is free at some stage, held by an owner until a deadline, or at one of four
  ends. The refinement theorem says that a call of the outbox, whatever its publications do,
  moves every stored record along at most one step of this machine, made by the call's actor
  at the call's reading of the clock. Mutual exclusion of owners and the finality of a commit
  are properties of the machine and carry over to sequences of calls.
\<close>

section \<open>The machine\<close>

datatype stage = Fresh | Snapshotted | Prepared | Uploaded | Indexed

datatype life = Free stage | Held stage string rat | Denied | Isolated | Expanded | Done

inductive next_stage :: "stage \<Rightarrow> stage \<Rightarrow> bool" where
  "next_stage Fresh Snapshotted"
| "next_stage Snapshotted Prepared"
| "next_stage Prepared Uploaded"
| "next_stage Uploaded Indexed"

text \<open>The label is the actor, where the call names one, and its reading of the clock.\<close>

inductive life_step :: "string option \<Rightarrow> rat option \<Rightarrow> life \<Rightarrow> life \<Rightarrow> bool" where
  take_free: "life_step (Some a) t (Free s) (Held s a l)"
| renew: "now < l \<Longrightarrow> life_step (Some a) (Some now) (Held s a l) (Held s a l')"
| take_over: "l \<le> now \<Longrightarrow> life_step (Some a) (Some now) (Held s b l) (Held s a l')"
| advance: "now < l \<Longrightarrow> next_stage s s' \<Longrightarrow> life_step (Some a) (Some now) (Held s a l) (Held s' a l)"
| give_back: "now < l \<Longrightarrow> life_step (Some a) (Some now) (Held s a l) (Free s)"
| deny: "now < l \<Longrightarrow> life_step (Some a) (Some now) (Held s a l) Denied"
| isolate: "now < l \<Longrightarrow> life_step (Some a) (Some now) (Held s a l) Isolated"
| expand: "now < l \<Longrightarrow> life_step (Some a) (Some now) (Held s a l) Expanded"
| commit: "now < l \<Longrightarrow> life_step (Some a) (Some now) (Held Indexed a l) Done"
| operator: "life_step None t Denied Isolated"
| recover_free: "s \<in> {Fresh, Snapshotted} \<Longrightarrow> life_step None t (Free s) (Free Prepared)"
| recover_stale: "l \<le> now \<Longrightarrow> s \<in> {Fresh, Snapshotted} \<Longrightarrow> life_step None (Some now) (Held s b l) (Free Prepared)"
| drop_stale: "l \<le> now \<Longrightarrow> life_step None (Some now) (Held s b l) (Free s)"
| revive: "x \<in> {Denied, Isolated, Expanded} \<Longrightarrow> life_step None t x (Free Prepared)"

lemmas advance_steps = next_stage.intros[THEN life_step.advance[rotated]]

inductive_cases life_step_HeldE: "life_step a t (Held s b l) x"
inductive_cases life_step_DoneE: "life_step a t Done x"

fun stage_of :: "QueueState \<Rightarrow> stage" where
  "stage_of SOURCE_SNAPSHOTTED = Snapshotted"
| "stage_of PREPARED_ENCRYPTED = Prepared"
| "stage_of OBJECT_UPLOADED = Uploaded"
| "stage_of INDEX_PUBLISHED = Indexed"
| "stage_of _ = Fresh"

definition life_of :: "queue_record \<Rightarrow> life" where
  "life_of r =
     (case q_state r of
        COMMITTED \<Rightarrow> Done
      | POLICY_DENIED \<Rightarrow> Denied
      | QUARANTINED \<Rightarrow> Isolated
      | TRIGGER_EXPANDED \<Rightarrow> Expanded
      | _ \<Rightarrow> (case q_owner r of
               None \<Rightarrow> Free (stage_of (q_resume_state r))
             | Some a \<Rightarrow> Held (stage_of (q_resume_state r)) a (the (q_lease_until r))))"

text \<open>
  What may happen to a stored record: nothing, a trigger coalesced into it while it waits, or
  a step of the machine.
\<close>

definition lifecycle :: "string option \<Rightarrow> rat option \<Rightarrow> queue_record \<Rightarrow> queue_record \<Rightarrow> bool" where
  "lifecycle a t r r' \<longleftrightarrow> r' = r \<or>
     (q_state r \<in> {QUEUED, RETRYABLE_FAILURE, CAPTURE_GAP} \<and> (\<exists>tr. r' = coalesce_record tr r)) \<or>
     life_step a t (life_of r) (life_of r')"


section \<open>Stored records\<close>

definition stored :: "outbox_env \<Rightarrow> outbox \<Rightarrow> string \<Rightarrow> queue_record option" where
  "stored env st e = (case must_read env e st of Inl _ \<Rightarrow> None | Inr r \<Rightarrow> Some r)"

fun visible :: "publication \<Rightarrow> bool" where
  "visible FailedAfter = True"
| "visible Published = True"
| "visible _ = False"

lemma stored_Some: "stored env st e = Some r \<longleftrightarrow> must_read env e st = Inr r"
  by (auto simp: stored_def split: sum.splits)

lemma stored_queue_cong: "queue_files st' = queue_files st \<Longrightarrow> stored env st' e = stored env st e"
  by (simp add: stored_def must_read_def)

lemma must_read_publish:
  assumes "good env pm u"
  shows "must_read env e (snd (publish_record env pub u st)) =
    (if e = q_event_id u \<and> visible pub then Inr (canon u) else must_read env e st)"
proof -
  have "IDENTIFIER (q_event_id u)" "read_record env (record_body env u) = Inr (canon u)"
    using assms read_record_body[of env u] by (simp_all add: good_def record_ok_def fields_ok_def)
  then show ?thesis
    by (cases pub) (auto simp: publish_record_def must_read_def map_of_update)
qed

lemma stored_publish:
  "good env pm u \<Longrightarrow> stored env (snd (publish_record env pub u st)) e =
    (if e = q_event_id u \<and> visible pub then Some (canon u) else stored env st e)"
  by (simp add: stored_def must_read_publish)

lemma life_of_canon [simp]: "life_of (canon r) = life_of r"
  by (cases "q_owner r"; cases "q_state r") (simp_all add: life_of_def)

lemma lifecycle_refl [simp]: "lifecycle a t r r"
  by (simp add: lifecycle_def)

text \<open>Every stored record is still stored and moved along its lifecycle.\<close>

definition moves :: "outbox_env \<Rightarrow> string option \<Rightarrow> rat option \<Rightarrow> outbox \<Rightarrow> outbox \<Rightarrow> bool" where
  "moves env a t st st' \<longleftrightarrow> (\<forall>e r. stored env st e = Some r \<longrightarrow> (\<exists>r'. stored env st' e = Some r' \<and> lifecycle a t r r'))"

lemma moves_same:
  assumes "queue_files st' = queue_files st"
  shows "moves env a t st st'"
  unfolding moves_def stored_queue_cong[OF assms] by simp

lemma moves_refl [simp]: "moves env a t st st"
  by (rule moves_same) simp

lemma moves_publish:
  assumes "must_read env (q_event_id u) st = Inr r" "queue_files st1 = queue_files st" "good env pm u"
    and "lifecycle a t r (canon u)"
  shows "moves env a t st (snd (publish_record env pub u st1))"
  using assms(1,4) unfolding moves_def stored_publish[OF assms(3)] stored_queue_cong[OF assms(2)]
  by (simp add: stored_def)

lemma life_step_lifecycle: "life_step a t (life_of r) (life_of u) \<Longrightarrow> lifecycle a t r (canon u)"
  by (simp add: lifecycle_def)

lemma moves_step:
  assumes "must_read env (q_event_id u) st = Inr r" "good env pm u" "life_step a t (life_of r) (life_of u)"
  shows "moves env a t st (snd (publish_return env pub u st))"
  using moves_publish[OF assms(1) refl assms(2) life_step_lifecycle[OF assms(3)]] by simp

lemmas moves_reads = reads_st_rule[of "moves env a t st" for env a t st]

lemma snd_bind_return: "snd (bind_st m (\<lambda>x st'. (Inr (f x), st'))) = snd m"
  by (cases m; cases "fst m") (auto simp: bind_st_def)

lemma moves_bind: "moves env a t st (snd m) \<Longrightarrow> moves env a t st (snd (bind_st m (\<lambda>x st'. (Inr (f x), st'))))"
  by (simp add: snd_bind_return)

lemma moves_if:
  "(b \<Longrightarrow> moves env a t st (snd x)) \<Longrightarrow> (\<not> b \<Longrightarrow> moves env a t st (snd y)) \<Longrightarrow> moves env a t st (snd (if b then x else y))"
  by simp

lemma moves_pair: "moves env a t st st' \<Longrightarrow> moves env a t st (snd (x, st'))"
  by simp

lemmas moves_intros = moves_reads moves_bind moves_if moves_pair moves_refl


section \<open>The step of each published record\<close>

lemma same_event_id [simp]:
  "q_event_id (claimed_record env ow now r) = q_event_id r"
  "q_event_id (taken_record ow now r) = q_event_id r"
  "q_event_id (prepared_progress d n r) = q_event_id r"
  "q_event_id (quota_gap r) = q_event_id r"
  "q_event_id (coalesce_record tr r) = q_event_id r"
  "q_event_id (reattached_record fin m p r) = q_event_id r"
  by (simp_all add: claimed_record_def taken_record_def prepared_progress_def quota_gap_def coalesce_record_def
      reattached_record_def)

lemma life_claimable:
  assumes "good env pm r" "claimable r"
  shows "life_step (Some ow) t (life_of r) (life_of (claimed_record env' ow now r))"
proof -
  have "life_of r = Free (stage_of (q_resume_state r)) \<and>
    life_of (claimed_record env' ow now r) = Held (stage_of (q_resume_state r)) ow (float_add now (lease_secs env'))"
    using assms by (cases "q_state r") (simp_all add: life_of_def claimed_record_def claimable_def good_unfold)
  then show ?thesis by (simp add: life_step.intros)
qed

lemma life_owned:
  assumes "q_state r \<in> set owned_states" "q_owner r = Some ow" "q_lease_until r = Some l"
  shows "life_of r = Held (stage_of (q_resume_state r)) ow l"
  by (cases "q_state r") (use assms in \<open>simp_all add: life_of_def stage_set\<close>)

lemma life_unowned:
  assumes "q_state r \<in> set owned_states" "q_owner r = None"
  shows "life_of r = Free (stage_of (q_resume_state r))"
  by (cases "q_state r") (use assms in \<open>simp_all add: life_of_def stage_set\<close>)

lemma life_taken:
  assumes "lease_expired r now"
  shows "life_step (Some ow) (Some now) (life_of r) (life_of (taken_record ow now2 r))"
proof -
  obtain b l where "q_state r \<in> set owned_states" "q_owner r = Some b" "q_lease_until r = Some l" "l \<le> now"
    using assms by (auto simp: lease_expired_def)
  then show ?thesis
    using life_owned[of r b l] life_owned[of "taken_record ow now2 r" ow]
    by (simp add: taken_record_def life_step.intros)
qed

definition call_clock :: "json \<Rightarrow> rat option" where
  "call_clock v = (case now_of v of Inl _ \<Rightarrow> None | Inr now \<Rightarrow> Some now)"

lemma claim_life:
  assumes "require_claim_at r ow v = Inr x"
  obtains l now where "life_of r = Held (stage_of (q_resume_state r)) ow l" "call_clock v = Some now" "now < l"
    "q_owner r = Some ow" "q_lease_until r = Some l" "q_state r \<in> set owned_states"
proof -
  obtain l now where o: "q_state r \<in> set owned_states" "q_owner r = Some ow" "q_lease_until r = Some l"
    "now_of v = Inr now" "now < l"
    using owned_claim[of r ow v] assms by auto
  then show ?thesis using that life_owned[OF o(1-3)] by (simp add: call_clock_def)
qed

fun actor_of :: "json \<Rightarrow> string option" where
  "actor_of (JStr s) = Some s"
| "actor_of _ = None"

lemma actor_identifier: "as_identifier v = Inr a \<Longrightarrow> actor_of v = Some a \<and> IDENTIFIER a"
  by (simp add: as_identifier_Inr)

lemma moves_claim:
  assumes "queue_inv env pm st" "env_ok env" "clock_ok v"
  shows "moves env (actor_of ow) t st (snd (claim env v pub ow st))"
proof -
  have find: "good env pm r \<and> claimable r \<and> must_read env (q_event_id r) st = Inr r"
    if "find claimable (safe_records env st) = Some r" for r
    using that inv_safe_record[OF assms(1)] by (auto simp: find_Some_iff)
  show ?thesis
    unfolding claim_def Let_def inv_no_quarantine[OF assms(1)]
  proof (intro moves_intros, goal_cases)
    case (1 ow')
    note o = actor_identifier[OF 1]
    show ?case
    proof (cases "find claimable (safe_records env st)")
      case (Some r)
      note r = find[OF Some]
      show ?thesis
        unfolding Some option.case
      proof (intro moves_intros, goal_cases)
        case (1 now)
        then show ?case
          using r o good_claimed[OF _ _ assms(2,3)] life_claimable by (intro moves_step) auto
      qed
    qed simp
  qed
qed

text \<open>The operations on a named record: the record read, its step, and the record published.\<close>

lemma moves_read_step:
  assumes "queue_inv env pm st" "must_read env e st = Inr r" "q_event_id u = q_event_id r"
    "good env pm r \<Longrightarrow> good env pm u" "good env pm r \<Longrightarrow> life_step a t (life_of r) (life_of u)"
  shows "moves env a t st (snd (publish_return env pub u st))"
  using inv_must_read[OF assms(1,2)] assms by (intro moves_step[where r = r and pm = pm]) auto

lemma moves_claim_specific:
  assumes "queue_inv env pm st" "env_ok env" "clock_ok v"
  shows "moves env (actor_of ow) (call_clock v) st (snd (claim_specific env v pub je ow flag st))"
  unfolding claim_specific_def
proof (intro moves_intros, goal_cases)
  case (1 e ow' x r now)
  then show ?case
    using good_claimed[OF _ _ assms(2,3)] life_claimable actor_identifier[OF 1(2)]
    by (intro moves_read_step[OF assms(1) 1(4)]) auto
next
  case (2 e ow' x r now)
  then have "lease_expired r now" "call_clock v = Some now" by (simp_all add: call_clock_def)
  then show ?case
    using 2 good_taken[OF _ _ assms(2,3)] life_taken actor_identifier[OF 2(2)]
    by (intro moves_read_step[OF assms(1) 2(4)]) auto
qed

lemma moves_renew:
  assumes "queue_inv env pm st" "env_ok env" "clock_ok v2"
  shows "moves env (actor_of ow) (call_clock v) st (snd (renew env v v2 pub e ow st))"
  unfolding renew_def
proof (intro moves_intros, goal_cases)
  case (1 ow' r x now)
  let ?u = "r\<lparr>q_lease_until := Some (float_add now (q_lease_seconds r))\<rparr>"
  obtain l t where c: "life_of r = Held (stage_of (q_resume_state r)) ow' l" "call_clock v = Some t" "t < l"
    "q_owner r = Some ow'" "q_state r \<in> set owned_states"
    using claim_life[OF 1(3)] by metis
  have "life_of ?u = Held (stage_of (q_resume_state r)) ow' (float_add now (q_lease_seconds r))"
    using life_owned[of ?u ow'] c(4,5) by simp
  then show ?case
    using 1 c actor_identifier[OF 1(1)] good_lease[OF _ _ assms(2,3) 1(4)]
    by (intro moves_read_step[OF assms(1) 1(2)]) (auto intro: life_step.intros)
qed

lemma moves_takeover:
  assumes "queue_inv env pm st" "env_ok env" "clock_ok v2"
  shows "moves env (actor_of ow) (call_clock v) st (snd (takeover env v v2 pub e ow st))"
  unfolding takeover_def
proof (intro moves_intros, goal_cases)
  case (1 ow' r now now2)
  then have "lease_expired r now" "call_clock v = Some now" by (simp_all add: call_clock_def)
  then show ?case
    using 1 good_taken[OF _ _ assms(2,3)] life_taken actor_identifier[OF 1(1)]
    by (intro moves_read_step[OF assms(1) 1(2)]) auto
qed

text \<open>A transition of the owner: a failure gives the record up, progress is one stage, and a commit ends it.\<close>

lemma life_transitioned:
  assumes "require_claim_at r ow v = Inr x" "next_state_valid r target" "transitioned_record target ds r = Inr u"
  shows "life_step (Some ow) (call_clock v) (life_of r) (life_of u) \<and> q_event_id u = q_event_id r"
proof -
  obtain l t where c: "life_of r = Held (stage_of (q_resume_state r)) ow l" "call_clock v = Some t" "t < l"
    "q_owner r = Some ow" "q_lease_until r = Some l"
    using claim_life[OF assms(1)] by metis
  show ?thesis
    using assms(2,3) c
    by (cases target)
      (auto simp: next_state_valid_def transitioned_record_def progressed_record_def check_simps life_of_def
        intro: life_step.intros advance_steps)
qed

lemma moves_transition:
  assumes "queue_inv env pm st" "complete_details target ds"
  shows "moves env (actor_of ow) (call_clock v) st
    (snd (transition env v pub e ow (JStr (state_value target)) ds st))"
  unfolding transition_def queue_state_of_value option.case
proof (intro moves_intros, goal_cases)
  case (1 ow' r req x u)
  have o: "q_state r \<in> set owned_states" "q_owner r \<noteq> None" using claim_life[OF 1(6)] by auto
  have n: "next_state_valid r target" using 1 by simp
  show ?case
    using life_transitioned[OF 1(6) n 1(9)] good_transitioned[OF _ o n assms(2) 1(9)] actor_identifier[OF 1(1)]
    by (intro moves_read_step[OF assms(1) 1(2)]) simp_all
qed

lemma moves_release:
  assumes "queue_inv env pm st"
  shows "moves env (actor_of ow) (call_clock v) st (snd (release env v pub je ow st))"
  unfolding release_def
proof (intro moves_intros, goal_cases)
  case (1 e ow' r x y)
  let ?u = "r\<lparr>q_state := PREPARED_ENCRYPTED, q_owner := None, q_lease_until := None\<rparr>"
  have s: "q_state r \<in> {CLAIMED, PREPARED_ENCRYPTED}" "q_resume_state r = PREPARED_ENCRYPTED" using 1 by auto
  obtain l t where c: "life_of r = Held (stage_of (q_resume_state r)) ow' l" "call_clock v = Some t" "t < l"
    using claim_life[OF 1(5)] by metis
  have "life_of ?u = Free (stage_of (q_resume_state r))" by (simp add: life_of_def)
  then show ?case
    using c actor_identifier[OF 1(2)] good_released[OF _ s]
    by (intro moves_read_step[OF assms(1) 1(3)]) (simp_all add: life_step.intros)
qed

lemma moves_expand:
  assumes "queue_inv env pm st"
  shows "moves env (actor_of ow) (call_clock v) st (snd (expand env v pub je ow cs cp st))"
  unfolding expand_def
proof (intro moves_intros, goal_cases)
  case (1 e ow' x ch y ec r z)
  let ?u = "r\<lparr>q_state := TRIGGER_EXPANDED, q_resume_state := TRIGGER_EXPANDED, q_owner := None, q_lease_until := None,
     q_failure_code := None, q_expanded_event_ids := ch, q_expanded_checkpoint := Some ec\<rparr>"
  obtain l t where c: "life_of r = Held (stage_of (q_resume_state r)) ow' l" "call_clock v = Some t" "t < l"
    using claim_life[OF 1(9)] by metis
  have "life_of ?u = Expanded" by (simp add: life_of_def)
  moreover have "length ch \<le> MAX_EVENT_IDS" using 1(5) by (simp add: check_simps)
  ultimately show ?case
    using c actor_identifier[OF 1(2)] good_expanded[OF _ map_r_identifiers[OF 1(4)]] validate_expanded_sound[OF 1(6)]
    by (intro moves_read_step[OF assms(1) 1(7)]) (simp_all add: life_step.intros)
qed

lemma moves_operator:
  assumes "queue_inv env pm st"
  shows "moves env None t st (snd (quarantine_operator env pub je reason st))"
  unfolding quarantine_operator_def
proof (intro moves_intros, goal_cases)
  case (1 e code' r)
  then have s: "q_state r = POLICY_DENIED" by simp
  then have "life_of r = Denied" "life_of (r\<lparr>q_state := QUARANTINED, q_failure_code := Some code'\<rparr>) = Isolated"
    by (simp_all add: life_of_def)
  then show ?case
    using good_operator[OF _ s] 1(2)
    by (intro moves_read_step[OF assms(1) 1(3)]) (simp_all add: life_step.intros as_identifier_Inr)
qed

subsection \<open>Preparing, recovery and enqueue\<close>

lemma good_unprepared:
  "good env pm r \<Longrightarrow> q_resume_state r \<notin> {PREPARED_ENCRYPTED, OBJECT_UPLOADED, INDEX_PUBLISHED} \<Longrightarrow> good env pm' r"
  by (simp add: good_def backed_def)

text \<open>The queue record published after its ciphertext: the step from snapshotted to prepared.\<close>

lemma moves_prepared:
  assumes q: "queue_inv env pm st" and same: "queue_files st1 = queue_files st"
    and r: "must_read env e st = Inr r" "require_claim_at r ow v = Inr x" "prepare_guard r = Inr None"
    and d: "DIGEST d" "0 \<le> n" "n \<le> MAX_CIPHERTEXT_BYTES"
  shows "moves env (Some ow) (call_clock v) st (snd (publish_return env pub (prepared_progress d n r) st1))"
proof -
  let ?u = "prepared_progress d n r" and ?pm = "\<lambda>_. Some (d, n)"
  obtain l t where c: "life_of r = Held (stage_of (q_resume_state r)) ow l" "call_clock v = Some t" "t < l"
    "q_owner r = Some ow" "q_lease_until r = Some l"
    using claim_life[OF r(2)] by metis
  have resume: "q_resume_state r = SOURCE_SNAPSHOTTED" by (rule prepare_guard_None[OF r(3)])
  note read = inv_must_read[OF q r(1)]
  have "good env ?pm r" using good_unprepared[of env pm r] read resume by simp
  then have "good env ?pm ?u" using good_prepared_progress[of env ?pm r d n] c(4) d by simp
  moreover have "life_of ?u = Held Prepared ow l" using c(4,5) by (simp add: life_of_def prepared_progress_def)
  then have "life_step (Some ow) (call_clock v) (life_of r) (life_of ?u)"
    using c(1-3) resume by (simp add: advance_steps)
  ultimately show ?thesis
    using moves_publish[OF _ same] life_step_lifecycle r(1) read by simp
qed

lemma moves_gap:
  assumes q: "queue_inv env pm st"
    and r: "must_read env e st = Inr r" "require_claim_at r ow v = Inr x" "prepare_guard r = Inr None"
  shows "moves env (Some ow) (call_clock v) st (snd (publish_return env pub (quota_gap r) st))"
proof -
  obtain l t where c: "life_of r = Held (stage_of (q_resume_state r)) ow l" "call_clock v = Some t" "t < l"
    using claim_life[OF r(2)] by metis
  have "life_of (quota_gap r) = Free (stage_of (q_resume_state r))"
    using prepare_guard_None[OF r(3)] by (simp add: life_of_def quota_gap_def)
  then show ?thesis
    using c by (intro moves_read_step[OF q r(1)]) (simp_all add: good_quota_gap life_step.intros)
qed

lemma moves_two_publications:
  assumes "queue_files (snd m) = queue_files st"
    and "\<And>st1. queue_files st1 = queue_files st \<Longrightarrow> moves env a t st (snd (publish_return env pub u st1))"
  shows "moves env a t st (snd (bind_st m (\<lambda>_ st'. publish_return env pub u st')))"
proof (rule bind_st_rule[of "moves env a t st"])
  show "moves env a t st (snd m)" by (rule moves_same[OF assms(1)])
  show "moves env a t st (snd (publish_return env pub u st'))" if "m = (Inr x, st')" for x st'
    using assms that by simp
qed

lemma moves_prepare_encrypted:
  assumes q: "queue_inv env pm st" and env: "env_ok env"
  shows "moves env (actor_of ow) (call_clock v) st (snd (prepare_encrypted env v pub pub2 je ow ciphertext m st))"
  unfolding prepare_encrypted_def Let_def inv_no_quarantine[OF q]
proof (intro moves_intros, goal_cases)
  case (1 _ e m' r ow' x g)
  note ow = actor_identifier[OF 1(5)]
  show ?case
  proof (cases g)
    case None
    then have guard: "prepare_guard r = Inr None" using 1(7) by simp
    have sha: "DIGEST (sha256_hex env ciphertext)" using env by (simp add: env_ok_def)
    have small: "int (length ciphertext) \<le> MAX_CIPHERTEXT_BYTES" using 1(1) by (simp add: check_simps)
    show ?thesis
      unfolding None option.case PreparedRecord.simps conjunct1[OF ow]
      by (intro moves_intros moves_gap[OF q 1(4,6) guard] moves_two_publications
          moves_prepared[OF q _ 1(4,6) guard sha _ small]) simp_all
  qed simp
qed

lemma moves_prepare_file:
  assumes q: "queue_inv env pm st" and env: "env_ok env"
  shows "moves env (actor_of ow) (call_clock v) st (snd (prepare_encrypted_file env v pub pub2 je ow src m st))"
  unfolding prepare_encrypted_file_def Let_def inv_no_quarantine[OF q]
proof (intro moves_intros, goal_cases)
  case (1 e m' _ s)
  obtain d n b where s: "s = (d, n, b)" by (cases s)
  note src = read_source_Inr[OF 1(4)[unfolded s]]
  have sha: "DIGEST d" using env src(2) by (simp add: env_ok_def)
  have small: "0 \<le> n" "n \<le> MAX_CIPHERTEXT_BYTES" using src(3,4) by simp_all
  show ?case
    unfolding s prod.case
  proof (intro moves_intros, goal_cases)
    case (1 p r ow' x g)
    note ow = actor_identifier[OF 1(3)]
    show ?case
    proof (cases g)
      case None
      then have guard: "prepare_guard r = Inr None" using 1(5) by simp
      show ?thesis
        unfolding None option.case conjunct1[OF ow]
        by (intro moves_intros moves_gap[OF q 1(2,4) guard] moves_two_publications
            moves_prepared[OF q _ 1(2,4) guard sha small]) simp_all
    qed simp
  qed
qed

lemma life_reattached:
  assumes "good env pm r" "q_resume_state r \<notin> {PREPARED_ENCRYPTED, OBJECT_UPLOADED, INDEX_PUBLISHED}" "q_state r \<noteq> COMMITTED"
    and stale: "\<And>l. q_lease_until r = Some l \<Longrightarrow> q_owner r \<noteq> None \<Longrightarrow> \<exists>now. t = Some now \<and> l \<le> now"
  shows "life_step None t (life_of r) (Free Prepared)"
proof -
  have early: "stage_of (q_resume_state r) \<in> {Fresh, Snapshotted}" using assms(2) by (cases "q_resume_state r") simp_all
  show ?thesis
  proof (cases "q_owner r")
    case None
    have "life_of r \<in> {Denied, Isolated, Expanded} \<or> life_of r = Free (stage_of (q_resume_state r))"
      using assms(3) None by (cases "q_state r") (simp_all add: life_of_def)
    then show ?thesis using early by (elim disjE) (simp_all add: life_step.intros)
  next
    case (Some b)
    then obtain l where l: "q_lease_until r = Some l" using good_owner_lease[OF assms(1)] by auto
    then obtain now where "t = Some now" "l \<le> now" using stale Some by auto
    moreover have "q_state r \<in> set owned_states"
      using assms(1,3) Some by (cases "q_state r") (simp_all add: good_unfold stage_set)
    then have "life_of r = Held (stage_of (q_resume_state r)) b l" by (rule life_owned[OF _ Some l])
    ultimately show ?thesis using early by (simp add: life_step.recover_stale)
  qed
qed

lemma moves_reattach:
  assumes inv: "outbox_inv env st" and read: "must_read env e st = Inr r" and safe: "reattach_safe r"
    and p: "metadata_ok env m" "DIGEST (prepared_sha256 p)" "0 \<le> prepared_size p" "prepared_size p \<le> MAX_CIPHERTEXT_BYTES"
      "prep_map env st e = Some (prepared_sha256 p, prepared_size p)"
  shows "moves env None (call_clock v) st (snd (reattach env v pub fin m p r st))"
proof -
  let ?x = "r\<lparr>q_owner := None, q_lease_until := None\<rparr>"
  note q = outbox_inv_queue[OF inv]
  have g: "good env (prep_map env st) r" and e: "q_event_id r = e" using inv_must_read[OF q read] by simp_all
  have x: "(if q_owner r \<noteq> None then ?x else r) = ?x"
    using good_owner_lease[OF g] by (cases r) auto
  show ?thesis
    unfolding reattach_def Let_def x
  proof (intro moves_intros, goal_cases)
    case (1 _)
    then obtain b l where o: "q_owner r = Some b" "q_lease_until r = Some l" using good_owner_lease[OF g] by auto
    then obtain now where "call_clock v = Some now" "l \<le> now"
      using 1(1) by (auto simp: check_simps call_clock_def)
    moreover have "q_state r \<in> set owned_states" "q_state r \<noteq> CLAIMED"
      using g o(1) 1(2) safe by (cases "q_state r"; simp add: good_unfold stage_set reattach_safe_def)+
    moreover from this have "life_of ?x = Free (stage_of (q_resume_state r))" using life_unowned[of ?x] by simp
    ultimately show ?case
      using life_owned[OF _ o] good_unowned[OF g]
      by (intro moves_read_step[OF q read]) (simp_all add: life_step.intros)
  next
    case (2 _)
    have "life_of (reattached_record fin m p ?x) = Free Prepared" by (simp add: life_of_def reattached_record_def)
    moreover have "life_step None (call_clock v) (life_of r) (Free Prepared)"
      using 2 by (intro life_reattached[OF g]) (auto simp: check_simps call_clock_def split: if_splits)
    ultimately show ?case
      using good_reattached[OF g p(1-4)] p(5) e by (intro moves_read_step[OF q read]) simp_all
  qed
qed

lemma moves_publish_new:
  assumes "stored env st (q_event_id u) = None" "good env pm u"
  shows "moves env a t st (snd (publish_record env pub u st))"
  using assms(1) by (auto simp: moves_def stored_publish[OF assms(2)])

lemma stored_safe:
  assumes "queue_inv env pm st" "stored env st e = Some r"
  shows "r \<in> set (safe_records env st) \<and> q_event_id r = e"
proof -
  have read: "must_read env e st = Inr r" using assms(2) by (simp add: stored_Some)
  obtain body where b: "map_of (queue_files st) e = Some body" "read_record env body = Inr r"
    using read by (auto simp: must_read_def check_simps split: option.splits sum.splits)
  then have "(e, body) \<in> set (queue_files st)" by (simp add: map_of_SomeD)
  moreover have "readable env (e, body)" "record_of_file env (e, body) = r" using b(2) by (simp_all add: readable_def record_of_file_def)
  ultimately show ?thesis using inv_must_read[OF assms(1) read] by (force simp: safe_records_set)
qed

lemma moves_recover_new:
  assumes inv: "outbox_inv env st" and env: "env_ok env" and new: "stored env st e = None"
    and a: "IDENTIFIER e" "IDENTIFIER session" "checkpoint_ok c" "metadata_ok env m"
    and p: "DIGEST (prepared_sha256 p)" "0 \<le> prepared_size p" "prepared_size p \<le> MAX_CIPHERTEXT_BYTES"
      "prep_map env st e = Some (prepared_sha256 p, prepared_size p)"
  shows "moves env None t st (snd (recover_new env pub e session c fin m p (safe_records env st) st))"
proof -
  have "1 \<le> next_sequence (safe_records env st)"
    using inv_safe_record[OF outbox_inv_queue[OF inv]] good_sequence by (intro next_sequence_pos) blast
  then have g: "good env (prep_map env st) (recovered_record e session c m fin (next_sequence (safe_records env st)) p)"
    using good_recovered[OF a _ env p(1-3)] p(4) by simp
  have "moves env None t st
      (snd (publish_return env pub (recovered_record e session c m fin (next_sequence (safe_records env st)) p) st))"
    using moves_publish_new[OF _ g] new by (simp add: recovered_record_def)
  then show ?thesis
    unfolding recover_new_def Let_def by (intro moves_intros)
qed

lemma moves_reconcile:
  assumes inv: "outbox_inv env st" and env: "env_ok env" and m: "wf_json m" and safe: "reconcile_safe env e st"
  shows "moves env None (call_clock v) st (snd (reconcile_prepared env v pub e session cp m fin st))"
proof -
  note q = outbox_inv_queue[OF inv]
  have prep: "prep_inv env st" using inv by (simp add: outbox_inv_def)
  show ?thesis
    unfolding reconcile_prepared_def Let_def inv_no_quarantine[OF q]
  proof (intro moves_intros, goal_cases)
    case (1 e' s' c' req _)
    then have e': "e = JStr e'" "IDENTIFIER e'" and s': "IDENTIFIER s'" and c': "checkpoint_ok c'"
      by (auto simp: as_identifier_Inr dest: validate_checkpoint_sound)
    have req: "metadata_ok env req" by (rule validate_metadata_sound[OF 1(4) or_empty_wf[OF m]])
    show ?case
    proof (cases "map_of (prepared_files st) e'")
      case (Some t)
      from prep_inv_read[OF prep Some] obtain p where
        p: "read_prepared (Some e') env (age_files st) t = Inr p" "prepared_event_id p = e'"
          "metadata_ok env (prepared_metadata p)" "prepared_size p \<le> MAX_CIPHERTEXT_BYTES" "DIGEST (prepared_sha256 p)"
          "0 \<le> prepared_size p" "prep_map env st e' = Some (prepared_sha256 p, prepared_size p)" by metis
      have md: "metadata_ok env m'" if "validate_metadata env (JObj (dict_union (prepared_metadata p) req)) = Inr m'" for m'
        using validate_metadata_sound[OF that wf_json_union[OF p(3) req]] .
      have found: "must_read env e' st = Inr r \<and> reattach_safe r"
        if "find (\<lambda>r. q_event_id r = e') (safe_records env st) = Some r" for r
        using that inv_safe_record[OF q] safe e'(1) by (auto simp: find_Some_iff reconcile_safe_def)
      have none: "stored env st e' = None" if "find (\<lambda>r. q_event_id r = e') (safe_records env st) = None"
        using that stored_safe[OF q] by (cases "stored env st e'") (auto simp: find_None_iff)
      show ?thesis
        unfolding Some option.case p(1) sum.case p(2)
        using moves_reattach[OF inv] found md p moves_recover_new[OF inv env none e'(2) s' c']
        by (auto intro!: moves_reads split: option.split)
    qed simp
  qed
qed

text \<open>An enqueue touches a record other than its own event's only by coalescing into it.\<close>

lemma canon_coalesce: "canon r = r \<Longrightarrow> canon (coalesce_record tr r) = coalesce_record tr r"
  by (cases r) (simp add: canon_def coalesce_record_def)

lemma moves_enqueue:
  assumes inv: "outbox_inv env st" and env: "env_ok env" and m: "wf_json m" and r: "stored env st i = Some r" and other: "e \<noteq> JStr i"
  shows "\<exists>r'. stored env (snd (enqueue env lock pub e s c f m d co st)) i = Some r' \<and> lifecycle a t r r'"
proof (cases "trigger_make env e s c f m d co")
  case (Inr tr)
  note q = outbox_inv_queue[OF inv]
  note ok = trigger_make_ok[OF Inr m]
  have id: "t_event_id tr \<noteq> i" using Inr other by (auto simp: trigger_make_def check_simps)
  have co: "moves env a t st (snd (enqueue_coalesced env pub tr x st))" if "find_existing tr (safe_records env st) = Some x" for x
  proof -
    have x: "x \<in> set (safe_records env st)" "q_state x \<in> {QUEUED, RETRYABLE_FAILURE, CAPTURE_GAP}"
      using that by (auto simp: find_existing_def find_Some_iff split: if_splits)
    note g = inv_safe_record[OF q x(1)]
    show ?thesis
    proof (cases "t_event_id tr \<notin> set (q_event_ids x) \<and> length (q_event_ids x) \<ge> MAX_EVENT_IDS \<and> \<not> t_is_final tr")
      case False
      then have "\<not> snd (coalesced_ids tr x) \<or> t_is_final tr" by (auto simp: coalesced_ids_def)
      then have "good env (prep_map env st) (coalesce_record tr x)" using g ok by (intro good_coalesced) simp_all
      moreover have "lifecycle a t x (canon (coalesce_record tr x))"
        unfolding lifecycle_def using x(2) g canon_coalesce by blast
      ultimately have "moves env a t st (snd (publish_record env pub (coalesce_record tr x) st))"
        using g by (intro moves_publish) auto
      then show ?thesis using False by (simp add: snd_enqueue_coalesced)
    qed (simp add: snd_enqueue_coalesced)
  qed
  have "1 \<le> next_sequence (safe_records env st)" using inv_safe_record[OF q] good_sequence by (intro next_sequence_pos) blast
  note new = stored_publish[OF good_new[OF ok this env]]
  have nw: "stored env (snd (enqueue_new env pub tr (safe_records env st) st)) i = Some r"
    using snd_enqueue_new[of env pub tr "safe_records env st" st] new[of pub st i] r id by (auto simp: new_record_def)
  have "\<exists>r'. stored env (snd (enqueue_locked env pub tr st)) i = Some r' \<and> lifecycle a t r r'"
    unfolding enqueue_locked_def Let_def inv_no_quarantine[OF q]
    using co r nw unfolding moves_def by (auto split: option.split)
  then show ?thesis unfolding snd_enqueue[OF Inr] using r by (auto split: sum.split)
qed (use r in \<open>simp add: enqueue_def reads_st_def\<close>)

section \<open>Every call\<close>

fun call_actor :: "call \<Rightarrow> string option" where
  "call_actor (Claim v pub ow) = actor_of ow"
| "call_actor (ClaimSpecific v pub e ow flag) = actor_of ow"
| "call_actor (Renew v v2 pub e ow) = actor_of ow"
| "call_actor (Takeover v v2 pub e ow) = actor_of ow"
| "call_actor (Snapshot v pub e ow) = actor_of ow"
| "call_actor (Fail target v pub e ow reason) = actor_of ow"
| "call_actor (MarkUploaded v pub e ow key n) = actor_of ow"
| "call_actor (PublishIndex v pub e ow i) = actor_of ow"
| "call_actor (Commit v pub e ow) = actor_of ow"
| "call_actor (PrepareEncrypted v pub pub2 e ow b m) = actor_of ow"
| "call_actor (PrepareEncryptedFile v pub pub2 e ow src m) = actor_of ow"
| "call_actor (Release v pub e ow) = actor_of ow"
| "call_actor (Expand v pub e ow cs cp) = actor_of ow"
| "call_actor _ = None"

text \<open>The reading of the clock that a call compares with a deadline.\<close>

fun call_time :: "call \<Rightarrow> rat option" where
  "call_time (Claim v pub ow) = call_clock v"
| "call_time (ClaimSpecific v pub e ow flag) = call_clock v"
| "call_time (Renew v v2 pub e ow) = call_clock v"
| "call_time (Takeover v v2 pub e ow) = call_clock v"
| "call_time (Snapshot v pub e ow) = call_clock v"
| "call_time (Fail target v pub e ow reason) = call_clock v"
| "call_time (MarkUploaded v pub e ow key n) = call_clock v"
| "call_time (PublishIndex v pub e ow i) = call_clock v"
| "call_time (Commit v pub e ow) = call_clock v"
| "call_time (PrepareEncrypted v pub pub2 e ow b m) = call_clock v"
| "call_time (PrepareEncryptedFile v pub pub2 e ow src m) = call_clock v"
| "call_time (Release v pub e ow) = call_clock v"
| "call_time (ReconcilePrepared v pub e s cp m fin) = call_clock v"
| "call_time (Expand v pub e ow cs cp) = call_clock v"
| "call_time _ = None"

fun enqueues :: "call \<Rightarrow> string \<Rightarrow> bool" where
  "enqueues (Enqueue lock pub e s cp fin m d co) i \<longleftrightarrow> e = JStr i"
| "enqueues _ i \<longleftrightarrow> False"

lemma queue_inspect:
  assumes "outbox_inv env st"
  shows "queue_files (snd (inspect_all env st)) = queue_files st" "queue_files (snd (inspect_event env e st)) = queue_files st"
    "queue_files (snd (discard_receipt env pub e st)) = queue_files st"
proof -
  have sweep: "queue_files (snd (snd (sweep_prepared env fs st'))) = queue_files st'" for fs st'
    by (induction env fs st' rule: sweep_prepared.induct) (auto split: option.split prod.splits)
  show all: "queue_files (snd (inspect_all env st)) = queue_files st"
    using sweep[of "prepared_files st" st] inv_no_quarantine[OF outbox_inv_queue[OF assms]]
    by (auto simp: inspect_all_def Let_def sweep_orphans_def split: prod.splits)
  show "queue_files (snd (inspect_event env e st)) = queue_files st"
    using inv_inspect_record[OF assms, of e] all
    by (cases "inspect_record env e st"; cases "fst (inspect_record env e st)")
      (auto simp: inspect_event_def bind_st_def split: option.split prod.splits)
  show "queue_files (snd (discard_receipt env pub e st)) = queue_files st"
    by (cases pub) (auto simp: discard_receipt_def reads_st_def split: sum.split option.split)
qed

lemma moves_exec:
  assumes inv: "outbox_inv env st" and env: "env_ok env" and c: "call_ok c" "permitted env c st"
    and other: "\<And>lock pub e s cp fin m d co. c \<noteq> Enqueue lock pub e s cp fin m d co"
  shows "moves env (call_actor c) (call_time c) st (exec env c st)"
proof -
  note q = outbox_inv_queue[OF inv]
  show ?thesis
  proof (cases c)
    case (Fail target v pub e ow reason)
    then have "complete_details target [(''reason_code'', reason)]" using c(1) complete_dedicated(5) by simp
    then show ?thesis unfolding Fail exec.simps call_actor.simps call_time.simps by (rule moves_transition[OF q])
  qed (use c other in \<open>simp_all add: moves_claim[OF q env] moves_claim_specific[OF q env] moves_renew[OF q env]
      moves_takeover[OF q env] moves_transition[OF q] complete_dedicated mark_uploaded_def publish_index_def commit_def
      moves_prepare_encrypted[OF q env] moves_prepare_file[OF q env] moves_release[OF q] moves_expand[OF q]
      moves_operator[OF q] moves_reconcile[OF inv env] moves_same[OF queue_inspect(1)[OF inv]]
      moves_same[OF queue_inspect(2)[OF inv]] moves_same[OF queue_inspect(3)[OF inv]]
      del: state_value.simps\<close>)
qed

lemma exec_lifecycle:
  assumes "outbox_inv env st" "env_ok env" "call_ok c" "permitted env c st"
    and "stored env st e = Some r" "\<not> enqueues c e"
  shows "\<exists>r'. stored env (exec env c st) e = Some r' \<and> lifecycle (call_actor c) (call_time c) r r'"
proof (cases "\<exists>lock pub e s cp fin m d co. c = Enqueue lock pub e s cp fin m d co")
  case True
  then show ?thesis using moves_enqueue[OF assms(1,2) _ assms(5)] assms(3,6) by auto
next
  case False
  then show ?thesis using moves_exec[OF assms(1-4)] assms(5) unfolding moves_def by blast
qed

section \<open>Sequences of calls\<close>

text \<open>
  A store of records with leases, seen from outside: which actor holds a record until when,
  which records are final, and that every call refines a machine in which a held record only
  moves by its holder or after its deadline. Two consequences for whole runs follow.
\<close>

locale leased_records =
  fixes step :: "'a option \<Rightarrow> ('t :: linorder) option \<Rightarrow> 's \<Rightarrow> 's \<Rightarrow> bool"
    and holder :: "'s \<Rightarrow> ('a \<times> 't) option" and final :: "'s \<Rightarrow> bool"
    and call :: "'c \<Rightarrow> 'st \<Rightarrow> 'st" and entry :: "'st \<Rightarrow> 'k \<Rightarrow> 'r option" and phase :: "'r \<Rightarrow> 's"
    and actor :: "'c \<Rightarrow> 'a option" and time :: "'c \<Rightarrow> 't option" and resets :: "'c \<Rightarrow> 'k \<Rightarrow> bool"
    and inv :: "'st \<Rightarrow> bool" and allowed :: "'c \<Rightarrow> 'st \<Rightarrow> bool"
  assumes exclusive: "step a t s s' \<Longrightarrow> holder s = Some (b, l) \<Longrightarrow> a = Some b \<or> (\<exists>now. t = Some now \<and> l \<le> now)"
    and final_stuck: "final s \<Longrightarrow> \<not> step a t s s'"
    and inv_call: "inv st \<Longrightarrow> allowed c st \<Longrightarrow> inv (call c st)"
    and refines: "inv st \<Longrightarrow> allowed c st \<Longrightarrow> entry st k = Some r \<Longrightarrow> \<not> resets c k \<Longrightarrow>
      \<exists>r'. entry (call c st) k = Some r' \<and>
        (r' = r \<or> holder (phase r) = None \<and> \<not> final (phase r) \<or> step (actor c) (time c) (phase r) (phase r'))"
begin

primrec allowed_run :: "'c list \<Rightarrow> 'st \<Rightarrow> bool" where
  "allowed_run [] st \<longleftrightarrow> True"
| "allowed_run (c # cs) st \<longleftrightarrow> allowed c st \<and> allowed_run cs (call c st)"

lemma kept_run:
  assumes "inv st" "entry st k = Some r" "allowed_run cs st" "\<And>c. c \<in> set cs \<Longrightarrow> \<not> resets c k"
    and still: "holder (phase r) \<noteq> None \<or> final (phase r)"
      "\<And>c s'. c \<in> set cs \<Longrightarrow> \<not> step (actor c) (time c) (phase r) s'"
  shows "entry (fold call cs st) k = Some r"
  using assms
proof (induction cs arbitrary: st)
  case (Cons c cs)
  obtain r' where "entry (call c st) k = Some r'"
    "r' = r \<or> holder (phase r) = None \<and> \<not> final (phase r) \<or> step (actor c) (time c) (phase r) (phase r')"
    using refines[of st c k r] Cons.prems by auto
  moreover have "\<not> step (actor c) (time c) (phase r) (phase r')" using Cons.prems(6)[of c] by simp
  ultimately have "entry (call c st) k = Some r" using Cons.prems(5) by auto
  then show ?case using Cons.IH[of "call c st"] Cons.prems inv_call by auto
qed simp

text \<open>Nobody but the holder moves a record before its deadline.\<close>

lemma lease_respected:
  assumes "inv st" "entry st k = Some r" "allowed_run cs st" "\<And>c. c \<in> set cs \<Longrightarrow> \<not> resets c k"
    and "holder (phase r) = Some (b, l)" "\<And>c. c \<in> set cs \<Longrightarrow> actor c \<noteq> Some b"
      "\<And>c now. c \<in> set cs \<Longrightarrow> time c = Some now \<Longrightarrow> now < l"
  shows "entry (fold call cs st) k = Some r"
proof (rule kept_run[OF assms(1-4)])
  show "\<not> step (actor c) (time c) (phase r) s'" if "c \<in> set cs" for c s'
    using exclusive[OF _ assms(5), of "actor c" "time c" s'] assms(6)[OF that] assms(7)[OF that] by force
qed (use assms in simp_all)

text \<open>A final record stays.\<close>

lemma final_kept:
  assumes "inv st" "entry st k = Some r" "allowed_run cs st" "\<And>c. c \<in> set cs \<Longrightarrow> \<not> resets c k" "final (phase r)"
  shows "entry (fold call cs st) k = Some r"
  by (rule kept_run[OF assms(1-4)]) (use assms(5) final_stuck in auto)

end

fun holder_of :: "life \<Rightarrow> (string \<times> rat) option" where
  "holder_of (Held s a l) = Some (a, l)"
| "holder_of _ = None"

text \<open>The calls of a run keep to what their callers guarantee, in the state each meets.\<close>

primrec run_ok :: "outbox_env \<Rightarrow> call list \<Rightarrow> outbox \<Rightarrow> bool" where
  "run_ok env [] st \<longleftrightarrow> True"
| "run_ok env (c # cs) st \<longleftrightarrow> (call_ok c \<and> permitted env c st) \<and> run_ok env cs (exec env c st)"

lemma holder_step:
  assumes "life_step a t s s'" "holder_of s = Some (b, l)"
  shows "a = Some b \<or> (\<exists>now. t = Some now \<and> l \<le> now)"
  using assms by (cases rule: life_step.cases) auto

lemma lifecycle_idle:
  assumes "good env pm r" "lifecycle a t r r'"
  shows "r' = r \<or> holder_of (life_of r) = None \<and> life_of r \<noteq> Done \<or> life_step a t (life_of r) (life_of r')"
proof -
  have "holder_of (life_of r) = None \<and> life_of r \<noteq> Done" if "q_state r \<in> {QUEUED, RETRYABLE_FAILURE, CAPTURE_GAP}"
    using that assms(1) by (cases "q_state r") (simp_all add: life_of_def good_unfold)
  then show ?thesis using assms(2) unfolding lifecycle_def by blast
qed

interpretation outbox: leased_records life_step holder_of "\<lambda>s. s = Done" "exec env" "stored env" life_of call_actor call_time
  enqueues "\<lambda>st. env_ok env \<and> outbox_inv env st" "\<lambda>c st. call_ok c \<and> permitted env c st" for env
proof
  show "a = Some b \<or> (\<exists>now. t = Some now \<and> l \<le> now)" if "life_step a t s s'" "holder_of s = Some (b, l)" for a t s s' b l
    using that by (rule holder_step)
  show "\<not> life_step a t s s'" if "s = Done" for s a t s'
    using that life_step_DoneE by blast
  show "env_ok env \<and> outbox_inv env (exec env c st)" if "env_ok env \<and> outbox_inv env st" "call_ok c \<and> permitted env c st" for c st
    using that inv_exec by blast
  show "\<exists>r'. stored env (exec env c st) k = Some r' \<and>
      (r' = r \<or> holder_of (life_of r) = None \<and> life_of r \<noteq> Done \<or> life_step (call_actor c) (call_time c) (life_of r) (life_of r'))"
    if h: "env_ok env \<and> outbox_inv env st" "call_ok c \<and> permitted env c st" "stored env st k = Some r" "\<not> enqueues c k" for st c k r
  proof -
    have "must_read env k st = Inr r" using h(3) by (simp add: stored_Some)
    then have "good env (prep_map env st) r" using inv_must_read outbox_inv_queue h(1) by blast
    moreover obtain r' where "stored env (exec env c st) k = Some r'" "lifecycle (call_actor c) (call_time c) r r'"
      using exec_lifecycle h by blast
    ultimately show ?thesis using lifecycle_idle by blast
  qed
qed

lemma run_ok_allowed: "run_ok env cs st \<longleftrightarrow> outbox.allowed_run env cs st"
  by (induction cs arbitrary: st) simp_all

end
