(* ===== verification/OutboxProperties.thy ===== *)
theory OutboxProperties
  imports OutboxLifecycle
begin

text \<open>
  The properties of the outbox: soundness of every reachable state, refinement of the record
  lifecycle, mutual exclusion of owners, finality of commits, file round trips, what a receipt
  promises, bounds, recovery after a crash, and that an undisturbed owner finishes.
\<close>

section \<open>A concrete environment\<close>

text \<open>
  An environment in which the assumptions hold: a non-negative rational is written as its
  numerator and denominator around a dot, and every digest is the same.
\<close>

definition demo_repr :: "rat \<Rightarrow> string" where
  "demo_repr q = (case quotient_of q of (n, d) \<Rightarrow> nat_str (nat n) @ CHR ''.'' # nat_str (nat d))"

definition demo_parse :: "string \<Rightarrow> rat" where
  "demo_parse s =
     (let n = takeWhile is_digit s; d = tl (dropWhile is_digit s) in
      of_nat (digits_val 0 n) / of_nat (digits_val 0 d))"

definition demo_env :: outbox_env where
  "demo_env = \<lparr>float_repr = demo_repr, float_parse = demo_parse, sha256_hex = (\<lambda>_. replicate 64 CHR ''a''),
     max_events = 8, max_bytes = 65536, lease_secs = 60\<rparr>"

lemma int_part_dot: "int_part (nat_str n @ CHR ''.'' # s) = nat_str n"
proof -
  have "takeWhile is_digit (nat_str n @ CHR ''.'' # s) = nat_str n"
    using nat_str_digits by (simp add: takeWhile_append2 is_digit_def)
  then have "int_part (nat_str n @ CHR ''.'' # s) = int_part (nat_str n)" by (simp add: int_part_def takeWhile_nat_str)
  then show ?thesis by (simp add: int_part_nat_str)
qed

lemma demo_float_reads:
  assumes "0 \<le> q"
  shows "float_reads demo_env q"
proof -
  obtain n d where nd: "quotient_of q = (n, d)" by (cases "quotient_of q")
  have pos: "0 < d" "0 \<le> n" using quotient_of_denom_pos[OF nd] quotient_of_div[OF nd] assms
    by (auto simp: zero_le_divide_iff)
  let ?s = "nat_str (nat n) @ CHR ''.'' # nat_str (nat d)"
  have w: "takeWhile is_digit ?s = nat_str (nat n)" "dropWhile is_digit ?s = CHR ''.'' # nat_str (nat d)"
    using nat_str_digits by (simp_all add: takeWhile_append2 dropWhile_append2 is_digit_def)
  have "demo_parse ?s = q"
    using quotient_of_div[OF nd] pos by (simp add: demo_parse_def w digits_val_nat_str)
  moreover have "hd ?s \<noteq> CHR ''-''" using nat_str_hd_not_minus by simp
  ultimately show ?thesis
    by (simp add: float_reads_def demo_env_def demo_repr_def nd parse_num_def Let_def int_part_dot frac_part_def
        takeWhile_nat_str exp_part_def)
qed

lemma demo_env_ok: "env_ok demo_env"
proof -
  have "DIGEST (replicate 64 CHR ''a'')" by code_simp
  then show ?thesis
    using demo_float_reads round_double_nonneg by (simp add: env_ok_def) (simp add: demo_env_def)
qed

section \<open>Soundness of the reachable states\<close>

lemma map_of_fold_update:
  assumes "distinct (map fst fs)" "\<And>f. f \<in> set fs \<Longrightarrow> k (g f) = fst f"
  shows "map_of (fold (\<lambda>p d. AList.update (k p) p d) (map g fs) d) e =
    (case map_of fs e of None \<Rightarrow> map_of d e | Some t \<Rightarrow> Some (g (e, t)))"
  using assms
proof (induction fs arbitrary: d)
  case (Cons f fs)
  have "map_of fs (fst f) = None" using Cons.prems(1) by (simp add: map_of_eq_None_iff)
  moreover have "k (g f) = fst f" using Cons.prems(2) by simp
  ultimately show ?case using Cons by (cases f) (auto simp: map_of_update split: option.split)
qed simp

lemma inv_prepared_records:
  assumes "prep_inv env st"
  obtains ps where "prepared_records env st = Inr ps"
    "\<And>e t. map_of (prepared_files st) e = Some t \<Longrightarrow>
      \<exists>p. map_of ps e = Some p \<and> read_prepared None env (age_files st) t = Inr p"
proof -
  let ?g = "\<lambda>f. projr (read_prepared None env (age_files st) (snd f))"
  have r: "read_prepared None env (age_files st) (snd f) = Inr (?g f) \<and> prepared_event_id (?g f) = fst f"
    if "f \<in> set (prepared_files st)" for f
  proof -
    have "prep_stored env (age_files st) f" using assms that by (simp add: prep_inv_def)
    then show ?thesis using prep_stored_read by fastforce
  qed
  have "map_r (\<lambda>f. read_prepared None env (age_files st) (snd f)) (prepared_files st) = Inr (map ?g (prepared_files st))"
    using r by (intro map_r_all) simp
  moreover have "distinct (map fst (prepared_files st))" using assms by (simp add: prep_inv_def)
  moreover from this have "map_of (fold (\<lambda>p d. AList.update (prepared_event_id p) p d) (map ?g (prepared_files st)) []) e =
      (case map_of (prepared_files st) e of None \<Rightarrow> None | Some t \<Rightarrow> Some (?g (e, t)))" for e
    using map_of_fold_update[of "prepared_files st" prepared_event_id ?g "[]"] r by (simp split: option.split)
  moreover have "read_prepared None env (age_files st) t = Inr (?g (e, t))" if "map_of (prepared_files st) e = Some t" for e t
    using r[OF map_of_SomeD[OF that]] by simp
  ultimately show ?thesis
    by (intro that[of "fold (\<lambda>p d. AList.update (prepared_event_id p) p d) (map ?g (prepared_files st)) []"])
      (simp_all add: prepared_records_def)
qed

text \<open>What a record past preparation refers to is there: the check that \<^verbatim>\<open>release\<close> makes passes.\<close>

lemma inv_require_prepared:
  assumes inv: "outbox_inv env st" and r: "r \<in> set (safe_records env st)"
    "q_resume_state r \<in> {PREPARED_ENCRYPTED, OBJECT_UPLOADED, INDEX_PUBLISHED}"
  shows "require_prepared env r st = Inr ()"
proof -
  have prep: "prep_inv env st" using inv by (simp add: outbox_inv_def)
  from inv_prepared_records[OF prep] obtain ps where ps: "prepared_records env st = Inr ps"
    "\<And>e t. map_of (prepared_files st) e = Some t \<Longrightarrow>
      \<exists>p. map_of ps e = Some p \<and> read_prepared None env (age_files st) t = Inr p" by metis
  have "good env (prep_map env st) r" using inv_safe_record[OF outbox_inv_queue[OF inv] r(1)] by simp
  then have "prep_map env st (q_event_id r) = Some (the (q_ciphertext_sha256 r), the (q_ciphertext_size r))"
    "q_ciphertext_sha256 r \<noteq> None" "q_ciphertext_size r \<noteq> None"
    using r(2) by (auto simp: good_def backed_def evidence_def)
  then obtain t p where t: "map_of (prepared_files st) (q_event_id r) = Some t" "read_prepared None env (age_files st) t = Inr p"
    "q_ciphertext_sha256 r = Some (prepared_sha256 p)" "q_ciphertext_size r = Some (prepared_size p)"
    by (auto simp: prep_map_def split: option.splits sum.splits)
  then have "map_of ps (q_event_id r) = Some p" using ps(2)[OF t(1)] by simp
  then show ?thesis using ps(1) t(3,4) by (simp add: require_prepared_def raise_if_def)
qed


text \<open>A run for the witnesses: one trigger, taken through every stage by one owner.\<close>

definition demo_checkpoint :: json where
  "demo_checkpoint = JObj [(''source'', JStr ''codex.transcript''), (''representation'', JStr ''active-jsonl''),
     (''start'', JInt 0), (''end'', JInt 1), (''prefix_sha256'', JStr (replicate 64 CHR ''0''))]"

definition demo_enqueue :: "string \<Rightarrow> publication \<Rightarrow> call" where
  "demo_enqueue e pub = Enqueue (Inr ()) pub (JStr e) (JStr ''session'') demo_checkpoint (JBool False) (JObj []) (JStr ''allow'') True"

definition run :: "outbox_env \<Rightarrow> call list \<Rightarrow> outbox" where
  "run env cs = fold (exec env) cs empty_outbox"

lemma reachable_fold: "reachable env st \<Longrightarrow> run_ok env cs st \<Longrightarrow> reachable env (fold (exec env) cs st)"
  by (induction cs arbitrary: st) (auto intro: reachable.step)

lemma reachable_run: "run_ok env cs empty_outbox \<Longrightarrow> reachable env (run env cs)"
  unfolding run_def by (intro reachable_fold reachable.start)

lemma readable_code [code]: "readable env f = (case read_record env (snd f) of Inl _ \<Rightarrow> False | Inr _ \<Rightarrow> True)"
  by (auto simp: readable_def split: sum.split)

section \<open>What successful calls do\<close>

text \<open>
  With every publication succeeding, the record a call computes is the record stored
  afterwards. Records in a queue file have sorted metadata, which no later call changes.
\<close>

lemma stored_good:
  assumes "outbox_inv env st" "stored env st e = Some r"
  shows "good env (prep_map env st) r \<and> canon r = r \<and> q_event_id r = e \<and> must_read env e st = Inr r \<and> IDENTIFIER e"
proof -
  have m: "must_read env e st = Inr r" using assms(2) by (simp add: stored_Some)
  then show ?thesis using inv_must_read[OF outbox_inv_queue[OF assms(1)] m] by (auto simp: must_read_def check_simps)
qed

lemma stored_published:
  assumes "good env pm u" "canon r = r" "q_metadata u = q_metadata r"
  shows "stored env (snd (publish_return env Published u st)) (q_event_id u) = Some u"
  using stored_publish[OF assms(1), of Published st "q_event_id u"] assms(2,3) by (simp add: canon_id)

text \<open>A call whose effect on the directories is the publication of one queue record.\<close>

definition publishes :: "outbox_env \<Rightarrow> queue_record \<Rightarrow> outbox \<Rightarrow> outbox \<Rightarrow> bool" where
  "publishes env u st st' \<longleftrightarrow> st' = st\<lparr>queue_files := AList.update (q_event_id u) (record_body env u) (queue_files st)\<rparr>"

lemma publishes_return: "publishes env u st (snd (publish_return env Published u st))"
  by (simp add: publishes_def publish_record_def)

lemma exec_claim_specific:
  assumes inv: "outbox_inv env st" "env_ok env" and r: "stored env st e = Some r" "claimable r"
    and c: "clock_ok v" "now_of v = Inr now" "IDENTIFIER ow"
  shows "stored env (exec env (ClaimSpecific v Published (JStr e) (JStr ow) (JBool b)) st) e = Some (claimed_record env ow now r) \<and>
    publishes env (claimed_record env ow now r) st (exec env (ClaimSpecific v Published (JStr e) (JStr ow) (JBool b)) st)"
proof -
  note g = stored_good[OF inv(1) r(1)]
  have "good env (prep_map env st) (claimed_record env ow now r)" using good_claimed[OF _ r(2) inv(2) c] g by simp
  from stored_published[OF this, of r st] g have "stored env (snd (publish_return env Published (claimed_record env ow now r) st)) e =
    Some (claimed_record env ow now r)" by (simp add: claimed_record_def)
  then show ?thesis
    using g r(2) c publishes_return[of env "claimed_record env ow now r" st]
    by (simp add: claim_specific_def reads_st_def as_identifier_def raise_if_def snd_bind_return)
qed

lemma stored_transition:
  assumes inv: "outbox_inv env st" and r: "stored env st e = Some r" "require_claim_at r ow v = Inr ()" "IDENTIFIER ow"
    and t: "next_state_valid r target" "q_state r \<noteq> target" "complete_details target ds" "transitioned_record target ds r = Inr u"
    and m: "q_metadata u = q_metadata r"
  shows "stored env (snd (transition env v Published e (JStr ow) (JStr (state_value target)) ds st)) e = Some u \<and>
    publishes env u st (snd (transition env v Published e (JStr ow) (JStr (state_value target)) ds st))"
proof -
  note g = stored_good[OF inv r(1)]
  have "good env (prep_map env st) u"
    using good_transitioned[OF _ _ _ t(1,3,4)] claim_life[OF r(2)] g by (metis option.distinct(1))
  moreover have "q_event_id u = e" using life_transitioned[OF r(2) t(1,4)] g by simp
  ultimately have "stored env (snd (publish_return env Published u st)) e = Some u"
    using stored_published[of env "prep_map env st" u r st] g m by simp
  moreover have "(q_state r = COMMITTED \<and> target = COMMITTED) = False" using t(2) by auto
  ultimately show ?thesis
    unfolding transition_def using g r t publishes_return[of env u st]
    by (simp add: reads_st_def as_identifier_def del: de_Morgan_conj)
qed

lemma inv_file_size:
  assumes "queue_inv env pm st" "must_read env e st = Inr r"
  shows "file_size st e = Inr (int (utf8_len (record_body env r)))"
  using inv_must_read[OF assms] by (simp add: file_size_def)

lemma inv_queue_bytes:
  assumes "queue_inv env pm st"
  shows "\<exists>n. queue_bytes st (safe_records env st) = Inr n"
proof -
  have "file_size st (q_event_id r) = Inr (projr (file_size st (q_event_id r)))" if "r \<in> set (safe_records env st)" for r
  proof -
    have "must_read env (q_event_id r) st = Inr r" using inv_safe_record[OF assms that] by simp
    from inv_file_size[OF assms this] show ?thesis by simp
  qed
  then have "map_r (\<lambda>r. file_size st (q_event_id r)) (safe_records env st) =
      Inr (map (\<lambda>r. projr (file_size st (q_event_id r))) (safe_records env st))"
    by (rule map_r_all)
  then show ?thesis by (simp add: queue_bytes_def)
qed

text \<open>Preparing stores the prepared record, or the byte quota is hit and the record waits again as a gap.\<close>

lemma exec_prepare:
  assumes inv: "outbox_inv env st" "env_ok env" and r: "stored env st e = Some r" "require_claim_at r ow v = Inr ()" "IDENTIFIER ow"
    and g: "q_resume_state r = SOURCE_SNAPSHOTTED" and b: "int (length ct) \<le> MAX_CIPHERTEXT_BYTES"
    and m: "validate_metadata env (or_empty m) = Inr m'"
  shows "stored env (exec env (PrepareEncrypted v Published Published (JStr e) (JStr ow) ct m) st) e \<in>
    {Some (prepared_progress (sha256_hex env ct) (int (length ct)) r), Some (quota_gap r)}"
    and "queue_files st = [(e, body)] \<Longrightarrow> prepared_files st = [] \<Longrightarrow> age_files st = [] \<Longrightarrow>
      body_size (record_body env (prepared_progress (sha256_hex env ct) (int (length ct)) r)) +
      body_size (prepared_body env \<lparr>p_event_id = e, p_ciphertext = ct, p_metadata = m', p_ciphertext_sha256 = sha256_hex env ct,
        p_ciphertext_size = int (length ct)\<rparr>) \<le> max_bytes env \<Longrightarrow>
      stored env (exec env (PrepareEncrypted v Published Published (JStr e) (JStr ow) ct m) st) e =
        Some (prepared_progress (sha256_hex env ct) (int (length ct)) r) \<and>
      exec env (PrepareEncrypted v Published FailedBefore (JStr e) (JStr ow) ct m) st =
        st\<lparr>prepared_files := [(e, prepared_body env \<lparr>p_event_id = e, p_ciphertext = ct, p_metadata = m',
          p_ciphertext_sha256 = sha256_hex env ct, p_ciphertext_size = int (length ct)\<rparr>)]\<rparr>"
proof -
  note f = stored_good[OF inv(1) r(1)]
  note q = outbox_inv_queue[OF inv(1)]
  let ?u = "prepared_progress (sha256_hex env ct) (int (length ct)) r"
  have guard: "prepare_guard r = Inr None" using g by (simp add: prepare_guard_def)
  have own: "q_owner r \<noteq> None" using claim_life[OF r(2)] by auto
  obtain n where n: "queue_bytes st (safe_records env st) = Inr n" using inv_queue_bytes[OF q] by blast
  obtain k where k: "file_size st e = Inr k" using inv_file_size[OF q] f by blast
  have "good env (\<lambda>_. Some (sha256_hex env ct, int (length ct))) r" using good_unprepared[of env "prep_map env st" r] f g by simp
  then have "good env (\<lambda>_. Some (sha256_hex env ct, int (length ct))) ?u"
    using good_prepared_progress[OF _ own] inv(2) b by (simp add: env_ok_def)
  from stored_published[OF this, of r] f have u: "stored env (snd (publish_return env Published ?u st')) e = Some ?u" for st'
    by (simp add: prepared_progress_def)
  have gap: "stored env (snd (publish_return env Published (quota_gap r) st)) e = Some (quota_gap r)"
    using stored_published[OF good_quota_gap, of env "prep_map env st" r r st] f by (simp add: quota_gap_def)
  note run = prepare_encrypted_def reads_st_def as_identifier_def raise_if_def Let_def inv_no_quarantine[OF q]
    publish_prepared_def bind_st_def
  show "stored env (exec env (PrepareEncrypted v Published Published (JStr e) (JStr ow) ct m) st) e \<in> {Some ?u, Some (quota_gap r)}"
    using f r b m guard n k u gap by (simp add: run)
  assume alone: "queue_files st = [(e, body)]" "prepared_files st = []" "age_files st = []"
    "body_size (record_body env ?u) + body_size (prepared_body env \<lparr>p_event_id = e, p_ciphertext = ct, p_metadata = m',
       p_ciphertext_sha256 = sha256_hex env ct, p_ciphertext_size = int (length ct)\<rparr>) \<le> max_bytes env"
  have "safe_records env st = [r]"
    using alone(1) inv_readable[OF q] f by (auto simp: safe_records_def record_of_file_def must_read_def split: sum.splits)
  then have "n = k" using n k f by (simp add: queue_bytes_def)
  moreover from this have "stored env (exec env (PrepareEncrypted v Published Published (JStr e) (JStr ow) ct m) st) e = Some ?u"
    using f r b m guard n k u alone by (simp add: run prepared_bytes_def)
  ultimately show "stored env (exec env (PrepareEncrypted v Published Published (JStr e) (JStr ow) ct m) st) e = Some ?u \<and>
      exec env (PrepareEncrypted v Published FailedBefore (JStr e) (JStr ow) ct m) st =
        st\<lparr>prepared_files := [(e, prepared_body env \<lparr>p_event_id = e, p_ciphertext = ct, p_metadata = m',
          p_ciphertext_sha256 = sha256_hex env ct, p_ciphertext_size = int (length ct)\<rparr>)]\<rparr>"
    using f r b m guard n k alone by (simp add: run prepared_bytes_def publish_record_def)
qed

text \<open>A claim that is still in time.\<close>

definition claim_holds :: "queue_record \<Rightarrow> string \<Rightarrow> rat \<Rightarrow> bool" where
  "claim_holds r ow now \<longleftrightarrow> q_state r \<in> set owned_states \<and> q_owner r = Some ow \<and> q_lease_until r \<noteq> None \<and>
     now < the (q_lease_until r)"

lemma claim_holds_require: "claim_holds r ow now \<Longrightarrow> now_of v = Inr now \<Longrightarrow> require_claim_at r ow v = Inr ()"
  by (auto simp: claim_holds_def require_claim_at_def require_claim_def raise_if_def)

lemma exec_snapshot:
  assumes "outbox_inv env st" "stored env st e = Some r" "claim_holds r ow now" "now_of v = Inr now" "IDENTIFIER ow"
    "q_state r = CLAIMED" "q_resume_state r = QUEUED"
  shows "stored env (exec env (Snapshot v Published e (JStr ow)) st) e =
    Some (r\<lparr>q_state := SOURCE_SNAPSHOTTED, q_resume_state := SOURCE_SNAPSHOTTED, q_failure_code := None\<rparr>) \<and>
    publishes env (r\<lparr>q_state := SOURCE_SNAPSHOTTED, q_resume_state := SOURCE_SNAPSHOTTED, q_failure_code := None\<rparr>) st (exec env (Snapshot v Published e (JStr ow)) st)"
  unfolding exec.simps
  by (rule stored_transition[OF assms(1,2) claim_holds_require[OF assms(3,4)] assms(5)])
    (use assms(6,7) in \<open>simp_all add: next_state_valid_def complete_dedicated transitioned_record_def progressed_record_def
      detail_object_key_def detail_size_def detail_index_def\<close>)

lemma exec_uploaded:
  assumes "outbox_inv env st" "stored env st e = Some r" "claim_holds r ow now" "now_of v = Inr now" "IDENTIFIER ow"
    "q_state r = PREPARED_ENCRYPTED" "q_resume_state r = PREPARED_ENCRYPTED"
    and k: "q_ciphertext_sha256 r = Some d" "q_ciphertext_size r = Some n" "key_digest key = Some d"
      "0 \<le> n" "n \<le> MAX_CIPHERTEXT_BYTES"
  shows "stored env (exec env (MarkUploaded v Published e (JStr ow) (JStr key) (JInt n)) st) e =
    Some (r\<lparr>q_state := OBJECT_UPLOADED, q_resume_state := OBJECT_UPLOADED, q_failure_code := None, q_object_key := Some key\<rparr>) \<and>
    publishes env (r\<lparr>q_state := OBJECT_UPLOADED, q_resume_state := OBJECT_UPLOADED, q_failure_code := None, q_object_key := Some key\<rparr>) st (exec env (MarkUploaded v Published e (JStr ow) (JStr key) (JInt n)) st)"
  unfolding exec.simps mark_uploaded_def
  by (rule stored_transition[OF assms(1,2) claim_holds_require[OF assms(3,4)] assms(5)])
    (use assms(6,7) k in \<open>simp_all add: next_state_valid_def complete_dedicated transitioned_record_def progressed_record_def
      detail_object_key_def detail_size_def detail_index_def\<close>)

lemma exec_indexed:
  assumes "outbox_inv env st" "stored env st e = Some r" "claim_holds r ow now" "now_of v = Inr now" "IDENTIFIER ow"
    "q_state r = OBJECT_UPLOADED" "q_resume_state r = OBJECT_UPLOADED" "IDENTIFIER i"
  shows "stored env (exec env (PublishIndex v Published e (JStr ow) (JStr i)) st) e =
    Some (r\<lparr>q_state := INDEX_PUBLISHED, q_resume_state := INDEX_PUBLISHED, q_failure_code := None, q_index_id := Some i\<rparr>) \<and>
    publishes env (r\<lparr>q_state := INDEX_PUBLISHED, q_resume_state := INDEX_PUBLISHED, q_failure_code := None, q_index_id := Some i\<rparr>) st (exec env (PublishIndex v Published e (JStr ow) (JStr i)) st)"
  unfolding exec.simps publish_index_def
  by (rule stored_transition[OF assms(1,2) claim_holds_require[OF assms(3,4)] assms(5)])
    (use assms(6-8) in \<open>simp_all add: next_state_valid_def complete_dedicated transitioned_record_def progressed_record_def
      detail_object_key_def detail_size_def detail_index_def as_identifier_def\<close>)

lemma exec_committed:
  assumes "outbox_inv env st" "stored env st e = Some r" "claim_holds r ow now" "now_of v = Inr now" "IDENTIFIER ow"
    "q_state r = INDEX_PUBLISHED" "q_resume_state r = INDEX_PUBLISHED" "q_index_id r \<noteq> None"
  shows "stored env (exec env (Commit v Published e (JStr ow)) st) e =
    Some (r\<lparr>q_state := COMMITTED, q_failure_code := None, q_owner := None, q_lease_until := None\<rparr>) \<and>
    publishes env (r\<lparr>q_state := COMMITTED, q_failure_code := None, q_owner := None, q_lease_until := None\<rparr>) st (exec env (Commit v Published e (JStr ow)) st)"
  unfolding exec.simps commit_def
  by (rule stored_transition[OF assms(1,2) claim_holds_require[OF assms(3,4)] assms(5)])
    (use assms(6-8) in \<open>simp_all add: next_state_valid_def complete_dedicated transitioned_record_def progressed_record_def
      detail_object_key_def detail_size_def detail_index_def\<close>)

lemma unowned_transition:
  assumes "stored env st e = Some r" "q_owner r = None"
  shows "snd (transition env v pub e ow tv ds st) = st"
proof -
  have "must_read env e st = Inr r" "require_claim_at r ow' v = Inl LeaseConflict" for ow'
    using assms by (simp_all add: stored_Some require_claim_at_def)
  then show ?thesis by (simp add: transition_def reads_st_def split: sum.split option.split)
qed

lemma key_digest_object: "DIGEST d \<Longrightarrow> key_digest (''objects/sha256/'' @ d) = Some d"
  by (simp add: key_digest_def OBJECT_KEY_GROUP_def starts_with_def)

text \<open>The calls of one owner from claim to commit, at one reading of the clock.\<close>

definition full_capture :: "outbox_env \<Rightarrow> json \<Rightarrow> string \<Rightarrow> string \<Rightarrow> string \<Rightarrow> json \<Rightarrow> string \<Rightarrow> call list" where
  "full_capture env v e ow ct m i =
     [ClaimSpecific v Published (JStr e) (JStr ow) (JBool False), Snapshot v Published e (JStr ow),
      PrepareEncrypted v Published Published (JStr e) (JStr ow) ct m,
      MarkUploaded v Published e (JStr ow) (JStr (''objects/sha256/'' @ sha256_hex env ct)) (JInt (int (length ct))),
      PublishIndex v Published e (JStr ow) (JStr i), Commit v Published e (JStr ow)]"

lemma claim_and_snapshot:
  assumes inv: "outbox_inv env st" "env_ok env" and r: "stored env st e = Some r" "q_state r = QUEUED"
    and v: "clock_ok v" "now_of v = Inr now" "now < float_add now (lease_secs env)" "IDENTIFIER ow"
    and s: "s = fold (exec env) [ClaimSpecific v Published (JStr e) (JStr ow) (JBool False), Snapshot v Published e (JStr ow)] st"
  obtains r2 where "outbox_inv env s" "stored env s e = Some r2" "claim_holds r2 ow now" "q_resume_state r2 = SOURCE_SNAPSHOTTED"
proof -
  have free: "claimable r" "q_resume_state r = QUEUED"
    using stored_good[OF inv(1) r(1)] r(2) by (simp_all add: good_unfold claimable_def)
  define s1 where "s1 = exec env (ClaimSpecific v Published (JStr e) (JStr ow) (JBool False)) st"
  define r1 where "r1 = claimed_record env ow now r"
  have s1: "outbox_inv env s1" "stored env s1 e = Some r1" "claim_holds r1 ow now" "q_state r1 = CLAIMED" "q_resume_state r1 = QUEUED"
    unfolding s1_def r1_def
    using inv_exec[OF inv] exec_claim_specific[OF inv r(1) free(1) v(1,2,4)] v(1,3) r(2) free(2)
    by (simp_all add: claim_holds_def claimed_record_def stage_set del: exec.simps)
  let ?s2 = "exec env (Snapshot v Published e (JStr ow)) s1"
  let ?r2 = "r1\<lparr>q_state := SOURCE_SNAPSHOTTED, q_resume_state := SOURCE_SNAPSHOTTED, q_failure_code := None\<rparr>"
  have "outbox_inv env ?s2" "stored env ?s2 e = Some ?r2" "claim_holds ?r2 ow now"
    using inv_exec[OF s1(1) inv(2)] exec_snapshot[OF s1(1-3) v(2,4) s1(4,5)] s1(3)
    by (simp_all add: claim_holds_def stage_set del: exec.simps)
  moreover have "s = ?s2" by (simp add: s s1_def)
  ultimately show ?thesis using that[of ?r2] by simp
qed

lemma upload_index_commit:
  assumes inv: "outbox_inv env st" "env_ok env" and r: "stored env st e = Some r" "claim_holds r ow now"
    "q_state r = PREPARED_ENCRYPTED" "q_resume_state r = PREPARED_ENCRYPTED"
    and d: "q_ciphertext_sha256 r = Some d" "q_ciphertext_size r = Some n" "DIGEST d" "0 \<le> n" "n \<le> MAX_CIPHERTEXT_BYTES"
    and v: "now_of v = Inr now" "IDENTIFIER ow" "IDENTIFIER i"
  shows "\<exists>r'. stored env (fold (exec env) [MarkUploaded v Published e (JStr ow) (JStr (''objects/sha256/'' @ d)) (JInt n),
      PublishIndex v Published e (JStr ow) (JStr i), Commit v Published e (JStr ow)] st) e = Some r' \<and>
    q_state r' = COMMITTED \<and> q_object_key r' = Some (''objects/sha256/'' @ d) \<and> q_index_id r' = Some i"
proof -
  let ?key = "''objects/sha256/'' @ d"
  define s1 where "s1 = exec env (MarkUploaded v Published e (JStr ow) (JStr ?key) (JInt n)) st"
  define r1 where "r1 = r\<lparr>q_state := OBJECT_UPLOADED, q_resume_state := OBJECT_UPLOADED, q_failure_code := None, q_object_key := Some ?key\<rparr>"
  have s1: "outbox_inv env s1" "stored env s1 e = Some r1" "claim_holds r1 ow now" "q_state r1 = OBJECT_UPLOADED"
    "q_resume_state r1 = OBJECT_UPLOADED"
    unfolding s1_def r1_def
    using inv_exec[OF inv] exec_uploaded[OF inv(1) r(1,2) v(1,2) r(3,4) d(1,2) key_digest_object[OF d(3)] d(4,5)] r(2)
    by (simp_all add: claim_holds_def stage_set del: exec.simps)
  define s2 where "s2 = exec env (PublishIndex v Published e (JStr ow) (JStr i)) s1"
  define r2 where "r2 = r1\<lparr>q_state := INDEX_PUBLISHED, q_resume_state := INDEX_PUBLISHED, q_failure_code := None, q_index_id := Some i\<rparr>"
  have s2: "outbox_inv env s2" "stored env s2 e = Some r2" "claim_holds r2 ow now" "q_state r2 = INDEX_PUBLISHED"
    "q_resume_state r2 = INDEX_PUBLISHED" "q_index_id r2 \<noteq> None"
    unfolding s2_def r2_def
    using inv_exec[OF s1(1) inv(2)] exec_indexed[OF s1(1-3) v(1,2) s1(4,5) v(3)] s1(3)
    by (simp_all add: claim_holds_def stage_set del: exec.simps)
  have "fold (exec env) [MarkUploaded v Published e (JStr ow) (JStr ?key) (JInt n), PublishIndex v Published e (JStr ow) (JStr i),
      Commit v Published e (JStr ow)] st = exec env (Commit v Published e (JStr ow)) s2" by (simp add: s1_def s2_def)
  then show ?thesis using conjunct1[OF exec_committed[OF s2(1-3) v(1,2) s2(4-6)]] by (simp add: r2_def r1_def del: exec.simps fold_simps)
qed


section \<open>Receipts\<close>

text \<open>
  A receipt is honest about a step: with no diagnostic the trigger is in a stored record and
  the receipt repeats that record's state, sequence and finality; with a diagnostic it says
  capture gap.
\<close>

definition honest :: "outbox_env \<Rightarrow> string \<Rightarrow> QueueReceipt step \<Rightarrow> bool" where
  "honest env event out \<longleftrightarrow>
     (case fst out of
        Inl err \<Rightarrow> is_os_error err
      | Inr rc \<Rightarrow>
          if rc_diagnostic rc = None then
            \<exists>r. stored env (snd out) (rc_event_id rc) = Some r \<and> event \<in> set (q_event_ids r) \<and> rc_state rc = q_state r \<and>
              rc_sequence rc = Some (q_sequence r) \<and> rc_is_final rc = q_is_final r
          else rc_state rc = CAPTURE_GAP)"

lemma honest_gap: "honest env event (Inr (gap_receipt e reason b), st)" "honest env event (Inr (coalesced_gap r reason b), st)"
  by (simp_all add: honest_def gap_receipt_def coalesced_gap_def)

lemma honest_coalesced:
  assumes inv: "outbox_inv env st" and t: "trigger_ok env t" and r: "find_existing t (safe_records env st) = Some r"
  shows "honest env (t_event_id t) (enqueue_coalesced env pub t r st)"
proof (cases "t_event_id t \<notin> set (q_event_ids r) \<and> length (q_event_ids r) \<ge> MAX_EVENT_IDS \<and> \<not> t_is_final t")
  case True
  then show ?thesis by (simp add: enqueue_coalesced_def honest_gap)
next
  case False
  let ?u = "coalesce_record t r"
  have "r \<in> set (safe_records env st)" using r by (auto simp: find_existing_def find_Some_iff split: if_splits)
  note g = inv_safe_record[OF outbox_inv_queue[OF inv] this]
  have "\<not> snd (coalesced_ids t r) \<or> t_is_final t" using False by (auto simp: coalesced_ids_def)
  then have "good env (prep_map env st) ?u" using g t by (intro good_coalesced) simp_all
  from stored_publish[OF this, of Published st] have
    "stored env (snd (publish_record env Published ?u st)) (q_event_id r) = Some (canon ?u)" by simp
  moreover have "t_event_id t \<in> set (q_event_ids ?u)"
    using coalesced_ids_ok[of env "prep_map env st" r t] g t by (simp add: Let_def coalesce_record_def trigger_ok_def)
  ultimately show ?thesis
    using False by (cases pub) (auto simp: enqueue_coalesced_def publish_record_def Let_def honest_def coalesced_gap_def)
qed

lemma honest_new:
  assumes inv: "outbox_inv env st" and env: "env_ok env" and t: "trigger_ok env t"
  shows "honest env (t_event_id t) (enqueue_new env pub t (safe_records env st) st)"
proof -
  note q = outbox_inv_queue[OF inv]
  let ?r = "new_record t (next_sequence (safe_records env st))"
  have "1 \<le> next_sequence (safe_records env st)" using inv_safe_record[OF q] good_sequence by (intro next_sequence_pos) blast
  then have "good env (prep_map env st) ?r" by (rule good_new[OF t _ env])
  from stored_publish[OF this, of Published st]
  have st: "stored env (snd (publish_record env Published ?r st)) (t_event_id t) = Some (canon ?r)" by (simp add: new_record_def)
  obtain n where n: "queue_bytes st (safe_records env st) = Inr n" using inv_queue_bytes[OF q] by blast
  show ?thesis
  proof (cases "length (safe_records env st) \<ge> max_events env \<or> n + body_size (record_body env ?r) > max_bytes env")
    case True
    then show ?thesis using n by (auto simp: enqueue_new_def reads_st_def Let_def honest_gap)
  next
    case False
    then show ?thesis
      using n st by (cases pub) (simp_all add: enqueue_new_def reads_st_def Let_def honest_def gap_receipt_def publish_record_def new_record_def)
  qed
qed

lemma honest_locked:
  assumes inv: "outbox_inv env st" and env: "env_ok env" and t: "trigger_ok env t"
  shows "honest env (t_event_id t) (enqueue_locked env pub t st)"
proof -
  note q = outbox_inv_queue[OF inv]
  have owner: "stored env st (t_event_id t) = Some r \<and> t_event_id t \<in> set (q_event_ids r)"
    if f: "find_event_owner t (safe_records env st) = Some r" "q_event_id r = t_event_id t" for r
  proof -
    have r: "r \<in> set (safe_records env st)" "t_event_id t \<in> set (q_event_ids r)"
      using f(1) by (auto simp: find_event_owner_def find_Some_iff)
    show ?thesis using inv_safe_record[OF q r(1)] r(2) f(2) by (simp add: stored_Some)
  qed
  show ?thesis
    unfolding enqueue_locked_def Let_def inv_no_quarantine[OF q]
    using honest_coalesced[OF inv t] honest_new[OF inv env t] owner
    by (auto split: option.split simp: honest_gap) (auto simp: honest_def)
qed

text \<open>
  C12. Enqueueing a valid trigger never raises: whatever the lock or the publication does, there is
  a receipt. A receipt without a diagnostic means that the trigger is durably stored, in the
  record the receipt names, with the state, sequence number and finality it reports; every
  other receipt reports a capture gap and carries a reason.
\<close>

theorem enqueue_receipt_honest:
  assumes "env_ok env" "reachable env st" "trigger_make env e s c f m d co = Inr t" "wf_json m"
    and "case lock of Inr _ \<Rightarrow> True | Inl err \<Rightarrow> is_os_error err \<or> (\<exists>k b. err = OutboxStorageError k b)"
  shows "\<exists>rc. fst (enqueue env lock pub e s c f m d co st) = Inr rc \<and>
    (if rc_diagnostic rc = None then
       \<exists>r. stored env (snd (enqueue env lock pub e s c f m d co st)) (rc_event_id rc) = Some r \<and>
         t_event_id t \<in> set (q_event_ids r) \<and> rc_state rc = q_state r \<and>
         rc_sequence rc = Some (q_sequence r) \<and> rc_is_final rc = q_is_final r
     else rc_state rc = CAPTURE_GAP)"
proof -
  have inv: "outbox_inv env st" by (rule reachable_inv[OF assms(1,2)])
  have h: "honest env (t_event_id t) (enqueue_locked env pub t st)"
    by (rule honest_locked[OF inv assms(1) trigger_make_ok[OF assms(3,4)]])
  obtain res st' where l: "enqueue_locked env pub t st = (res, st')" by (cases "enqueue_locked env pub t st")
  show ?thesis
  proof (cases lock)
    case (Inl err)
    then show ?thesis using assms(3,5) by (cases err) (auto simp: enqueue_def reads_st_def gap_receipt_def)
  next
    case (Inr _)
    show ?thesis
      using h Inr assms(3) by (cases res) (auto simp: enqueue_def reads_st_def l honest_def gap_receipt_def split: py_error.splits)
  qed
qed

section \<open>The lifecycle\<close>




section \<open>Witnesses\<close>

lemma enqueue_first:
  assumes "trigger_make env e s c f m d co = Inr t" "wf_json m" "env_ok env" "0 < max_events env"
    "body_size (record_body env (new_record t 1)) \<le> max_bytes env"
  shows "stored env (exec env (Enqueue (Inr ()) Published e s c f m d co) empty_outbox) (t_event_id t) = Some (canon (new_record t 1)) \<and>
    publishes env (new_record t 1) empty_outbox (exec env (Enqueue (Inr ()) Published e s c f m d co) empty_outbox)"
proof -
  have g: "good env (prep_map env empty_outbox) (new_record t 1)"
    using good_new[OF trigger_make_ok[OF assms(1,2)] _ assms(3), of 1] by simp
  have "safe_records env empty_outbox = []" "quarantine_corrupt env empty_outbox = empty_outbox"
    by (simp_all add: safe_records_def empty_outbox_def quarantine_corrupt_def)
  then have "snd (enqueue_locked env Published t empty_outbox) = snd (publish_record env Published (new_record t 1) empty_outbox)"
    using assms(4,5) by (simp add: enqueue_locked_def Let_def find_event_owner_def find_existing_def enqueue_new_def reads_st_def
        queue_bytes_def next_sequence_def publish_record_def)
  then show ?thesis
    unfolding exec.simps snd_enqueue[OF assms(1)] using stored_publish[OF g, of Published] publishes_return[of env "new_record t 1" empty_outbox]
    by (simp add: new_record_def)
qed

definition demo_trigger :: trigger where
  "demo_trigger = \<lparr>t_event_id = ''event'', t_session_id = ''session'',
     t_checkpoint = \<lparr>cp_source = ''codex.transcript'', cp_representation = ''active-jsonl'', cp_start = 0, cp_end = 1,
       cp_prefix = replicate 64 CHR ''0''\<rparr>, t_metadata = [], t_is_final = False, t_initial_state = QUEUED, t_coalesce = True\<rparr>"

lemma demo_trigger_make:
  "trigger_make demo_env (JStr ''event'') (JStr ''session'') demo_checkpoint (JBool False) (JObj []) (JStr ''allow'') True = Inr demo_trigger"
  by code_simp

definition demo_queued :: outbox where
  "demo_queued = run demo_env [demo_enqueue ''event'' Published]"

lemma demo_queued_record: "stored demo_env demo_queued ''event'' = Some (new_record demo_trigger 1)"
  and demo_queued_files: "publishes demo_env (new_record demo_trigger 1) empty_outbox demo_queued"
proof -
  have "body_size (record_body demo_env (new_record demo_trigger 1)) \<le> 65536" by code_simp
  moreover have "canon (new_record demo_trigger 1) = new_record demo_trigger 1" 
    by (simp add: canon_def new_record_def demo_trigger_def jsort_obj_def)
  ultimately have "stored demo_env demo_queued ''event'' = Some (new_record demo_trigger 1) \<and>
      publishes demo_env (new_record demo_trigger 1) empty_outbox demo_queued"
    using enqueue_first[OF demo_trigger_make _ demo_env_ok]
    by (simp add: demo_queued_def run_def demo_enqueue_def demo_env_def demo_trigger_def del: exec.simps)
  then show "stored demo_env demo_queued ''event'' = Some (new_record demo_trigger 1)"
    "publishes demo_env (new_record demo_trigger 1) empty_outbox demo_queued" by simp_all
qed

lemma demo_queued_reachable: "reachable demo_env demo_queued"
  unfolding demo_queued_def by (rule reachable_run) (simp add: demo_enqueue_def)

text \<open>The same trigger claimed and snapshotted by an owner at time 100, until 160.\<close>

definition demo_clock :: json where
  "demo_clock = JInt 100"

text \<open>Whole seconds below \<open>2 ^ 53\<close> are read and added exactly.\<close>

lemma whole_seconds:
  assumes "0 \<le> i" "i < 2 ^ 53"
  shows "now_of (JInt i) = Inr (of_int i)"
proof -
  have "(of_int i :: rat) < of_int (2 ^ 53)" using assms(2) by (simp only: of_int_less_iff)
  also have "\<dots> \<le> 2 powi 1024" by simp
  finally show ?thesis
    using round_double_int[OF assms] assms(1) by (simp add: now_of_def finite_number_def float_of_int_def Let_def)
qed

lemma demo_clock_reads: "clock_ok demo_clock" "now_of demo_clock = Inr 100" "float_add 100 (lease_secs demo_env) = 160"
  using whole_seconds[of 100] round_double_int[of 160] by (simp_all add: demo_clock_def demo_env_def float_add_def)

lemma demo_identifiers: "IDENTIFIER ''owner''" "IDENTIFIER ''index''" "IDENTIFIER ''event''"
  by code_simp+

definition demo_claim :: "call list" where
  "demo_claim = [ClaimSpecific demo_clock Published (JStr ''event'') (JStr ''owner'') (JBool False), Snapshot demo_clock Published ''event'' (JStr ''owner'')]"

definition demo_held :: outbox where
  "demo_held = fold (exec demo_env) demo_claim demo_queued"

definition demo_held_record :: queue_record where
  "demo_held_record = (claimed_record demo_env ''owner'' 100 (new_record demo_trigger 1))
     \<lparr>q_state := SOURCE_SNAPSHOTTED, q_resume_state := SOURCE_SNAPSHOTTED, q_failure_code := None\<rparr>"

lemma demo_held_reachable: "reachable demo_env demo_held"
  unfolding demo_held_def by (rule reachable_fold[OF demo_queued_reachable]) (simp add: demo_claim_def demo_clock_reads)

lemma demo_held_facts:
  "q_state demo_held_record = SOURCE_SNAPSHOTTED" "q_resume_state demo_held_record = SOURCE_SNAPSHOTTED"
  "q_owner demo_held_record = Some ''owner''" "q_lease_until demo_held_record = Some 160" "claim_holds demo_held_record ''owner'' 100"
  using demo_clock_reads(3) by (simp_all add: demo_held_record_def claimed_record_def claim_holds_def stage_set)

lemma demo_held_stored: "stored demo_env demo_held ''event'' = Some demo_held_record"
  and demo_held_files: "queue_files demo_held = [(''event'', record_body demo_env demo_held_record)]"
    "prepared_files demo_held = []" "age_files demo_held = []"
proof -
  let ?r1 = "claimed_record demo_env ''owner'' 100 (new_record demo_trigger 1)"
  define s1 where "s1 = exec demo_env (ClaimSpecific demo_clock Published (JStr ''event'') (JStr ''owner'') (JBool False)) demo_queued"
  have inv: "outbox_inv demo_env demo_queued" by (rule reachable_inv[OF demo_env_ok demo_queued_reachable])
  have r0: "claimable (new_record demo_trigger 1)" by (simp add: claimable_def new_record_def demo_trigger_def)
  have s1: "stored demo_env s1 ''event'' = Some ?r1 \<and> publishes demo_env ?r1 demo_queued s1"
    using exec_claim_specific[OF inv demo_env_ok demo_queued_record r0 demo_clock_reads(1,2) demo_identifiers(1)] by (simp add: s1_def)
  have inv1: "outbox_inv demo_env s1"
    unfolding s1_def by (rule inv_exec[OF inv demo_env_ok]) (simp_all add: demo_clock_reads)
  have c: "claim_holds ?r1 ''owner'' 100" "q_state ?r1 = CLAIMED" "q_resume_state ?r1 = QUEUED"
    using demo_clock_reads(3) by (simp_all add: claim_holds_def claimed_record_def stage_set new_record_def demo_trigger_def)
  have s2: "stored demo_env demo_held ''event'' = Some demo_held_record \<and> publishes demo_env demo_held_record s1 demo_held"
    using exec_snapshot[OF inv1 _ c(1) demo_clock_reads(2) demo_identifiers(1) c(2,3)] s1
    by (simp add: demo_held_def demo_claim_def demo_held_record_def s1_def)
  then show "stored demo_env demo_held ''event'' = Some demo_held_record" by simp
  have id: "q_event_id demo_held_record = ''event''" "q_event_id ?r1 = ''event''" "q_event_id (new_record demo_trigger 1) = ''event''"
    by (simp_all add: demo_held_record_def new_record_def demo_trigger_def)
  have 0: "demo_queued = empty_outbox\<lparr>queue_files := [(''event'', record_body demo_env (new_record demo_trigger 1))]\<rparr>"
    using demo_queued_files id(3) by (simp add: publishes_def empty_outbox_def)
  have 1: "s1 = demo_queued\<lparr>queue_files := AList.update ''event'' (record_body demo_env ?r1) (queue_files demo_queued)\<rparr>"
    using conjunct2[OF s1] id(2) by (simp only: publishes_def)
  have 2: "demo_held = s1\<lparr>queue_files := AList.update ''event'' (record_body demo_env demo_held_record) (queue_files s1)\<rparr>"
    using conjunct2[OF s2] id(1) by (simp only: publishes_def)
  show "queue_files demo_held = [(''event'', record_body demo_env demo_held_record)]"
    "prepared_files demo_held = []" "age_files demo_held = []"
    by (simp_all add: 0 1 2 empty_outbox_def)
qed

text \<open>The same record committed by its owner.\<close>

definition demo_finish :: "call list" where
  "demo_finish = drop 2 (full_capture demo_env demo_clock ''event'' ''owner'' ''ciphertext'' (JObj []) ''index'')"

definition demo_committed :: outbox where
  "demo_committed = fold (exec demo_env) demo_finish demo_held"

lemma demo_committed_reachable: "reachable demo_env demo_committed"
  unfolding demo_committed_def
  by (rule reachable_fold[OF demo_held_reachable]) (simp add: demo_finish_def full_capture_def)

definition demo_prepared :: PreparedRecord where
  "demo_prepared = \<lparr>p_event_id = ''event'', p_ciphertext = ''ciphertext'', p_metadata = [],
     p_ciphertext_sha256 = sha256_hex demo_env ''ciphertext'', p_ciphertext_size = int (length ''ciphertext'')\<rparr>"

lemma demo_small:
  "body_size (record_body demo_env (prepared_progress (sha256_hex demo_env ''ciphertext'') (int (length ''ciphertext'')) demo_held_record)) +
   body_size (prepared_body demo_env demo_prepared) \<le> max_bytes demo_env"
  by code_simp

lemma demo_metadata: "validate_metadata demo_env (or_empty (JObj [])) = Inr []"
  by code_simp

lemma demo_committed_stored: "\<exists>r. stored demo_env demo_committed ''event'' = Some r \<and> q_state r = COMMITTED"
proof -
  let ?sha = "sha256_hex demo_env ''ciphertext''" and ?n = "int (length ''ciphertext'')"
  let ?u = "prepared_progress ?sha ?n demo_held_record"
  define s3 where "s3 = exec demo_env (PrepareEncrypted demo_clock Published Published (JStr ''event'') (JStr ''owner'') ''ciphertext'' (JObj [])) demo_held"
  have inv: "outbox_inv demo_env demo_held" by (rule reachable_inv[OF demo_env_ok demo_held_reachable])
  have inv3: "outbox_inv demo_env s3" unfolding s3_def by (rule inv_exec[OF inv demo_env_ok]) simp_all
  have b: "?n \<le> MAX_CIPHERTEXT_BYTES" by (simp add: MAX_CIPHERTEXT_BYTES_def)
  have s3: "stored demo_env s3 ''event'' = Some ?u"
    unfolding s3_def
    by (rule conjunct1[OF exec_prepare(2)[OF inv demo_env_ok demo_held_stored claim_holds_require[OF demo_held_facts(5) demo_clock_reads(2)]
          demo_identifiers(1) demo_held_facts(2) b demo_metadata demo_held_files demo_small[unfolded demo_prepared_def]]])
  have c: "claim_holds ?u ''owner'' 100" using demo_held_facts by (simp add: claim_holds_def prepared_progress_def stage_set)
  have "DIGEST ?sha" using demo_env_ok by (simp add: env_ok_def)
  from upload_index_commit[OF inv3 demo_env_ok s3 c _ _ _ _ this _ b demo_clock_reads(2) demo_identifiers(1,2)]
  show ?thesis
    by (auto simp: demo_committed_def demo_finish_def full_capture_def s3_def prepared_progress_def simp del: exec.simps)
qed



theorem enqueue_receipt_honest_witness:
  "\<exists>rc. fst (enqueue demo_env (Inr ()) FailedAfter (JStr ''event'') (JStr ''session'') demo_checkpoint (JBool False) (JObj [])
     (JStr ''allow'') True demo_queued) = Inr rc"
  using enqueue_receipt_honest[OF demo_env_ok demo_queued_reachable demo_trigger_make, of "Inr ()" FailedAfter] by auto




end
