(* ===== verification/OutboxBounds.thy ===== *)
theory OutboxBounds
  imports OutboxProperties
begin

text \<open>
  Bounds: the number of queue files never exceeds the event quota, because every call other
  than an enqueue or a recovery only rewrites files that exist, and those two count first.
\<close>

section \<open>Calls that add no file\<close>

definition queue_keys :: "outbox \<Rightarrow> string set" where
  "queue_keys st = fst ` set (queue_files st)"

definition no_new :: "outbox \<Rightarrow> outbox \<Rightarrow> bool" where
  "no_new st st' \<longleftrightarrow> queue_keys st' \<subseteq> queue_keys st"

lemma no_new_refl [simp]: "no_new st st"
  by (simp add: no_new_def)

lemma no_new_same: "queue_files st' = queue_files st \<Longrightarrow> no_new st st'"
  by (simp add: no_new_def queue_keys_def)

lemma keys_publish: "queue_keys (snd (publish_record env pub u st)) \<subseteq> insert (q_event_id u) (queue_keys st)"
  by (cases pub) (auto simp: publish_record_def queue_keys_def dom_update[of "q_event_id u" _ "queue_files st", unfolded dom_map_of_conv_image_fst])

lemma must_read_key: "must_read env e st = Inr r \<Longrightarrow> e \<in> queue_keys st"
  by (force simp: must_read_def queue_keys_def check_simps dest: map_of_SomeD split: option.splits)

lemma no_new_publish:
  assumes "queue_inv env pm st" "must_read env e st = Inr r" "q_event_id u = q_event_id r" "queue_files st1 = queue_files st"
  shows "no_new st (snd (publish_return env pub u st1))"
proof -
  have "q_event_id u \<in> queue_keys st" using inv_must_read[OF assms(1,2)] must_read_key[OF assms(2)] assms(3) by simp
  moreover have "queue_keys st1 = queue_keys st" by (simp add: queue_keys_def assms(4))
  ultimately show ?thesis using keys_publish[of env pub u st1] by (auto simp: no_new_def)
qed

lemmas no_new_reads = reads_st_rule[of "no_new st" for st]

lemma no_new_if: "(b \<Longrightarrow> no_new st (snd x)) \<Longrightarrow> (\<not> b \<Longrightarrow> no_new st (snd y)) \<Longrightarrow> no_new st (snd (if b then x else y))"
  by simp

lemma no_new_pair: "no_new st st' \<Longrightarrow> no_new st (snd (x, st'))"
  by simp

lemma no_new_bind: "no_new st (snd m) \<Longrightarrow> no_new st (snd (bind_st m (\<lambda>x st'. (Inr (f x), st'))))"
  by (simp add: snd_bind_return)

lemma no_new_two:
  assumes "queue_files (snd m) = queue_files st"
    and "\<And>st1. queue_files st1 = queue_files st \<Longrightarrow> no_new st (snd (publish_return env pub u st1))"
  shows "no_new st (snd (bind_st m (\<lambda>_ st'. publish_return env pub u st')))"
proof (rule bind_st_rule[of "no_new st"])
  show "no_new st (snd m)" by (rule no_new_same[OF assms(1)])
  show "no_new st (snd (publish_return env pub u st'))" if "m = (Inr x, st')" for x st' using assms that by simp
qed

lemmas no_new_intros = no_new_reads no_new_bind no_new_if no_new_pair no_new_refl

lemma transitioned_event_id: "transitioned_record target ds r = Inr u \<Longrightarrow> q_event_id u = q_event_id r"
  by (auto simp: transitioned_record_def progressed_record_def check_simps split: if_splits)

lemma no_new_ops:
  assumes q: "queue_inv env pm st"
  shows "no_new st (snd (claim env v pub ow st))"
    "no_new st (snd (claim_specific env v pub je ow flag st))"
    "no_new st (snd (renew env v v2 pub e ow st))"
    "no_new st (snd (takeover env v v2 pub e ow st))"
    "no_new st (snd (transition env v pub e ow tv ds st))"
    "no_new st (snd (release env v pub je ow st))"
    "no_new st (snd (expand env v pub je ow cs cp st))"
    "no_new st (snd (quarantine_operator env pub je reason st))"
    "no_new st (snd (prepare_encrypted env v pub pub2 je ow ct m st))"
    "no_new st (snd (prepare_encrypted_file env v pub pub2 je ow src m st))"
proof -
  note pub = no_new_publish[OF q]
  have found: "must_read env (q_event_id r) st = Inr r" if "find claimable (safe_records env st) = Some r" for r
    using that inv_safe_record[OF q] by (auto simp: find_Some_iff)
  show "no_new st (snd (claim env v pub ow st))"
    unfolding claim_def Let_def inv_no_quarantine[OF q]
    by (auto intro!: no_new_intros pub[OF found] split: option.split)
  show "no_new st (snd (claim_specific env v pub je ow flag st))"
    unfolding claim_specific_def by (intro no_new_intros) (rule pub; simp)+
  show "no_new st (snd (renew env v v2 pub e ow st))"
    unfolding renew_def by (intro no_new_intros) (rule pub; simp)
  show "no_new st (snd (takeover env v v2 pub e ow st))"
    unfolding takeover_def by (intro no_new_intros) (rule pub; simp)
  show "no_new st (snd (transition env v pub e ow tv ds st))"
    unfolding transition_def by (auto intro!: no_new_intros pub transitioned_event_id split: option.split)
  show "no_new st (snd (release env v pub je ow st))"
    unfolding release_def by (intro no_new_intros) (rule pub; simp)
  show "no_new st (snd (expand env v pub je ow cs cp st))"
    unfolding expand_def by (intro no_new_intros) (rule pub; simp)
  show "no_new st (snd (quarantine_operator env pub je reason st))"
    unfolding quarantine_operator_def by (intro no_new_intros) (rule pub; simp)
  show "no_new st (snd (prepare_encrypted env v pub pub2 je ow ct m st))"
    unfolding prepare_encrypted_def Let_def inv_no_quarantine[OF q]
    by (auto intro!: no_new_intros no_new_two pub split: option.split)
  show "no_new st (snd (prepare_encrypted_file env v pub pub2 je ow src m st))"
    unfolding prepare_encrypted_file_def Let_def inv_no_quarantine[OF q]
    by (auto intro!: no_new_intros no_new_two pub split: option.split prod.split)
qed

section \<open>The quota\<close>

definition within_quota :: "outbox_env \<Rightarrow> outbox \<Rightarrow> bool" where
  "within_quota env st \<longleftrightarrow> card (queue_keys st) \<le> max_events env"

lemma finite_keys [simp]: "finite (queue_keys st)"
  by (simp add: queue_keys_def)

lemma card_keys: "queue_inv env pm st \<Longrightarrow> card (queue_keys st) = length (queue_files st)"
  using distinct_card[of "map fst (queue_files st)"] by (simp add: queue_inv_def queue_keys_def)

lemma inv_record_count: "queue_inv env pm st \<Longrightarrow> length (safe_records env st) = card (queue_keys st)"
proof -
  assume q: "queue_inv env pm st"
  then have "filter (readable env) (queue_files st) = queue_files st" using inv_readable by (auto simp: filter_id_conv)
  then show ?thesis using card_keys[OF q] by (simp add: safe_records_def)
qed

lemma no_new_quota: "no_new st st' \<Longrightarrow> within_quota env st \<Longrightarrow> within_quota env st'"
  unfolding no_new_def within_quota_def using card_mono[OF finite_keys] by (meson order_trans)

lemma quota_publish:
  assumes "card (queue_keys st) < max_events env"
  shows "within_quota env (snd (publish_record env pub u st))"
proof -
  have "card (queue_keys (snd (publish_record env pub u st))) \<le> card (insert (q_event_id u) (queue_keys st))"
    by (rule card_mono) (simp_all add: keys_publish)
  also have "\<dots> \<le> Suc (card (queue_keys st))" by (simp add: card_insert_if)
  finally show ?thesis using assms by (simp add: within_quota_def)
qed

lemma quota_enqueue:
  assumes q: "queue_inv env pm st" and w: "within_quota env st"
  shows "within_quota env (snd (enqueue env lock pub e s c f m d co st))"
proof (cases "trigger_make env e s c f m d co")
  case (Inr t)
  have co: "within_quota env (snd (enqueue_coalesced env pub t r st))" if "find_existing t (safe_records env st) = Some r" for r
  proof -
    have "r \<in> set (safe_records env st)" using that by (auto simp: find_existing_def find_Some_iff split: if_splits)
    then have "must_read env (q_event_id r) st = Inr r" using inv_safe_record[OF q] by blast
    from no_new_publish[OF q this] have "no_new st (snd (publish_return env pub (coalesce_record t r) st))" by simp
    then show ?thesis using no_new_quota w by (simp add: snd_enqueue_coalesced)
  qed
  have "within_quota env (snd (enqueue_new env pub t (safe_records env st) st))"
    using snd_enqueue_new[of env pub t "safe_records env st" st] quota_publish[of st env] w inv_record_count[OF q] by auto
  then have "within_quota env (snd (enqueue_locked env pub t st))"
    unfolding enqueue_locked_def Let_def inv_no_quarantine[OF q] using co w by (auto split: option.split)
  then show ?thesis unfolding snd_enqueue[OF Inr] using w by (auto split: sum.split)
qed (use w in \<open>simp add: enqueue_def reads_st_def\<close>)

lemmas quota_reads = reads_st_rule[of "within_quota env" for env]

lemma quota_reconcile:
  assumes q: "queue_inv env pm st" and w: "within_quota env st"
  shows "within_quota env (snd (reconcile_prepared env v pub e s cp m fin st))"
proof -
  have re: "within_quota env (snd (reattach env v pub b m' p r st))" if "find (\<lambda>r. q_event_id r = e') (safe_records env st) = Some r"
    for b m' p r e'
  proof -
    have "r \<in> set (safe_records env st)" using that by (auto simp: find_Some_iff)
    then have read: "must_read env (q_event_id r) st = Inr r" using inv_safe_record[OF q] by blast
    have "no_new st (snd (reattach env v pub b m' p r st))"
      unfolding reattach_def Let_def by (intro no_new_intros no_new_publish[OF q read]) simp_all
    then show ?thesis using w by (rule no_new_quota)
  qed
  have new: "within_quota env (snd (recover_new env pub e' s' c b m' p (safe_records env st) st))" for e' s' c b m' p
    unfolding recover_new_def Let_def
    using w quota_publish[of st env] inv_record_count[OF q] by (auto intro!: quota_reads)
  have "within_quota env (quarantine_prepared e' st)" for e' using w by (simp add: within_quota_def queue_keys_def)
  then show ?thesis
    unfolding reconcile_prepared_def Let_def inv_no_quarantine[OF q]
    using w re new by (auto intro!: quota_reads split: option.split sum.split)
qed

lemma quota_exec:
  assumes inv: "outbox_inv env st" and w: "within_quota env st"
  shows "within_quota env (exec env c st)"
proof -
  note q = outbox_inv_queue[OF inv]
  note ops = no_new_ops[OF q, THEN no_new_quota, OF w] and same = queue_inspect[OF inv, THEN no_new_same, THEN no_new_quota, OF w]
  show ?thesis
    by (cases c) (simp_all add: ops same quota_enqueue[OF q w] quota_reconcile[OF q w] mark_uploaded_def publish_index_def commit_def
        del: state_value.simps)
qed

text \<open>
  C14. The quotas bound every reachable state: there are never more queue files than the event
  quota, and every record carries between one and 64 distinct event ids, its own first, and a
  ciphertext size of at most 8 GiB.
\<close>

theorem reachable_outbox_bounded:
  assumes "env_ok env" "reachable env st"
  shows "length (queue_files st) \<le> max_events env \<and>
    (\<forall>r \<in> set (safe_records env st). 1 \<le> length (q_event_ids r) \<and> length (q_event_ids r) \<le> 64 \<and> distinct (q_event_ids r) \<and>
       hd (q_event_ids r) = q_event_id r \<and> (\<forall>n. q_ciphertext_size r = Some n \<longrightarrow> 0 \<le> n \<and> n \<le> MAX_CIPHERTEXT_BYTES))"
proof -
  have "within_quota env st"
    using assms(2)
  proof induction
    case start
    then show ?case by (simp add: within_quota_def queue_keys_def empty_outbox_def)
  next
    case (step st c)
    then show ?case using quota_exec reachable_inv[OF assms(1)] by blast
  qed
  have q: "queue_inv env (prep_map env st) st" using reachable_inv[OF assms] by (rule outbox_inv_queue)
  have "1 \<le> length (q_event_ids r) \<and> length (q_event_ids r) \<le> 64 \<and> distinct (q_event_ids r) \<and> hd (q_event_ids r) = q_event_id r \<and>
      (\<forall>n. q_ciphertext_size r = Some n \<longrightarrow> 0 \<le> n \<and> n \<le> MAX_CIPHERTEXT_BYTES)" if "r \<in> set (safe_records env st)" for r
  proof -
    have g: "good env (prep_map env st) r" using inv_safe_record[OF q that] by simp
    have "0 \<le> n \<and> n \<le> MAX_CIPHERTEXT_BYTES" if "q_ciphertext_size r = Some n" for n using good_options(3)[OF g] that by simp
    then show ?thesis using g by (simp add: good_def record_ok_def fields_ok_def evidence_def MAX_EVENT_IDS_def)
  qed
  then show ?thesis using \<open>within_quota env st\<close> card_keys[OF q] by (simp add: within_quota_def)
qed

theorem reachable_outbox_bounded_witness:
  "length (queue_files demo_committed) \<le> 8"
  using reachable_outbox_bounded[OF demo_env_ok demo_committed_reachable] by (simp add: demo_env_def)

section \<open>Recovery\<close>

lemma reconcile_found:
  assumes inv: "outbox_inv env st" and r: "stored env st e = Some r" and body: "map_of (prepared_files st) e = Some body"
    and a: "IDENTIFIER s" "validate_checkpoint cp = Inr c"
  obtains p where "read_prepared None env (age_files st) body = Inr p" "metadata_ok env (prepared_metadata p)"
    "DIGEST (prepared_sha256 p)" "0 \<le> prepared_size p" "prepared_size p \<le> MAX_CIPHERTEXT_BYTES"
    "prep_map env st e = Some (prepared_sha256 p, prepared_size p)"
    "reconcile_prepared env v pub (JStr e) (JStr s) cp JNull (JBool fin) st = reattach env v pub fin (prepared_metadata p) p r st"
proof -
  note q = outbox_inv_queue[OF inv]
  have prep: "prep_inv env st" using inv by (simp add: outbox_inv_def)
  from prep_inv_read[OF prep body] obtain p where p: "read_prepared None env (age_files st) body = Inr p"
    "read_prepared (Some e) env (age_files st) body = Inr p" "prepared_event_id p = e" "metadata_ok env (prepared_metadata p)"
    "prepared_size p \<le> MAX_CIPHERTEXT_BYTES" "DIGEST (prepared_sha256 p)" "0 \<le> prepared_size p"
    "prep_map env st e = Some (prepared_sha256 p, prepared_size p)" by metis
  have none: "validate_metadata env (or_empty JNull) = Inr []"
    using validate_metadata_again[of env "[]"] 
    by (simp add: or_empty_def metadata_ok_def json_dumps_def MAX_METADATA_BYTES_def)
  have valid: "validate_metadata env (JObj (dict_union (prepared_metadata p) [])) = Inr (prepared_metadata p)"
    using validate_metadata_again[OF p(4)] by (simp add: dict_union_def)
  have f: "r \<in> set (safe_records env st)" "q_event_id r = e" using stored_safe[OF q r] by simp_all
  have same: "x = r" if "x \<in> set (safe_records env st)" "q_event_id x = e" for x
    using inv_safe_record[OF q that(1)] that(2) r by (simp add: stored_Some)
  have "find (\<lambda>r. q_event_id r = e) (safe_records env st) \<noteq> None" using f by (simp add: find_None_iff) blast
  then obtain x where x: "find (\<lambda>r. q_event_id r = e) (safe_records env st) = Some x" by blast
  have "x \<in> set (safe_records env st)" "q_event_id x = e" using x by (auto simp: find_Some_iff)
  then have "find (\<lambda>r. q_event_id r = e) (safe_records env st) = Some r" using same x by simp
  then have "reconcile_prepared env v pub (JStr e) (JStr s) cp JNull (JBool fin) st = reattach env v pub fin (prepared_metadata p) p r st"
    using stored_good[OF inv r] a body p(2,3) none valid
    by (simp add: reconcile_prepared_def reads_st_def as_identifier_def Let_def inv_no_quarantine[OF q] raise_if_def)
  then show ?thesis using that[OF p(1,4,6,7,5,8)] by blast
qed

text \<open>
  C9. A crash between the two publications of a preparation loses nothing: whenever a prepared
  ciphertext is on disk while its queue record has not got past the snapshot, and no live
  lease is on the record, reconciling the event succeeds and leaves the record prepared, free
  to be claimed, with the digest and size of that ciphertext.
\<close>

theorem interrupted_preparation_recovered:
  assumes "env_ok env" "reachable env st" "stored env st e = Some r" "map_of (prepared_files st) e = Some body"
    and early: "q_resume_state r \<in> {QUEUED, SOURCE_SNAPSHOTTED}"
    and stale: "case q_lease_until r of None \<Rightarrow> True | Some l \<Rightarrow> (\<exists>now. now_of v = Inr now \<and> l \<le> now)"
    and a: "IDENTIFIER s" "validate_checkpoint cp = Inr c"
  shows "\<exists>p r'. read_prepared None env (age_files st) body = Inr p \<and>
    reconcile_prepared env v Published (JStr e) (JStr s) cp JNull (JBool fin) st =
      (Inr r', snd (publish_record env Published r' st)) \<and>
    stored env (snd (publish_record env Published r' st)) e = Some (canon r') \<and>
    q_state r' = PREPARED_ENCRYPTED \<and> claimable r' \<and>
    q_ciphertext_sha256 r' = Some (prepared_sha256 p) \<and> q_ciphertext_size r' = Some (prepared_size p)"
proof -
  have inv: "outbox_inv env st" by (rule reachable_inv[OF assms(1,2)])
  from reconcile_found[OF inv assms(3,4) a] obtain p where p: "read_prepared None env (age_files st) body = Inr p"
    "metadata_ok env (prepared_metadata p)" "DIGEST (prepared_sha256 p)" "0 \<le> prepared_size p" "prepared_size p \<le> MAX_CIPHERTEXT_BYTES"
    "prep_map env st e = Some (prepared_sha256 p, prepared_size p)"
    "reconcile_prepared env v Published (JStr e) (JStr s) cp JNull (JBool fin) st = reattach env v Published fin (prepared_metadata p) p r st"
    by metis
  let ?x = "r\<lparr>q_owner := None, q_lease_until := None\<rparr>"
  let ?r = "reattached_record fin (prepared_metadata p) p ?x"
  note f = stored_good[OF inv assms(3)]
  have x: "(if q_owner r \<noteq> None then ?x else r) = ?x" using good_owner_lease[of env "prep_map env st" r] f by (cases r) auto
  have g: "good env (prep_map env st) ?r" using good_reattached[OF _ p(2-5)] f p(6) by simp
  have "q_state r = COMMITTED \<Longrightarrow> q_resume_state r = INDEX_PUBLISHED" using f by (simp add: good_unfold)
  then have "q_state r \<noteq> COMMITTED" using early by auto
  moreover have "(if q_owner r \<noteq> None \<and> q_lease_until r \<noteq> None
      then bind_r (now_of v) (\<lambda>now. raise_if (the (q_lease_until r) > now) LeaseConflict) else Inr ()) = Inr ()"
    using stale by (auto simp: raise_if_def split: option.splits)
  ultimately have "reattach env v Published fin (prepared_metadata p) p r st = (Inr ?r, snd (publish_record env Published ?r st))"
    unfolding reattach_def Let_def x using early by (auto simp: reads_st_def publish_return_def bind_st_def publish_record_def)
  moreover have "stored env (snd (publish_record env Published ?r st)) e = Some (canon ?r)"
    using stored_publish[OF g, of Published st e] f by simp
  moreover have "q_state ?r = PREPARED_ENCRYPTED \<and> claimable ?r \<and> q_ciphertext_sha256 ?r = Some (prepared_sha256 p) \<and>
      q_ciphertext_size ?r = Some (prepared_size p)" by (simp add: reattached_record_def claimable_def)
  ultimately show ?thesis unfolding p(7) using p(1) by blast
qed

text \<open>The owner of the example dies after publishing the ciphertext; the record is recovered at time 200.\<close>

definition demo_crashed :: outbox where
  "demo_crashed = exec demo_env (PrepareEncrypted demo_clock Published FailedBefore (JStr ''event'') (JStr ''owner'') ''ciphertext'' (JObj [])) demo_held"

lemma demo_crashed_state: "demo_crashed = demo_held\<lparr>prepared_files := [(''event'', prepared_body demo_env demo_prepared)]\<rparr>"
proof -
  have inv: "outbox_inv demo_env demo_held" by (rule reachable_inv[OF demo_env_ok demo_held_reachable])
  have b: "int (length ''ciphertext'') \<le> MAX_CIPHERTEXT_BYTES" by (simp add: MAX_CIPHERTEXT_BYTES_def)
  show ?thesis
    unfolding demo_crashed_def demo_prepared_def
    by (rule conjunct2[OF exec_prepare(2)[OF inv demo_env_ok demo_held_stored claim_holds_require[OF demo_held_facts(5) demo_clock_reads(2)]
          demo_identifiers(1) demo_held_facts(2) b demo_metadata demo_held_files demo_small[unfolded demo_prepared_def]]])
qed

theorem interrupted_preparation_recovered_witness:
  "\<exists>r'. fst (reconcile_prepared demo_env (JInt 200) Published (JStr ''event'') (JStr ''session'') demo_checkpoint JNull (JBool False) demo_crashed)
     = Inr r' \<and> claimable r' \<and> q_ciphertext_size r' \<noteq> None"
proof -
  have reach: "reachable demo_env demo_crashed"
    unfolding demo_crashed_def by (rule reachable.step[OF demo_held_reachable]) simp_all
  have stored: "stored demo_env demo_crashed ''event'' = Some demo_held_record"
    using demo_held_stored stored_queue_cong[of demo_crashed demo_held] by (simp add: demo_crashed_state)
  have files: "map_of (prepared_files demo_crashed) ''event'' = Some (prepared_body demo_env demo_prepared)" by (simp add: demo_crashed_state)
  have clock: "now_of (JInt 200) = Inr 200" using whole_seconds[of 200] by simp
  have names: "IDENTIFIER ''session''" "validate_checkpoint demo_checkpoint = Inr (t_checkpoint demo_trigger)" by code_simp+
  show ?thesis
    using interrupted_preparation_recovered[OF demo_env_ok reach stored files _ _ names, of "JInt 200" False]
    by (auto simp: demo_held_facts clock)
qed

section \<open>Files\<close>

text \<open>
  C15. A queue record survives its file: the reader returns the record that was written, its
  metadata sorted by key, and writing that record again gives the same bytes.
\<close>

theorem queue_record_roundtrip:
  assumes "record_ok env r" "record_floats env r"
  shows "read_record env (record_body env r) = Inr (canon r) \<and> record_body env (canon r) = record_body env r"
  using read_record_body[OF assms] record_body_canon by simp

theorem queue_record_roundtrip_witness:
  "read_record demo_env (record_body demo_env demo_held_record) = Inr demo_held_record"
proof -
  have inv: "outbox_inv demo_env demo_held" by (rule reachable_inv[OF demo_env_ok demo_held_reachable])
  note g = stored_good[OF inv demo_held_stored]
  have "record_ok demo_env demo_held_record" "record_floats demo_env demo_held_record" using g by (simp_all add: good_def)
  from queue_record_roundtrip[OF this] show ?thesis using g by simp
qed

text \<open>
  C16. The reader of queue files accepts only well-formed records, whatever the bytes: ids are
  identifiers, the record's own id is among at most 64 distinct event ids, it is final exactly
  when it names a final event, it has an owner exactly when it has a lease, a claimed record
  has an owner, and a committed record has none but carries digest, size, object key and index.
\<close>

theorem queue_reader_sound:
  assumes "read_record env bytes = Inr r"
  shows "IDENTIFIER (q_event_id r) \<and> q_event_id r \<in> set (q_event_ids r) \<and> list_all IDENTIFIER (q_event_ids r) \<and>
    distinct (q_event_ids r) \<and> length (q_event_ids r) \<le> 64 \<and> (q_is_final r \<longleftrightarrow> q_final_event_id r \<noteq> None) \<and>
    (q_owner r = None \<longleftrightarrow> q_lease_until r = None) \<and> (q_state r = CLAIMED \<longrightarrow> q_owner r \<noteq> None) \<and>
    (q_state r = COMMITTED \<longrightarrow> q_owner r = None \<and> q_ciphertext_sha256 r \<noteq> None \<and> q_ciphertext_size r \<noteq> None \<and>
       q_object_key r \<noteq> None \<and> q_index_id r \<noteq> None)"
proof -
  have ok: "record_ok env r" by (rule read_record_sound[OF assms])
  then have rel: "check_relations r = Inr ()" by (simp add: record_ok_def)
  note parts = rel[unfolded relations_iff]
  have "(q_owner r = None \<longleftrightarrow> q_lease_until r = None)" "q_is_final r \<longleftrightarrow> q_final_event_id r \<noteq> None" "q_event_id r \<in> set (q_event_ids r)"
    using parts by blast+
  moreover have "q_state r = CLAIMED \<Longrightarrow> q_owner r \<noteq> None"
    "q_state r = COMMITTED \<Longrightarrow> q_owner r = None \<and> q_ciphertext_sha256 r \<noteq> None \<and> q_ciphertext_size r \<noteq> None \<and>
       q_object_key r \<noteq> None \<and> q_index_id r \<noteq> None"
    using parts by (cases "q_owner r"; simp)+
  ultimately show ?thesis using ok by (simp add: record_ok_def fields_ok_def MAX_EVENT_IDS_def)
qed

theorem queue_reader_sound_witness:
  "q_event_id demo_held_record \<in> set (q_event_ids demo_held_record)"
proof -
  have inv: "outbox_inv demo_env demo_held" by (rule reachable_inv[OF demo_env_ok demo_held_reachable])
  note g = stored_good[OF inv demo_held_stored]
  have "read_record demo_env (record_body demo_env demo_held_record) = Inr demo_held_record"
    using read_record_body[of demo_env demo_held_record] g by (simp add: good_def)
  from queue_reader_sound[OF this] show ?thesis by simp
qed

text \<open>
  C17. A prepared record survives its file with its ciphertext: for every ciphertext within the
  size limit the base64 text decodes to the same bytes, the reader accepts the record and
  returns those bytes with their digest and size.
\<close>

theorem prepared_record_roundtrip:
  assumes "prepared_ok env p"
  shows "\<exists>q. read_prepared name env ages (prepared_body env p) = Inr (InlineRecord q) \<and> p_ciphertext q = p_ciphertext p \<and>
    p_event_id q = p_event_id p \<and> p_ciphertext_sha256 q = sha256_hex env (p_ciphertext p) \<and>
    p_ciphertext_size q = int (length (p_ciphertext p)) \<and> p_metadata q = jsort_obj (p_metadata p)"
  using read_prepared_body[OF assms] assms by (simp add: prepared_ok_def)

theorem prepared_record_roundtrip_witness:
  "\<exists>q. read_prepared None demo_env [] (prepared_body demo_env demo_prepared) = Inr (InlineRecord q) \<and> p_ciphertext q = ''ciphertext''"
proof -
  have "DIGEST (sha256_hex demo_env ''ciphertext'')" using demo_env_ok by (simp add: env_ok_def)
  moreover have "metadata_ok demo_env []" by code_simp
  ultimately have "prepared_ok demo_env demo_prepared"
    by (simp add: prepared_ok_def demo_prepared_def demo_identifiers MAX_CIPHERTEXT_BYTES_def)
  from prepared_record_roundtrip[OF this, of None "[]"] show ?thesis by (auto simp: demo_prepared_def)
qed

end
