(* ===== verification/References.thy ===== *)
theory References
  imports CatalogLaws
begin

text \<open>
  Reference planning for a Dimension's shared restic repository
  (\<^verbatim>\<open>src/josh_room/room_store_references.py\<close>): the index from catalog records to the
  restic snapshots their descriptors name, its comparison with the repository's inventory, and
  the two plans that delete: the removal of one catalog record and the cleanup of orphans.

  An identity is the pair of a Room id and a logical JAT id, a reference the pair of a
  repository id and a snapshot id; both are ordered as the ordered dataclasses are. A
  frozenset is a set, a mapping an association list.
\<close>

section \<open>Data\<close>

type_synonym jat_identity = "string \<times> string"
type_synonym restic_ref = "string \<times> string"

record SnapshotReferences =
  sr_catalog_records :: "jat_identity set"
  sr_descriptor_records :: "jat_identity set"
  sr_roles :: "string set"
  sr_tree_id :: string

record CatalogRecordReferences =
  cr_identity :: jat_identity
  cr_payload_kind :: string
  cr_object_key :: string
  cr_restic_snapshots :: "restic_ref set"

record ReferenceIndex =
  ix_dimension_id :: string
  ix_encryption_domain_id :: string
  ix_catalog_revision :: int
  ix_repository_id :: "string option"
  ix_fingerprint :: string
  ix_records :: "(jat_identity, CatalogRecordReferences) dict"
  ix_references :: "(restic_ref, SnapshotReferences) dict"
  ix_legacy_objects :: "string set"

definition catalog_referenced :: "ReferenceIndex \<Rightarrow> restic_ref set" where
  "catalog_referenced ix = set (map fst (filter (\<lambda>(r, v). sr_catalog_records v \<noteq> {}) (ix_references ix)))"

definition descriptor_referenced :: "ReferenceIndex \<Rightarrow> restic_ref set" where
  "descriptor_referenced ix = set (map fst (filter (\<lambda>(r, v). sr_descriptor_records v \<noteq> {}) (ix_references ix)))"

record ResticReachabilityReport =
  rr_repository_id :: string
  rr_catalog_revision :: int
  rr_fingerprint :: string
  rr_catalog_referenced :: "restic_ref set"
  rr_descriptor_referenced :: "restic_ref set"
  rr_inventory :: "restic_ref set"
  rr_restic_only_orphans :: "restic_ref set"
  rr_missing_from_restic :: "restic_ref set"
  rr_component_only :: "restic_ref set"
  rr_legacy_objects :: "string set"

record CatalogRecordRemovalPlan =
  rp_catalog_reference :: jat_identity
  rp_expected_revision :: int
  rp_order :: "string list"
  rp_object_keys_to_delete :: "string set"
  rp_snapshots_to_forget :: "restic_ref set"
  rp_missing_snapshots :: "restic_ref set"
  rp_never_prune :: bool
  rp_never_unlock :: bool

text \<open>
  An aware datetime is its instant in microseconds; a naive one, or anything else, is absent.
\<close>

record GracePeriodEvidence =
  ge_repository_id :: string
  ge_snapshot_id :: string
  ge_first_observed_at :: "int option"
  ge_last_observed_at :: "int option"
  ge_observation_count :: json

record OrphanCleanupPlan =
  oc_eligible :: "restic_ref set"
  oc_missing_evidence :: "restic_ref set"
  oc_evidence :: "(restic_ref, GracePeriodEvidence) dict"
  oc_grace_period :: int
  oc_never_prune :: bool
  oc_never_unlock :: bool


section \<open>Building the index\<close>

text \<open>\<^verbatim>\<open>except (TypeError, ValueError)\<close> with a ValueError raised instead.\<close>

definition wrap_error :: "string \<Rightarrow> 'a result \<Rightarrow> 'a result" where
  "wrap_error message r =
     (case r of Inr x \<Rightarrow> Inr x
      | Inl e \<Rightarrow> if is_value_error e \<or> (case e of TypeError _ \<Rightarrow> True | _ \<Rightarrow> False) then Inl (ValueError message) else Inl e)"

definition mutable_catalog :: "jat_lib \<Rightarrow> catalog \<Rightarrow> catalog result" where
  "mutable_catalog lib c =
     wrap_error ''Dimension catalog is invalid''
       (cat_from_body lib (cat_body c) (jget (cat_body c) ''dimension_id'') (cat_domain c))"

text \<open>The snapshots of a body in the order of the two nested loops.\<close>

definition body_entries :: "jobj \<Rightarrow> (jat_identity \<times> jobj) list" where
  "body_entries body =
     concat (map (\<lambda>(room, project). map (\<lambda>(sid, v). ((room, sid), obj_of v)) (snapshots_of project)) (projects_of body))"

definition expected_keys :: "jobj \<Rightarrow> jat_identity set result" where
  "expected_keys body =
     bind_r (checks (map (\<lambda>(i, d). raise_if (has_key d ''payload_kind'' \<and> jget d ''payload_kind'' \<noteq> JStr ''room-store-v1'')
        (ValueError ''catalog contains an unsupported payload kind'')) (body_entries body))) (\<lambda>_.
     Inr (set (map fst (filter (\<lambda>(i, d). has_key d ''payload_kind'') (body_entries body)))))"

record ref_acc =
  ra_records :: "(jat_identity, CatalogRecordReferences) dict"
  ra_catalog :: "(restic_ref, jat_identity set) dict"
  ra_descriptor :: "(restic_ref, jat_identity set) dict"
  ra_roles :: "(restic_ref, string set) dict"
  ra_trees :: "(restic_ref, string) dict"
  ra_repositories :: "string set"
  ra_legacy :: "string set"

definition empty_acc :: ref_acc where
  "empty_acc = \<lparr>ra_records = [], ra_catalog = [], ra_descriptor = [], ra_roles = [], ra_trees = [],
     ra_repositories = {}, ra_legacy = {}\<rparr>"

text \<open>\<^verbatim>\<open>d.setdefault(k, set()).add(x)\<close>.\<close>

definition dict_add :: "'k \<Rightarrow> 'a \<Rightarrow> ('k, 'a set) dict \<Rightarrow> ('k, 'a set) dict" where
  "dict_add k x d = AList.update k (insert x (case map_of d k of None \<Rightarrow> {} | Some s \<Rightarrow> s)) d"

definition add_reference :: "restic_ref \<Rightarrow> string \<Rightarrow> jat_identity \<Rightarrow> string \<Rightarrow> ref_acc \<Rightarrow> ref_acc result" where
  "add_reference r tree i role acc =
     (let trees = setdefault r tree (ra_trees acc) in
      if map_of trees r \<noteq> Some tree then Inl (ValueError ''Room Store snapshot tree binding mismatch'')
      else Inr (acc\<lparr>ra_trees := trees, ra_catalog := dict_add r i (ra_catalog acc),
        ra_descriptor := dict_add r i (ra_descriptor acc), ra_roles := dict_add r role (ra_roles acc)\<rparr>))"

definition json_ref :: "json \<Rightarrow> restic_ref" where
  "json_ref v = (str_of (jget (obj_of v) ''repository_id''), str_of (jget (obj_of v) ''snapshot_id''))"

definition json_tree :: "json \<Rightarrow> string" where
  "json_tree v = str_of (jget (obj_of v) ''tree_id'')"

text \<open>One pass of the component loop: a null component is skipped.\<close>

fun add_components :: "jobj \<Rightarrow> jat_identity \<Rightarrow> string list \<Rightarrow> ref_acc \<times> restic_ref set \<Rightarrow> (ref_acc \<times> restic_ref set) result" where
  "add_components components i [] acc = Inr acc"
| "add_components components i (name # names) acc =
     (if jget components name = JNull then add_components components i names acc
      else
        let s = jget (obj_of (jget components name)) ''snapshot'' in
        bind_r (add_reference (json_ref s) (json_tree s) i name (fst acc)) (\<lambda>a.
        add_components components i names (a, insert (json_ref s) (snd acc))))"

definition add_logical_entry ::
  "jat_lib \<Rightarrow> json \<Rightarrow> json \<Rightarrow> jat_identity \<Rightarrow> jobj \<Rightarrow> logical_jat \<Rightarrow> ref_acc \<Rightarrow> ref_acc result" where
  "add_logical_entry lib dimension domain i d descriptor acc =
     bind_r (wrap_error ''logical descriptor does not corroborate the catalog''
       (corroborate_logical_snapshot lib (fst i) d descriptor)) (\<lambda>_.
     bind_r (jat_to_dict lib descriptor) (\<lambda>b.
     let body = obj_of b; workspace = jget body ''workspace'' in
     bind_r (raise_if (jget body ''dimension_id'' \<noteq> dimension \<or> jget body ''encryption_domain_id'' \<noteq> domain)
       (ValueError ''logical descriptor Dimension binding mismatch'')) (\<lambda>_.
     bind_r (raise_if (\<not> is_str (jget (obj_of workspace) ''repository_id'') \<or>
          \<not> is_sha256 (str_of (jget (obj_of workspace) ''repository_id'')))
       (ValueError ''logical descriptor repository binding is invalid'')) (\<lambda>_.
     bind_r (add_reference (json_ref workspace) (json_tree workspace) i ''workspace''
       (acc\<lparr>ra_repositories := insert (fst (json_ref workspace)) (ra_repositories acc)\<rparr>)) (\<lambda>acc1.
     bind_r (add_components (obj_of (jget body ''components'')) i COMPONENTS (acc1, {json_ref workspace})) (\<lambda>(acc2, refs).
     Inr (acc2\<lparr>ra_records := AList.update i
       \<lparr>cr_identity = i, cr_payload_kind = ''room-store-v1'', cr_object_key = str_of (jget d ''object_key''),
        cr_restic_snapshots = refs\<rparr> (ra_records acc2)\<rparr>)))))))"

definition add_entry ::
  "jat_lib \<Rightarrow> json \<Rightarrow> json \<Rightarrow> (jat_identity, logical_jat) dict \<Rightarrow> jat_identity \<times> jobj \<Rightarrow> ref_acc \<Rightarrow> ref_acc result" where
  "add_entry lib dimension domain descriptors entry acc =
     (case entry of (i, d) \<Rightarrow>
        if \<not> has_key d ''payload_kind'' then
          Inr (acc\<lparr>ra_legacy := insert (str_of (jget d ''object_key'')) (ra_legacy acc),
            ra_records := AList.update i
              \<lparr>cr_identity = i, cr_payload_kind = ''legacy-jat-hauler-v1'', cr_object_key = str_of (jget d ''object_key''),
               cr_restic_snapshots = {}\<rparr> (ra_records acc)\<rparr>)
        else (case map_of descriptors i of
                None \<Rightarrow> Inl (KeyError (snd i))
              | Some descriptor \<Rightarrow> add_logical_entry lib dimension domain i d descriptor acc))"

fun add_entries ::
  "jat_lib \<Rightarrow> json \<Rightarrow> json \<Rightarrow> (jat_identity, logical_jat) dict \<Rightarrow> (jat_identity \<times> jobj) list \<Rightarrow> ref_acc \<Rightarrow> ref_acc result" where
  "add_entries lib dimension domain descriptors [] acc = Inr acc"
| "add_entries lib dimension domain descriptors (e # es) acc =
     bind_r (add_entry lib dimension domain descriptors e acc) (add_entries lib dimension domain descriptors es)"

definition the_repository :: "string set \<Rightarrow> string option" where
  "the_repository s = (case sorted_list_of_set s of [] \<Rightarrow> None | r # _ \<Rightarrow> Some r)"

definition pair_json :: "string \<times> string \<Rightarrow> json" where
  "pair_json p = JList [JStr (fst p), JStr (snd p)]"

definition set_at :: "('k, 'a set) dict \<Rightarrow> 'k \<Rightarrow> 'a set" where
  "set_at d k = (case map_of d k of None \<Rightarrow> {} | Some s \<Rightarrow> s)"

definition fingerprint_body :: "string \<Rightarrow> string \<Rightarrow> int \<Rightarrow> ref_acc \<Rightarrow> json" where
  "fingerprint_body dimension domain revision acc =
     JObj [(''dimension_id'', JStr dimension), (''encryption_domain_id'', JStr domain), (''catalog_revision'', JInt revision),
       (''repository_id'', (case the_repository (ra_repositories acc) of None \<Rightarrow> JNull | Some r \<Rightarrow> JStr r)),
       (''records'', JList (map (\<lambda>(i, r). JObj [(''room_id'', JStr (fst i)), (''logical_jat_id'', JStr (snd i)),
          (''payload_kind'', JStr (cr_payload_kind r)), (''object_key'', JStr (cr_object_key r)),
          (''restic_snapshots'', JList (map pair_json (sorted_list_of_set (cr_restic_snapshots r))))])
          (sort_key fst (ra_records acc)))),
       (''references'', JList (map (\<lambda>(r, tree). JObj [(''repository_id'', JStr (fst r)), (''snapshot_id'', JStr (snd r)),
          (''tree_id'', JStr tree), (''roles'', JList (map JStr (sorted_list_of_set (set_at (ra_roles acc) r)))),
          (''catalog_records'', JList (map pair_json (sorted_list_of_set (set_at (ra_catalog acc) r)))),
          (''descriptor_records'', JList (map pair_json (sorted_list_of_set (set_at (ra_descriptor acc) r))))])
          (sort_key fst (ra_trees acc)))),
       (''legacy_objects'', JList (map JStr (sorted_list_of_set (ra_legacy acc))))]"

definition build_reference_index :: "jat_lib \<Rightarrow> catalog \<Rightarrow> (jat_identity, logical_jat) dict \<Rightarrow> ReferenceIndex result" where
  "build_reference_index lib c0 descriptors =
     bind_r (mutable_catalog lib c0) (\<lambda>c.
     let body = cat_body c; dimension = jget body ''dimension_id''; domain = cat_domain c in
     bind_r (checks [
        raise_if (\<not> py_eq (jget body ''format_version'') (JInt 3)) (ValueError ''Room Store reference index requires catalog v3''),
        raise_if (\<not> is_str dimension \<or> \<not> is_str domain)
          (TypeError ''Room Store Dimension and encryption-domain bindings are invalid'')]) (\<lambda>_.
     bind_r (expected_keys body) (\<lambda>expected.
     bind_r (raise_if (set (map fst descriptors) \<noteq> expected)
       (ValueError ''logical descriptor set is incomplete or contains unknown entries'')) (\<lambda>_.
     bind_r (add_entries lib dimension domain descriptors (body_entries body) empty_acc) (\<lambda>acc.
     bind_r (raise_if (card (ra_repositories acc) > 1)
       (ValueError ''logical descriptors use different Room Store repository bindings'')) (\<lambda>_.
     let revision = int_of (jget body ''revision'') in
     Inr \<lparr>ix_dimension_id = str_of dimension, ix_encryption_domain_id = str_of domain, ix_catalog_revision = revision,
       ix_repository_id = the_repository (ra_repositories acc),
       ix_fingerprint = sha256_hex lib (json_dumps True (float_repr lib) (fingerprint_body (str_of dimension) (str_of domain) revision acc)),
       ix_records = ra_records acc,
       ix_references = map (\<lambda>(r, tree). (r, \<lparr>sr_catalog_records = set_at (ra_catalog acc) r,
         sr_descriptor_records = set_at (ra_descriptor acc) r, sr_roles = set_at (ra_roles acc) r, sr_tree_id = tree\<rparr>)) (ra_trees acc),
       ix_legacy_objects = ra_legacy acc\<rparr>))))))"


section \<open>Inventory and plans\<close>

record RepositoryInfo =
  ri_repository_id :: json
  ri_repository_format :: json

record SnapshotItem =
  si_snapshot_id :: json
  si_tree_id :: json

definition valid_digest :: "json \<Rightarrow> bool" where
  "valid_digest v \<longleftrightarrow> is_str v \<and> is_sha256 (str_of v)"

fun inventory_trees :: "string \<Rightarrow> SnapshotItem list \<Rightarrow> (restic_ref, string) dict \<Rightarrow> (restic_ref, string) dict result" where
  "inventory_trees repository [] d = Inr d"
| "inventory_trees repository (s # ss) d =
     bind_r (checks [
        raise_if (\<not> valid_digest (si_snapshot_id s) \<or> \<not> valid_digest (si_tree_id s))
          (ValueError ''Restic snapshot inventory identity is invalid''),
        raise_if (has_key d (repository, str_of (si_snapshot_id s))) (ValueError ''Restic snapshot inventory contains duplicate IDs'')]) (\<lambda>_.
     inventory_trees repository ss (AList.update (repository, str_of (si_snapshot_id s)) (str_of (si_tree_id s)) d))"

definition compare_restic_inventory :: "ReferenceIndex \<Rightarrow> RepositoryInfo \<Rightarrow> SnapshotItem list \<Rightarrow> ResticReachabilityReport result" where
  "compare_restic_inventory ix repository inventory =
     bind_r (checks [
        raise_if (\<not> valid_digest (ri_repository_id repository)) (ValueError ''Restic repository identity is invalid''),
        raise_if (ri_repository_format repository \<noteq> JInt 2) (ValueError ''Restic repository format is unsupported''),
        raise_if (ix_repository_id ix \<noteq> None \<and> ix_repository_id ix \<noteq> Some (str_of (ri_repository_id repository)))
          (ValueError ''Restic inventory belongs to another Room Store repository'')]) (\<lambda>_.
     let rid = str_of (ri_repository_id repository) in
     bind_r (inventory_trees rid inventory []) (\<lambda>trees.
     bind_r (checks (map (\<lambda>(r, v). raise_if (map_of trees r \<noteq> None \<and> map_of trees r \<noteq> Some (sr_tree_id v))
        (ValueError ''Restic snapshot tree does not match the logical descriptor'')) (ix_references ix))) (\<lambda>_.
     let referenced = catalog_referenced ix \<union> descriptor_referenced ix; ids = set (map fst trees) in
     Inr \<lparr>rr_repository_id = rid, rr_catalog_revision = ix_catalog_revision ix, rr_fingerprint = ix_fingerprint ix,
       rr_catalog_referenced = catalog_referenced ix, rr_descriptor_referenced = descriptor_referenced ix,
       rr_inventory = ids, rr_restic_only_orphans = ids - referenced, rr_missing_from_restic = referenced - ids,
       rr_component_only = set (map fst (filter (\<lambda>(r, v). ''workspace'' \<notin> sr_roles v \<and> sr_roles v \<inter> set COMPONENTS \<noteq> {}) (ix_references ix))),
       rr_legacy_objects = ix_legacy_objects ix\<rparr>)))"

text \<open>The records that stay when one identity is removed, and what they still refer to.\<close>

definition remaining_records :: "ReferenceIndex \<Rightarrow> jat_identity \<Rightarrow> (jat_identity, CatalogRecordReferences) dict" where
  "remaining_records ix i = filter (\<lambda>(k, r). k \<noteq> i) (ix_records ix)"

definition plan_catalog_record_removal :: "ReferenceIndex \<Rightarrow> ResticReachabilityReport \<Rightarrow> jat_identity \<Rightarrow> CatalogRecordRemovalPlan result" where
  "plan_catalog_record_removal ix report i =
     bind_r (raise_if (rr_catalog_revision report \<noteq> ix_catalog_revision ix \<or> rr_fingerprint report \<noteq> ix_fingerprint ix)
       (ValueError ''Restic reachability report belongs to another catalog index'')) (\<lambda>_.
     (case map_of (ix_records ix) i of
        None \<Rightarrow> Inl (ValueError ''catalog record is not present in the reference index'')
      | Some target \<Rightarrow>
          if ix_repository_id ix \<notin> {None, Some []} \<and> ix_repository_id ix \<noteq> Some (rr_repository_id report)
          then Inl (ValueError ''Restic inventory belongs to another Room Store repository'')
          else
            let remaining = map snd (remaining_records ix i);
                unreachable = cr_restic_snapshots target - (\<Union>r \<in> set remaining. cr_restic_snapshots r) in
            Inr \<lparr>rp_catalog_reference = i, rp_expected_revision = ix_catalog_revision ix,
              rp_order = [''remove-catalog-reference'', ''delete-unreferenced-catalog-objects'', ''forget-unreachable-restic-snapshots''],
              rp_object_keys_to_delete =
                (if list_ex (\<lambda>r. cr_object_key r = cr_object_key target) remaining then {} else {cr_object_key target}),
              rp_snapshots_to_forget = unreachable \<inter> rr_inventory report,
              rp_missing_snapshots = unreachable - rr_inventory report,
              rp_never_prune = True, rp_never_unlock = True\<rparr>))"

definition is_qualified :: "ResticReachabilityReport \<Rightarrow> int \<Rightarrow> int \<Rightarrow> restic_ref \<Rightarrow> GracePeriodEvidence \<Rightarrow> bool" where
  "is_qualified report now grace r item \<longleftrightarrow>
     (case (ge_first_observed_at item, ge_last_observed_at item) of
        (Some t1, Some t2) \<Rightarrow>
          ge_repository_id item = rr_repository_id report \<and> ge_snapshot_id item = snd r \<and>
          type_is_int (ge_observation_count item) \<and> int_of (ge_observation_count item) \<ge> 2 \<and>
          t1 \<le> t2 \<and> t2 \<le> now \<and> now - t1 \<ge> grace
      | _ \<Rightarrow> False)"

text \<open>A value of the evidence mapping that is no \<^verbatim>\<open>GracePeriodEvidence\<close> is absent.\<close>

definition has_evidence ::
  "ResticReachabilityReport \<Rightarrow> (restic_ref, GracePeriodEvidence option) dict \<Rightarrow> int \<Rightarrow> int \<Rightarrow> restic_ref \<Rightarrow> bool" where
  "has_evidence report evidence now grace r \<longleftrightarrow>
     (case map_of evidence r of Some (Some item) \<Rightarrow> is_qualified report now grace r item | _ \<Rightarrow> False)"

definition plan_orphan_cleanup ::
  "ResticReachabilityReport \<Rightarrow> (restic_ref, GracePeriodEvidence option) dict \<Rightarrow> int option \<Rightarrow> int \<Rightarrow> OrphanCleanupPlan result" where
  "plan_orphan_cleanup report evidence now grace =
     bind_r (checks [
        raise_if (now = None) (ValueError ''orphan cleanup time must include a timezone''),
        raise_if (grace \<le> 0) (ValueError ''orphan cleanup requires a positive grace period''),
        raise_if (\<not> set (map fst evidence) \<subseteq> rr_restic_only_orphans report)
          (ValueError ''grace-period evidence names a non-orphan snapshot'')]) (\<lambda>_.
     let eligible = Set.filter (has_evidence report evidence (the now) grace) (rr_restic_only_orphans report) in
     Inr \<lparr>oc_eligible = eligible, oc_missing_evidence = rr_restic_only_orphans report - eligible,
       oc_evidence = map (\<lambda>(r, x). (r, the x)) (filter (\<lambda>(r, x). r \<in> eligible) evidence),
       oc_grace_period = grace, oc_never_prune = True, oc_never_unlock = True\<rparr>)"

section \<open>What the index contains\<close>

text \<open>The restic snapshots a descriptor names: its workspace and its components that are not null.\<close>

definition descriptor_refs :: "jat_lib \<Rightarrow> logical_jat \<Rightarrow> restic_ref set" where
  "descriptor_refs lib descriptor =
     (case jat_to_dict lib descriptor of
        Inl _ \<Rightarrow> {}
      | Inr b \<Rightarrow>
          insert (json_ref (jget (obj_of b) ''workspace''))
            {json_ref (jget (obj_of (jget (obj_of (jget (obj_of b) ''components'')) name)) ''snapshot'') | name.
               name \<in> set COMPONENTS \<and> jget (obj_of (jget (obj_of b) ''components'')) name \<noteq> JNull})"

definition entry_refs :: "jat_lib \<Rightarrow> (jat_identity, logical_jat) dict \<Rightarrow> jat_identity \<times> jobj \<Rightarrow> restic_ref set" where
  "entry_refs lib descriptors e =
     (if has_key (snd e) ''payload_kind''
      then (case map_of descriptors (fst e) of None \<Rightarrow> {} | Some x \<Rightarrow> descriptor_refs lib x) else {})"

text \<open>The relation between snapshots and the records that refer to them.\<close>

definition holds :: "ref_acc \<Rightarrow> (restic_ref \<times> jat_identity) set" where
  "holds acc = {(r, i). i \<in> set_at (ra_catalog acc) r}"

text \<open>Both relations agree, and a tree is recorded exactly for the snapshots that are referred to.\<close>

definition acc_ok :: "ref_acc \<Rightarrow> bool" where
  "acc_ok acc \<longleftrightarrow> wf_dict (ra_records acc) \<and> ra_descriptor acc = ra_catalog acc \<and> (\<forall>r. map_of (ra_trees acc) r \<noteq> None \<longleftrightarrow> set_at (ra_catalog acc) r \<noteq> {})"

lemma set_at_add: "set_at (dict_add k x d) k' = (if k' = k then insert x (set_at d k) else set_at d k')"
  by (simp add: set_at_def dict_add_def map_of_update)

lemma map_of_setdefault_None: "map_of (setdefault k v d) k' = (if map_of d k = None \<and> k' = k then Some v else map_of d k')"
proof (cases "map_of d k")
  case None
  then have "\<not> has_key d k" by (simp only: map_of_None_key not_False_eq_True)
  then show ?thesis using None by (simp add: setdefault_def map_add_def split: option.split)
next
  case (Some x)
  then have "has_key d k" by (auto dest: map_of_SomeD intro: rev_image_eqI)
  then show ?thesis using Some by (simp add: setdefault_def)
qed

lemma add_reference_Inr:
  assumes "add_reference r tree i role acc = Inr a" "acc_ok acc"
  shows "acc_ok a \<and> holds a = insert (r, i) (holds acc) \<and> ra_records a = ra_records acc"
proof -
  have a: "a = acc\<lparr>ra_trees := setdefault r tree (ra_trees acc), ra_catalog := dict_add r i (ra_catalog acc),
        ra_descriptor := dict_add r i (ra_descriptor acc), ra_roles := dict_add r role (ra_roles acc)\<rparr>"
    using assms(1) by (simp add: add_reference_def Let_def split: if_splits)
  show ?thesis using assms(2) by (auto simp: a acc_ok_def holds_def set_at_add map_of_setdefault_None split: if_splits)
qed

definition component_refs_of :: "jobj \<Rightarrow> string list \<Rightarrow> restic_ref set" where
  "component_refs_of components names =
     {json_ref (jget (obj_of (jget components name)) ''snapshot'') | name. name \<in> set names \<and> jget components name \<noteq> JNull}"

lemma component_refs_Cons:
  "component_refs_of components (name # names) =
     (if jget components name = JNull then {} else {json_ref (jget (obj_of (jget components name)) ''snapshot'')}) \<union>
     component_refs_of components names"
  by (auto simp: component_refs_of_def)

lemma add_components_Inr:
  assumes "add_components components i names (acc, s) = Inr (a, s')" "acc_ok acc"
  shows "acc_ok a \<and> s' = s \<union> component_refs_of components names \<and>
    holds a = holds acc \<union> component_refs_of components names \<times> {i} \<and> ra_records a = ra_records acc"
  using assms
proof (induction names arbitrary: acc s)
  case Nil
  then show ?case by (simp add: component_refs_of_def)
next
  case (Cons name names)
  show ?case
  proof (cases "jget components name = JNull")
    case True
    then show ?thesis using Cons by (simp add: component_refs_Cons)
  next
    case False
    let ?s = "jget (obj_of (jget components name)) ''snapshot''"
    obtain a1 where a1: "add_reference (json_ref ?s) (json_tree ?s) i name acc = Inr a1"
      "add_components components i names (a1, insert (json_ref ?s) s) = Inr (a, s')"
      using Cons.prems(1) False by (auto simp: Let_def check_simps)
    note r = add_reference_Inr[OF a1(1) Cons.prems(2)]
    show ?thesis using Cons.IH[OF a1(2)] r False by (auto simp: component_refs_Cons)
  qed
qed

lemma add_entry_Inr:
  assumes "add_entry lib di dn descs e acc = Inr a" "acc_ok acc"
  shows "acc_ok a \<and> holds a = holds acc \<union> entry_refs lib descs e \<times> {fst e} \<and>
    (\<exists>kind. ra_records a = AList.update (fst e) \<lparr>cr_identity = fst e, cr_payload_kind = kind,
       cr_object_key = str_of (jget (snd e) ''object_key''), cr_restic_snapshots = entry_refs lib descs e\<rparr> (ra_records acc))"
proof (cases "has_key (snd e) ''payload_kind''")
  case False
  obtain i d where e: "e = (i, d)" by (cases e)
  have a: "a = acc\<lparr>ra_legacy := insert (str_of (jget d ''object_key'')) (ra_legacy acc),
            ra_records := AList.update i
              \<lparr>cr_identity = i, cr_payload_kind = ''legacy-jat-hauler-v1'', cr_object_key = str_of (jget d ''object_key''),
               cr_restic_snapshots = {}\<rparr> (ra_records acc)\<rparr>"
    using assms(1) False by (simp add: add_entry_def e)
  have "acc_ok a" using assms(2) unfolding acc_ok_def a by (simp add: distinct_update)
  moreover have "holds a = holds acc" unfolding holds_def a by simp
  moreover have "entry_refs lib descs e = {}" using False by (simp add: entry_refs_def)
  ultimately show ?thesis by (auto simp: a e)
next
  case True
  obtain i d where e: "e = (i, d)" by (cases e)
  obtain x where x: "map_of descs i = Some x" "add_logical_entry lib di dn i d x acc = Inr a"
    using assms(1) True by (auto simp: add_entry_def e split: option.splits)
  from x(2) obtain b acc1 acc2 refs where b: "jat_to_dict lib x = Inr b"
    and a1: "add_reference (json_ref (jget (obj_of b) ''workspace'')) (json_tree (jget (obj_of b) ''workspace'')) i ''workspace''
       (acc\<lparr>ra_repositories := insert (fst (json_ref (jget (obj_of b) ''workspace''))) (ra_repositories acc)\<rparr>) = Inr acc1"
    and a2: "add_components (obj_of (jget (obj_of b) ''components'')) i COMPONENTS (acc1, {json_ref (jget (obj_of b) ''workspace'')}) = Inr (acc2, refs)"
    and a: "a = acc2\<lparr>ra_records := AList.update i \<lparr>cr_identity = i, cr_payload_kind = ''room-store-v1'',
       cr_object_key = str_of (jget d ''object_key''), cr_restic_snapshots = refs\<rparr> (ra_records acc2)\<rparr>"
    by (auto simp: add_logical_entry_def Let_def check_simps)
  have ok: "acc_ok (acc\<lparr>ra_repositories := R\<rparr>)" "holds (acc\<lparr>ra_repositories := R\<rparr>) = holds acc" for R
    using assms(2) by (simp_all add: acc_ok_def holds_def)
  note r1 = add_reference_Inr[OF a1 ok(1)]
  note r2 = add_components_Inr[OF a2 conjunct1[OF r1]]
  have refs: "entry_refs lib descs e = refs"
    using True x(1) b r2 by (simp add: entry_refs_def e descriptor_refs_def component_refs_of_def)
  have "acc_ok a" using conjunct1[OF r2] unfolding acc_ok_def a by (simp add: distinct_update)
  moreover have "holds a = holds acc2" by (simp add: a holds_def)
  moreover have "holds acc2 = holds acc \<union> refs \<times> {i}" using r1 r2 ok(2) by auto
  moreover have "ra_records acc2 = ra_records acc" using r1 r2 by simp
  ultimately show ?thesis unfolding refs by (auto simp: a e)
qed

lemma add_entries_Inr:
  assumes "add_entries lib di dn descs es acc = Inr a" "acc_ok acc" "distinct (map fst es)"
  shows "acc_ok a \<and> holds a = holds acc \<union> {(r, i). \<exists>e \<in> set es. i = fst e \<and> r \<in> entry_refs lib descs e} \<and>
    (\<forall>i. case map_of es i of
       None \<Rightarrow> map_of (ra_records a) i = map_of (ra_records acc) i
     | Some d \<Rightarrow> \<exists>cr. map_of (ra_records a) i = Some cr \<and> cr_restic_snapshots cr = entry_refs lib descs (i, d) \<and>
         cr_object_key cr = str_of (jget d ''object_key''))"
  using assms
proof (induction es arbitrary: acc)
  case (Cons e es)
  obtain a1 where a1: "add_entry lib di dn descs e acc = Inr a1" "add_entries lib di dn descs es a1 = Inr a"
    using Cons.prems(1) by (auto simp: check_simps)
  note r1 = add_entry_Inr[OF a1(1) Cons.prems(2)]
  note IH = Cons.IH[OF a1(2) conjunct1[OF r1]]
  have d: "distinct (map fst es)" "map_of es (fst e) = None" using Cons.prems(3) by (simp_all add: map_of_eq_None_iff)
  obtain kind where rec1: "ra_records a1 = AList.update (fst e) \<lparr>cr_identity = fst e, cr_payload_kind = kind,
       cr_object_key = str_of (jget (snd e) ''object_key''), cr_restic_snapshots = entry_refs lib descs e\<rparr> (ra_records acc)"
    using r1 by blast
  have rest: "case map_of es i of
       None \<Rightarrow> map_of (ra_records a) i = map_of (ra_records a1) i
     | Some d \<Rightarrow> \<exists>cr. map_of (ra_records a) i = Some cr \<and> cr_restic_snapshots cr = entry_refs lib descs (i, d) \<and>
         cr_object_key cr = str_of (jget d ''object_key'')" for i
    using IH[OF d(1)] by (elim conjE) (rule spec)
  have "case map_of (e # es) i of
       None \<Rightarrow> map_of (ra_records a) i = map_of (ra_records acc) i
     | Some d \<Rightarrow> \<exists>cr. map_of (ra_records a) i = Some cr \<and> cr_restic_snapshots cr = entry_refs lib descs (i, d) \<and>
         cr_object_key cr = str_of (jget d ''object_key'')" for i
  proof (cases "i = fst e")
    case True
    then have "map_of (ra_records a) i = map_of (ra_records a1) i" using rest[of i] d(2) by simp
    then show ?thesis using True rec1 by (cases e) (simp add: map_of_update)
  next
    case False
    then have "map_of (e # es) i = map_of es i" "map_of (ra_records a1) i = map_of (ra_records acc) i"
      using rec1 by (cases e; simp add: map_of_update)+
    then show ?thesis using rest[of i] by (simp split: option.splits)
  qed
  moreover have "holds a = holds acc \<union> {(r, i). \<exists>x \<in> set (e # es). i = fst x \<and> r \<in> entry_refs lib descs x}"
    using IH[OF d(1)] r1 by auto
  ultimately show ?case using IH[OF d(1)] by blast
qed auto

subsection \<open>The entries of a catalog\<close>

lemma map_of_tagged:
  "map_of (map (\<lambda>(k, v). ((t, k), f v)) xs) (t', k) = (if t' = t then map_option f (map_of xs k) else None)"
  by (induction xs) auto

lemma map_of_rooms:
  assumes "distinct (map fst ps)"
  shows "map_of (concat (map (\<lambda>(t, p). map (\<lambda>(k, v). ((t, k), f v)) (g p)) ps)) (t', k) =
    (case map_of ps t' of None \<Rightarrow> None | Some p \<Rightarrow> map_option f (map_of (g p) k))"
  using assms
proof (induction ps)
  case (Cons x ps)
  obtain t p where x: "x = (t, p)" by (cases x)
  have "map_of ps t = None" using Cons.prems by (simp add: x map_of_eq_None_iff)
  then show ?case using Cons by (auto simp: x map_of_tagged map_add_def split: option.split)
qed simp

lemma distinct_rooms:
  assumes "distinct (map fst ps)" "\<And>t p. (t, p) \<in> set ps \<Longrightarrow> distinct (map fst (g p))"
  shows "distinct (map fst (concat (map (\<lambda>(t, p). map (\<lambda>(k, v). ((t, k), f v)) (g p)) ps)))"
  using assms
proof (induction ps)
  case (Cons x ps)
  obtain t p where x: "x = (t, p)" by (cases x)
  have "distinct (map fst (map (\<lambda>(k, v). ((t, k), f v)) (g p)))"
    using Cons.prems(2)[of t p] by (simp add: x distinct_map inj_on_def case_prod_beta)
  moreover have "t \<notin> fst ` set ps" using Cons.prems(1) by (simp add: x)
  ultimately show ?case using Cons by (force simp: x)
qed simp

lemma body_entries_facts:
  assumes "wf_json (JObj body)"
  shows "distinct (map fst (body_entries body))"
    "map_of (body_entries body) (room, sid) = map_option obj_of (body_snapshot body room sid)"
proof -
  have ps: "distinct (map fst (projects_of body))" using wf_projects_of[OF assms] by simp
  have "distinct (map fst (snapshots_of p))" if "(t, p) \<in> set (projects_of body)" for t p
    using wf_snapshots_of[OF wf_json_map_of[OF wf_projects_of[OF assms], of t p]] that ps by simp
  then show "distinct (map fst (body_entries body))" unfolding body_entries_def using distinct_rooms[OF ps] by blast
  show "map_of (body_entries body) (room, sid) = map_option obj_of (body_snapshot body room sid)"
    unfolding body_entries_def map_of_rooms[OF ps] body_snapshot_def by (simp split: option.split)
qed

text \<open>Copying a version 3 catalog keeps its Rooms.\<close>

lemma mutable_catalog_entries:
  assumes "mutable_catalog lib c0 = Inr c" "py_eq (jget (cat_body c) ''format_version'') (JInt 3)"
  shows "projects_of (cat_body c) = projects_of (cat_body c0) \<and> jget (cat_body c) ''revision'' = jget (cat_body c0) ''revision''"
proof -
  let ?dom = "cat_domain c0"
  let ?v = "if ?dom \<noteq> JNull then AList.update ''encryption_domain_id'' ?dom (cat_body c0) else cat_body c0"
  have "cat_from_body lib (cat_body c0) (jget (cat_body c0) ''dimension_id'') ?dom = Inr c"
    using assms(1) by (auto simp: mutable_catalog_def wrap_error_def split: sum.splits if_splits)
  then obtain v where v: "(if jget ?v ''format_version'' = JInt 1 \<and> jget (cat_body c0) ''dimension_id'' \<noteq> JNull
      then migrate_body (jget (cat_body c0) ''dimension_id'') ?v else Inr ?v) = Inr v" "catalog_make lib v JNull = Inr c"
    by (auto simp: cat_from_body_def Let_def check_simps split: if_splits)
  have c: "cat_body c = v" by (rule catalog_make_body[OF v(2)])
  have "jget v ''format_version'' = JInt 2" if "migrate_body d ?v = Inr v" for d
    using that by (auto simp: migrate_body_def Let_def check_simps split: option.splits json.splits)
  then have "v = ?v" using v(1) assms(2) c by (auto split: if_splits)
  then show ?thesis using c by simp
qed

lemma index_contents:
  assumes "build_reference_index lib c0 descs = Inr ix" "wf_json (JObj (cat_body c0))"
  shows "\<And>room sid v. body_snapshot (cat_body c0) room sid = Some v \<Longrightarrow>
      \<exists>cr. map_of (ix_records ix) (room, sid) = Some cr \<and> cr_object_key cr = key_of v \<and>
        cr_restic_snapshots cr = entry_refs lib descs ((room, sid), obj_of v)"
    and "\<And>room sid cr. map_of (ix_records ix) (room, sid) = Some cr \<Longrightarrow> \<exists>v. body_snapshot (cat_body c0) room sid = Some v"
    and "catalog_referenced ix = (\<Union>e \<in> set (body_entries (cat_body c0)). entry_refs lib descs e)"
    and "descriptor_referenced ix = catalog_referenced ix"
    and "\<And>e. e \<in> set (body_entries (cat_body c0)) \<Longrightarrow> map_of descs (fst e) \<noteq> None \<longleftrightarrow> has_key (snd e) ''payload_kind''"
    and "wf_dict (ix_records ix)"
    and "\<And>i. map_of descs i \<noteq> None \<Longrightarrow> i \<in> fst ` set (body_entries (cat_body c0))"
    and "ix_catalog_revision ix = cat_revision c0"
proof -
  from assms(1) obtain c acc where c: "mutable_catalog lib c0 = Inr c" "py_eq (jget (cat_body c) ''format_version'') (JInt 3)"
    and expected: "expected_keys (cat_body c) = Inr (set (map fst descs))"
    and acc: "add_entries lib (jget (cat_body c) ''dimension_id'') (cat_domain c) descs (body_entries (cat_body c)) empty_acc = Inr acc"
    and ix: "ix_records ix = ra_records acc"
      "ix_references ix = map (\<lambda>(r, tree). (r, \<lparr>sr_catalog_records = set_at (ra_catalog acc) r,
         sr_descriptor_records = set_at (ra_descriptor acc) r, sr_roles = set_at (ra_roles acc) r, sr_tree_id = tree\<rparr>)) (ra_trees acc)"
      "ix_catalog_revision ix = int_of (jget (cat_body c) ''revision'')"
    by (auto simp: build_reference_index_def Let_def check_simps)
  have es: "body_entries (cat_body c) = body_entries (cat_body c0)"
    using mutable_catalog_entries[OF c] by (simp add: body_entries_def)
  show "ix_catalog_revision ix = cat_revision c0" using mutable_catalog_entries[OF c] by (simp add: ix(3) cat_revision_def)
  note facts = body_entries_facts[OF assms(2)]
  have "acc_ok empty_acc" "holds empty_acc = {}" "ra_records empty_acc = []"
    by (simp_all add: acc_ok_def holds_def empty_acc_def set_at_def)
  note R = add_entries_Inr[OF acc[unfolded es] this(1) facts(1), unfolded this(2,3)]
  have recs: "case map_of (body_entries (cat_body c0)) i of
       None \<Rightarrow> map_of (ra_records acc) i = map_of [] i
     | Some d \<Rightarrow> \<exists>cr. map_of (ra_records acc) i = Some cr \<and> cr_restic_snapshots cr = entry_refs lib descs (i, d) \<and>
         cr_object_key cr = str_of (jget d ''object_key'')" for i
    using R by (elim conjE) (rule spec)
  show "\<exists>cr. map_of (ix_records ix) (room, sid) = Some cr \<and> cr_object_key cr = key_of v \<and>
        cr_restic_snapshots cr = entry_refs lib descs ((room, sid), obj_of v)"
    if "body_snapshot (cat_body c0) room sid = Some v" for room sid v
    using recs[of "(room, sid)"] that by (auto simp: facts(2) ix(1) key_of_def)
  show "\<exists>v. body_snapshot (cat_body c0) room sid = Some v" if "map_of (ix_records ix) (room, sid) = Some cr" for room sid cr
    using recs[of "(room, sid)"] that by (cases "body_snapshot (cat_body c0) room sid") (auto simp: facts(2) ix(1))
  have holds: "holds acc = {(r, i). \<exists>e \<in> set (body_entries (cat_body c0)). i = fst e \<and> r \<in> entry_refs lib descs e}" using R by simp
  have ok: "acc_ok acc" using R by simp
  then show "wf_dict (ix_records ix)" by (simp add: ix(1) acc_ok_def)
  have same: "ra_descriptor acc = ra_catalog acc" using ok by (simp add: acc_ok_def)
  have ref: "fst ` {x \<in> set (ra_trees acc). set_at (ra_catalog acc) (fst x) \<noteq> {}} = {r. set_at (ra_catalog acc) r \<noteq> {}}"
  proof -
    have "r \<in> fst ` set (ra_trees acc)" if "set_at (ra_catalog acc) r \<noteq> {}" for r
    proof -
      have "map_of (ra_trees acc) r \<noteq> None" using ok that unfolding acc_ok_def by blast
      then show ?thesis by (simp only: map_of_eq_None_iff not_not)
    qed
    then show ?thesis by (auto simp: image_iff) force
  qed
  show "descriptor_referenced ix = catalog_referenced ix"
    by (simp add: descriptor_referenced_def catalog_referenced_def ix(2) same filter_map comp_def case_prod_beta)
  have "catalog_referenced ix = {r. set_at (ra_catalog acc) r \<noteq> {}}"
    using ref by (simp add: catalog_referenced_def ix(2) filter_map comp_def case_prod_beta image_image)
  also have "\<dots> = Domain (holds acc)" by (auto simp: holds_def)
  also have "\<dots> = (\<Union>e \<in> set (body_entries (cat_body c0)). entry_refs lib descs e)" unfolding holds by blast
  finally show "catalog_referenced ix = (\<Union>e \<in> set (body_entries (cat_body c0)). entry_refs lib descs e)" .
  have names: "set (map fst descs) = fst ` {x \<in> set (body_entries (cat_body c0)). has_key (snd x) ''payload_kind''}"
    using expected by (auto simp: expected_keys_def check_simps es case_prod_beta)
  show "i \<in> fst ` set (body_entries (cat_body c0))" if "map_of descs i \<noteq> None" for i
  proof -
    have "i \<in> set (map fst descs)" using that by (simp only: map_of_eq_None_iff not_not list.set_map)
    then show ?thesis unfolding names by (elim imageE CollectE conjE) (rule rev_image_eqI)
  qed
  show "map_of descs (fst e) \<noteq> None \<longleftrightarrow> has_key (snd e) ''payload_kind''" if "e \<in> set (body_entries (cat_body c0))" for e
  proof -
    note names
    moreover have "\<And>x. x \<in> set (body_entries (cat_body c0)) \<Longrightarrow> fst x = fst e \<Longrightarrow> x = e"
      using facts(1) that by (meson distinct_map inj_onD)
    moreover have "fst e \<in> fst ` {x \<in> S. P x} \<longleftrightarrow> P e" if "\<And>x. x \<in> S \<Longrightarrow> fst x = fst e \<Longrightarrow> x = e" "e \<in> S"
      for S and P :: "jat_identity \<times> jobj \<Rightarrow> bool"
      using that by (metis (mono_tags, lifting) image_iff mem_Collect_eq)
    ultimately have "fst e \<in> set (map fst descs) \<longleftrightarrow> has_key (snd e) ''payload_kind''" using that by simp
    then show ?thesis by (simp only: map_of_eq_None_iff not_not list.set_map)
  qed
qed

section \<open>The plans are safe\<close>

lemma plan_Inr:
  assumes "plan_catalog_record_removal ix report i = Inr plan"
  obtains target where "map_of (ix_records ix) i = Some target"
    "rp_catalog_reference plan = i" "rp_expected_revision plan = ix_catalog_revision ix"
    "rp_object_keys_to_delete plan =
       {cr_object_key target} - cr_object_key ` {r. \<exists>k. k \<noteq> i \<and> (k, r) \<in> set (ix_records ix)}"
    "rp_snapshots_to_forget plan \<union> rp_missing_snapshots plan =
       cr_restic_snapshots target - \<Union> (cr_restic_snapshots ` {r. \<exists>k. k \<noteq> i \<and> (k, r) \<in> set (ix_records ix)})"
    "rp_snapshots_to_forget plan = (rp_snapshots_to_forget plan \<union> rp_missing_snapshots plan) \<inter> rr_inventory report"
proof -
  define R where "R = {r. \<exists>k. k \<noteq> i \<and> (k, r) \<in> set (ix_records ix)}"
  have rest: "set (map snd (remaining_records ix i)) = R"
    by (force simp: R_def remaining_records_def image_iff)
  from assms obtain target where t: "map_of (ix_records ix) i = Some target"
    by (auto simp: plan_catalog_record_removal_def check_simps split: option.splits)
  have p: "plan = \<lparr>rp_catalog_reference = i, rp_expected_revision = ix_catalog_revision ix,
      rp_order = [''remove-catalog-reference'', ''delete-unreferenced-catalog-objects'', ''forget-unreachable-restic-snapshots''],
      rp_object_keys_to_delete =
        (if list_ex (\<lambda>r. cr_object_key r = cr_object_key target) (map snd (remaining_records ix i)) then {} else {cr_object_key target}),
      rp_snapshots_to_forget = (cr_restic_snapshots target - (\<Union>r \<in> set (map snd (remaining_records ix i)). cr_restic_snapshots r)) \<inter> rr_inventory report,
      rp_missing_snapshots = (cr_restic_snapshots target - (\<Union>r \<in> set (map snd (remaining_records ix i)). cr_restic_snapshots r)) - rr_inventory report,
      rp_never_prune = True, rp_never_unlock = True\<rparr>"
    using assms t by (simp add: plan_catalog_record_removal_def check_simps Let_def split: if_splits)
  show ?thesis
    by (rule that[OF t, folded R_def]) (simp_all only: p CatalogRecordRemovalPlan.simps list_ex_iff rest, auto intro: rev_image_eqI)
qed

lemma entry_refs_descriptor:
  assumes "build_reference_index lib c descs = Inr ix" "wf_json (JObj (cat_body c))"
    and v: "body_snapshot (cat_body c) room sid = Some v"
  shows "entry_refs lib descs ((room, sid), obj_of v) = (case map_of descs (room, sid) of None \<Rightarrow> {} | Some x \<Rightarrow> descriptor_refs lib x)"
proof -
  have "map_of (body_entries (cat_body c)) (room, sid) = Some (obj_of v)" using body_entries_facts(2)[OF assms(2)] v by simp
  then have "((room, sid), obj_of v) \<in> set (body_entries (cat_body c))" by (rule map_of_SomeD)
  from index_contents(5)[OF assms(1,2) this] show ?thesis by (auto simp: entry_refs_def split: option.split)
qed

text \<open>
  C22. The plan for removing a catalog record deletes nothing that is still needed: for every
  other record of the catalog, the plan keeps its object and every restic snapshot its
  descriptor names, workspace and components alike. It asks restic to forget only snapshots of
  the inventory, and it accounts for everything: each snapshot of the removed record is
  forgotten, reported missing, or named by another record.
\<close>

theorem removal_plan_keeps_the_rest:
  assumes "build_reference_index lib c descs = Inr ix" "wf_json (JObj (cat_body c))"
    and "plan_catalog_record_removal ix report (room, sid) = Inr plan"
  shows "(\<forall>room' sid' v. (room', sid') \<noteq> (room, sid) \<longrightarrow> body_snapshot (cat_body c) room' sid' = Some v \<longrightarrow>
       key_of v \<notin> rp_object_keys_to_delete plan \<and>
       (\<forall>x. map_of descs (room', sid') = Some x \<longrightarrow> descriptor_refs lib x \<inter> rp_snapshots_to_forget plan = {})) \<and>
    rp_snapshots_to_forget plan \<subseteq> rr_inventory report \<and>
    (\<forall>x. map_of descs (room, sid) = Some x \<longrightarrow>
       descriptor_refs lib x \<subseteq> rp_snapshots_to_forget plan \<union> rp_missing_snapshots plan \<union>
         (\<Union>i \<in> fst ` set descs - {(room, sid)}. case map_of descs i of None \<Rightarrow> {} | Some y \<Rightarrow> descriptor_refs lib y))"
proof (intro conjI allI impI)
  note C = index_contents[OF assms(1,2)] and E = entry_refs_descriptor[OF assms(1,2)]
  obtain target where t: "map_of (ix_records ix) (room, sid) = Some target"
    "rp_catalog_reference plan = (room, sid)" "rp_expected_revision plan = ix_catalog_revision ix"
    and del: "rp_object_keys_to_delete plan =
       {cr_object_key target} - cr_object_key ` {r. \<exists>k. k \<noteq> (room, sid) \<and> (k, r) \<in> set (ix_records ix)}"
    and all: "rp_snapshots_to_forget plan \<union> rp_missing_snapshots plan =
       cr_restic_snapshots target - \<Union> (cr_restic_snapshots ` {r. \<exists>k. k \<noteq> (room, sid) \<and> (k, r) \<in> set (ix_records ix)})"
    and inv: "rp_snapshots_to_forget plan = (rp_snapshots_to_forget plan \<union> rp_missing_snapshots plan) \<inter> rr_inventory report"
    by (rule plan_Inr[OF assms(3)])
  show "rp_snapshots_to_forget plan \<subseteq> rr_inventory report" using inv by blast
  fix room' sid' v assume o: "(room', sid') \<noteq> (room, sid)" "body_snapshot (cat_body c) room' sid' = Some v"
  from C(1)[OF o(2)] obtain cr where cr: "map_of (ix_records ix) (room', sid') = Some cr" "cr_object_key cr = key_of v"
    "cr_restic_snapshots cr = entry_refs lib descs ((room', sid'), obj_of v)" by blast
  then have mem: "cr \<in> {r. \<exists>k. k \<noteq> (room, sid) \<and> (k, r) \<in> set (ix_records ix)}" using o(1) map_of_SomeD[OF cr(1)] by blast
  show "key_of v \<notin> rp_object_keys_to_delete plan"
    unfolding del cr(2)[symmetric] Diff_iff using imageI[OF mem, of cr_object_key] by (simp only: simp_thms)
  show "descriptor_refs lib x \<inter> rp_snapshots_to_forget plan = {}" if "map_of descs (room', sid') = Some x" for x
  proof -
    have "cr_restic_snapshots cr = descriptor_refs lib x" using cr(3) E[OF o(2)] that by simp
    then have "descriptor_refs lib x \<subseteq> \<Union> (cr_restic_snapshots ` {r. \<exists>k. k \<noteq> (room, sid) \<and> (k, r) \<in> set (ix_records ix)})"
      using UN_upper[OF mem, of cr_restic_snapshots] by (simp only:)
    then show ?thesis using all by blast
  qed
next
  note C = index_contents[OF assms(1,2)] and E = entry_refs_descriptor[OF assms(1,2)]
  obtain target where t: "map_of (ix_records ix) (room, sid) = Some target"
    "rp_catalog_reference plan = (room, sid)" "rp_expected_revision plan = ix_catalog_revision ix"
    "rp_object_keys_to_delete plan =
       {cr_object_key target} - cr_object_key ` {r. \<exists>k. k \<noteq> (room, sid) \<and> (k, r) \<in> set (ix_records ix)}"
    and all: "rp_snapshots_to_forget plan \<union> rp_missing_snapshots plan =
       cr_restic_snapshots target - \<Union> (cr_restic_snapshots ` {r. \<exists>k. k \<noteq> (room, sid) \<and> (k, r) \<in> set (ix_records ix)})"
      "rp_snapshots_to_forget plan = (rp_snapshots_to_forget plan \<union> rp_missing_snapshots plan) \<inter> rr_inventory report"
    by (rule plan_Inr[OF assms(3)])
  fix x assume x: "map_of descs (room, sid) = Some x"
  obtain v where v: "body_snapshot (cat_body c) room sid = Some v" using C(2)[OF t(1)] by blast
  have tx: "cr_restic_snapshots target = descriptor_refs lib x" using C(1)[OF v] t(1) E[OF v] x by simp
  have other: "\<exists>i \<in> fst ` set descs - {(room, sid)}. r \<in> (case map_of descs i of None \<Rightarrow> {} | Some y \<Rightarrow> descriptor_refs lib y)"
    if k: "k \<noteq> (room, sid)" "(k, cr) \<in> set (ix_records ix)" "r \<in> cr_restic_snapshots cr" for k cr r
  proof -
    obtain a b where ab: "k = (a, b)" by (cases k)
    have m: "map_of (ix_records ix) (a, b) = Some cr" using C(6) k(2) ab by simp
    then obtain w where w: "body_snapshot (cat_body c) a b = Some w" using C(2) by blast
    have "cr_restic_snapshots cr = (case map_of descs (a, b) of None \<Rightarrow> {} | Some y \<Rightarrow> descriptor_refs lib y)"
      using C(1)[OF w] m E[OF w] by simp
    moreover from this have "map_of descs (a, b) \<noteq> None" using k(3) by (auto split: option.splits)
    then have "(a, b) \<in> fst ` set descs" by (simp only: map_of_eq_None_iff not_not)
    ultimately show ?thesis using k(1,3) ab by blast
  qed
  show "descriptor_refs lib x \<subseteq> rp_snapshots_to_forget plan \<union> rp_missing_snapshots plan \<union>
         (\<Union>i \<in> fst ` set descs - {(room, sid)}. case map_of descs i of None \<Rightarrow> {} | Some y \<Rightarrow> descriptor_refs lib y)"
  proof
    fix r assume r: "r \<in> descriptor_refs lib x"
    show "r \<in> rp_snapshots_to_forget plan \<union> rp_missing_snapshots plan \<union>
         (\<Union>i \<in> fst ` set descs - {(room, sid)}. case map_of descs i of None \<Rightarrow> {} | Some y \<Rightarrow> descriptor_refs lib y)"
    proof (cases "\<exists>k cr. k \<noteq> (room, sid) \<and> (k, cr) \<in> set (ix_records ix) \<and> r \<in> cr_restic_snapshots cr")
      case True
      then show ?thesis using other by (elim exE conjE) (rule UnI2, rule UN_iff[THEN iffD2])
    next
      case False
      then have "r \<in> rp_snapshots_to_forget plan \<union> rp_missing_snapshots plan" unfolding all(1) tx using r by fast
      then show ?thesis by (rule UnI1)
    qed
  qed
qed

lemma compare_Inr:
  assumes "compare_restic_inventory ix repository inventory = Inr report"
  shows "rr_restic_only_orphans report = rr_inventory report - (catalog_referenced ix \<union> descriptor_referenced ix)"
  using assms by (auto simp: compare_restic_inventory_def Let_def check_simps)

lemma cleanup_Inr:
  assumes "plan_orphan_cleanup report evidence now grace = Inr plan" "r \<in> oc_eligible plan"
  shows "r \<in> rr_restic_only_orphans report \<and> 0 < grace \<and>
    (\<exists>t item. now = Some t \<and> map_of evidence r = Some (Some item) \<and> is_qualified report t grace r item)"
proof -
  obtain t where t: "now = Some t" "0 < grace" "oc_eligible plan = Set.filter (has_evidence report evidence t grace) (rr_restic_only_orphans report)"
    using assms(1) by (auto simp: plan_orphan_cleanup_def Let_def check_simps)
  then show ?thesis using assms(2) by (auto simp: has_evidence_def split: option.splits)
qed

text \<open>
  C23. Orphan cleanup never forgets a snapshot in use: a snapshot that some descriptor of the
  catalog names, as its workspace or as a component, is never eligible. What is eligible is in
  the inventory and has been observed as an orphan at least twice, the first time no later
  than the last and at least one full, positive grace period ago.
\<close>

theorem orphan_cleanup_keeps_references:
  assumes "build_reference_index lib c descs = Inr ix" "wf_json (JObj (cat_body c))"
    and "compare_restic_inventory ix repository inventory = Inr report"
    and "plan_orphan_cleanup report evidence now grace = Inr plan"
  shows "(\<forall>i x. map_of descs i = Some x \<longrightarrow> descriptor_refs lib x \<inter> oc_eligible plan = {}) \<and>
    (\<forall>r \<in> oc_eligible plan. r \<in> rr_inventory report \<and>
       (\<exists>t item t1 t2 n. now = Some t \<and> map_of evidence r = Some (Some item) \<and> ge_observation_count item = JInt n \<and> 2 \<le> n \<and>
          ge_first_observed_at item = Some t1 \<and> ge_last_observed_at item = Some t2 \<and> t1 \<le> t2 \<and> t2 \<le> t \<and>
          0 < grace \<and> grace \<le> t - t1))"
proof (intro conjI allI impI ballI)
  note C = index_contents[OF assms(1,2)] and O = compare_Inr[OF assms(3)]
  fix i x assume x: "map_of descs i = Some x"
  obtain a b where i: "i = (a, b)" by (cases i)
  have "(a, b) \<in> fst ` set (body_entries (cat_body c))" using C(7)[of i] x i by simp
  then have "map_of (body_entries (cat_body c)) (a, b) \<noteq> None" by (simp only: map_of_eq_None_iff not_not)
  then obtain v where v: "body_snapshot (cat_body c) a b = Some v" "map_of (body_entries (cat_body c)) (a, b) = Some (obj_of v)"
    using body_entries_facts(2)[OF assms(2), of a b] by auto
  have "((a, b), obj_of v) \<in> set (body_entries (cat_body c))" by (rule map_of_SomeD[OF v(2)])
  moreover have "entry_refs lib descs ((a, b), obj_of v) = descriptor_refs lib x"
    using entry_refs_descriptor[OF assms(1,2) v(1)] x i by simp
  ultimately have "descriptor_refs lib x \<subseteq> catalog_referenced ix" unfolding C(3) by (metis UN_upper)
  moreover have "oc_eligible plan \<subseteq> rr_restic_only_orphans report" using cleanup_Inr[OF assms(4)] by (intro subsetI) simp
  ultimately show "descriptor_refs lib x \<inter> oc_eligible plan = {}" unfolding O by fast
next
  note O = compare_Inr[OF assms(3)]
  fix r assume "r \<in> oc_eligible plan"
  note q = cleanup_Inr[OF assms(4) this]
  then show "r \<in> rr_inventory report" unfolding O by simp
  from q obtain t item where t: "now = Some t" "map_of evidence r = Some (Some item)" "is_qualified report t grace r item" "0 < grace" by auto
  then obtain t1 t2 where "ge_first_observed_at item = Some t1" "ge_last_observed_at item = Some t2" "t1 \<le> t2" "t2 \<le> t" "grace \<le> t - t1"
    "type_is_int (ge_observation_count item)" "2 \<le> int_of (ge_observation_count item)"
    by (auto simp: is_qualified_def split: option.splits)
  moreover from this obtain n where "ge_observation_count item = JInt n" "2 \<le> n" by (cases "ge_observation_count item") auto
  ultimately show "\<exists>t item t1 t2 n. now = Some t \<and> map_of evidence r = Some (Some item) \<and> ge_observation_count item = JInt n \<and> 2 \<le> n \<and>
      ge_first_observed_at item = Some t1 \<and> ge_last_observed_at item = Some t2 \<and> t1 \<le> t2 \<and> t2 \<le> t \<and> 0 < grace \<and> grace \<le> t - t1"
    using t by blast
qed

section \<open>Witnesses\<close>

definition demo_repository :: RepositoryInfo where
  "demo_repository = \<lparr>ri_repository_id = demo_digest, ri_repository_format = JInt 2\<rparr>"

definition demo_inventory :: "SnapshotItem list" where
  "demo_inventory = [\<lparr>si_snapshot_id = demo_digest, si_tree_id = demo_digest\<rparr>]"

definition demo_evidence :: GracePeriodEvidence where
  "demo_evidence = \<lparr>ge_repository_id = str_of demo_digest, ge_snapshot_id = str_of demo_digest, ge_first_observed_at = Some 0,
     ge_last_observed_at = Some 50, ge_observation_count = JInt 3\<rparr>"

text \<open>A valid version 3 catalog is its own copy.\<close>

lemma mutable_catalog_id:
  assumes "cat_inv lib c" "jget (cat_body c) ''format_version'' = JInt 3" "jget (cat_body c) ''encryption_domain_id'' = cat_domain c"
    "validate_encryption_domain_id (cat_domain c) = Inr ()" "cat_domain c \<noteq> JNull"
  shows "mutable_catalog lib c = Inr c"
proof -
  have make: "catalog_make lib (cat_body c) JNull = Inr c" using assms(1) by (simp add: cat_inv_def)
  have m: "map_of (cat_body c) ''encryption_domain_id'' = Some (cat_domain c)"
    using assms(3,5) by (auto simp: jget_def split: option.splits)
  then have "AList.update ''encryption_domain_id'' (cat_domain c) (cat_body c) = cat_body c" by (rule update_triv)
  moreover have "has_key (cat_body c) ''encryption_domain_id''" using m unfolding has_key_map_of by blast
  ultimately have "cat_from_body lib (cat_body c) (jget (cat_body c) ''dimension_id'') (cat_domain c) = Inr c"
    using assms(2-5) make by (simp add: cat_from_body_def raise_if_def)
  then show ?thesis by (simp add: mutable_catalog_def wrap_error_def)
qed

definition demo_acc :: ref_acc where
  "demo_acc = \<lparr>ra_records = [((''room'', ''s1''), \<lparr>cr_identity = (''room'', ''s1''), cr_payload_kind = ''legacy-jat-hauler-v1'',
       cr_object_key = demo_key CHR ''a'', cr_restic_snapshots = {}\<rparr>)],
     ra_catalog = [], ra_descriptor = [], ra_roles = [], ra_trees = [], ra_repositories = {}, ra_legacy = {demo_key CHR ''a''}\<rparr>"

lemma demo_v3_index:
  obtains ix where "build_reference_index demo_jat_lib demo_v3 [] = Inr ix" "ix_records ix = ra_records demo_acc" "ix_references ix = []"
    "ix_repository_id ix = None"
proof -
  have body: "jget (cat_body demo_v3) ''encryption_domain_id'' = cat_domain demo_v3" "jget (cat_body demo_v3) ''format_version'' = JInt 3"
    "jget (cat_body demo_v3) ''dimension_id'' = JStr ''dim''" "cat_domain demo_v3 = JStr demo_domain"
    by (simp_all add: demo_v3_def jget_def)
  have copy: "mutable_catalog demo_jat_lib demo_v3 = Inr demo_v3"
    using demo_domain_ok by (intro mutable_catalog_id[OF demo_v3_inv body(2,1)]) (simp_all add: body(4))
  have keys: "expected_keys (cat_body demo_v3) = Inr {}" by code_simp
  have acc: "add_entries demo_jat_lib (JStr ''dim'') (JStr demo_domain) [] (body_entries (cat_body demo_v3)) empty_acc = Inr demo_acc" by code_simp
  have rest: "card (ra_repositories demo_acc) \<le> 1" "the_repository (ra_repositories demo_acc) = None" "ra_trees demo_acc = []"
    by (simp_all add: demo_acc_def the_repository_def)
  have "\<exists>ix. build_reference_index demo_jat_lib demo_v3 [] = Inr ix \<and> ix_records ix = ra_records demo_acc \<and> ix_references ix = [] \<and>
      ix_repository_id ix = None"
    using copy keys acc rest body by (simp add: build_reference_index_def Let_def raise_if_def)
  then show ?thesis using that by blast
qed

text \<open>The repository holds one snapshot that no record names.\<close>

lemma demo_v3_report:
  obtains ix report where "build_reference_index demo_jat_lib demo_v3 [] = Inr ix" "ix_records ix = ra_records demo_acc"
    "ix_repository_id ix = None" "compare_restic_inventory ix demo_repository demo_inventory = Inr report"
    "rr_catalog_revision report = ix_catalog_revision ix" "rr_fingerprint report = ix_fingerprint ix"
    "rr_repository_id report = str_of demo_digest" "rr_restic_only_orphans report = {(str_of demo_digest, str_of demo_digest)}"
proof -
  obtain ix where ix: "build_reference_index demo_jat_lib demo_v3 [] = Inr ix" "ix_records ix = ra_records demo_acc"
    "ix_references ix = []" "ix_repository_id ix = None" by (rule demo_v3_index)
  have valid: "valid_digest demo_digest" by code_simp
  have refs: "catalog_referenced ix = {}" "descriptor_referenced ix = {}"
    by (simp_all add: catalog_referenced_def descriptor_referenced_def ix(3))
  have "\<exists>report. compare_restic_inventory ix demo_repository demo_inventory = Inr report \<and>
      rr_catalog_revision report = ix_catalog_revision ix \<and> rr_fingerprint report = ix_fingerprint ix \<and>
      rr_repository_id report = str_of demo_digest \<and> rr_restic_only_orphans report = {(str_of demo_digest, str_of demo_digest)}"
    using valid refs ix(3,4) by (simp add: compare_restic_inventory_def demo_repository_def demo_inventory_def Let_def raise_if_def)
  then show ?thesis using that ix by blast
qed

theorem removal_plan_keeps_the_rest_witness:
  "\<exists>ix report plan. build_reference_index demo_jat_lib demo_v3 [] = Inr ix \<and>
     plan_catalog_record_removal ix report (''room'', ''s1'') = Inr plan \<and> rp_object_keys_to_delete plan = {demo_key CHR ''a''} \<and>
     rp_snapshots_to_forget plan \<subseteq> rr_inventory report"
proof -
  obtain ix report where ix: "build_reference_index demo_jat_lib demo_v3 [] = Inr ix" "ix_records ix = ra_records demo_acc"
    "ix_repository_id ix = None" "compare_restic_inventory ix demo_repository demo_inventory = Inr report"
    "rr_catalog_revision report = ix_catalog_revision ix" "rr_fingerprint report = ix_fingerprint ix"
    by (rule demo_v3_report)
  have "\<exists>plan. plan_catalog_record_removal ix report (''room'', ''s1'') = Inr plan \<and> rp_object_keys_to_delete plan = {demo_key CHR ''a''}"
    using ix by (simp add: plan_catalog_record_removal_def raise_if_def demo_acc_def Let_def remaining_records_def)
  then obtain plan where p: "plan_catalog_record_removal ix report (''room'', ''s1'') = Inr plan"
    "rp_object_keys_to_delete plan = {demo_key CHR ''a''}" by blast
  have "wf_json (JObj (cat_body demo_v3))" by (rule cat_inv_body(2)[OF demo_v3_inv])
  then have "rp_snapshots_to_forget plan \<subseteq> rr_inventory report"
    by (rule removal_plan_keeps_the_rest[OF ix(1) _ p(1), THEN conjunct2, THEN conjunct1])
  then show ?thesis by (intro exI conjI) (rule ix(1), rule p(1), rule p(2))
qed

theorem orphan_cleanup_keeps_references_witness:
  "\<exists>ix report plan. build_reference_index demo_jat_lib demo_v3 [] = Inr ix \<and>
     plan_orphan_cleanup report [((str_of demo_digest, str_of demo_digest), Some demo_evidence)] (Some 100) 60 = Inr plan \<and>
     (str_of demo_digest, str_of demo_digest) \<in> oc_eligible plan \<inter> rr_inventory report"
proof -
  obtain ix report where ix: "build_reference_index demo_jat_lib demo_v3 [] = Inr ix" "ix_records ix = ra_records demo_acc"
    "ix_repository_id ix = None" "compare_restic_inventory ix demo_repository demo_inventory = Inr report"
    "rr_catalog_revision report = ix_catalog_revision ix" "rr_fingerprint report = ix_fingerprint ix"
    "rr_repository_id report = str_of demo_digest" "rr_restic_only_orphans report = {(str_of demo_digest, str_of demo_digest)}"
    by (rule demo_v3_report)
  have "\<exists>plan. plan_orphan_cleanup report [((str_of demo_digest, str_of demo_digest), Some demo_evidence)] (Some 100) 60 = Inr plan \<and>
      (str_of demo_digest, str_of demo_digest) \<in> oc_eligible plan"
    using ix(7,8) by (simp add: plan_orphan_cleanup_def raise_if_def Let_def has_evidence_def is_qualified_def demo_evidence_def)
  then obtain plan where p: "plan_orphan_cleanup report [((str_of demo_digest, str_of demo_digest), Some demo_evidence)] (Some 100) 60 = Inr plan"
    "(str_of demo_digest, str_of demo_digest) \<in> oc_eligible plan" by blast
  have "wf_json (JObj (cat_body demo_v3))" by (rule cat_inv_body(2)[OF demo_v3_inv])
  then have "(str_of demo_digest, str_of demo_digest) \<in> rr_inventory report"
    using orphan_cleanup_keeps_references[OF ix(1) _ ix(4) p(1), THEN conjunct2] p(2) by blast
  then show ?thesis by (intro exI conjI IntI) (rule ix(1), rule p(1), rule p(2))
qed

end
