(* ===== verification/Removal.thy ===== *)
theory Removal
  imports References LocalStore
begin

text \<open>
  Model of the removals of \<^verbatim>\<open>src/josh_room/operations.py\<close> with the local backend: a room or
  one recovery point is taken out of the encrypted catalog first, and only the objects that
  the catalog then no longer names are deleted from the store. The catalog file may have
  been replaced by another process between the read and the update, so the two see separate
  states. Receipts and progress reports are left out.
\<close>

definition assert_expected_delete_state :: "catalog \<Rightarrow> string \<Rightarrow> json \<Rightarrow> string list option \<Rightarrow> unit result" where
  "assert_expected_delete_state c project_id expected_revision expected_snapshots =
     (if expected_revision \<noteq> JNull \<and> \<not> py_eq (jget (cat_body c) ''revision'') expected_revision
      then Inl (ValueError ''catalog changed after deletion confirmation; reload and confirm again'')
      else (case map_of (projects_of (cat_body c)) project_id of
          None \<Rightarrow> Inl (ValueError ''room is not present in the encrypted catalog'')
        | Some project \<Rightarrow> raise_if (expected_snapshots \<noteq> None \<and> Some (keys (snapshots_of project)) \<noteq> expected_snapshots)
            (ValueError ''recovery point inventory changed after deletion confirmation; reload and confirm again'')))"

text \<open>The cleanup loop: a key whose deletion raises is kept for a later retry.\<close>

fun cleanup :: "store \<Rightarrow> string list \<Rightarrow> store \<times> string list" where
  "cleanup st [] = (st, [])"
| "cleanup st (k # ks) =
     (case delete st k of
        Inl _ \<Rightarrow> (let (st', failed) = cleanup st ks in (st', k # failed))
      | Inr st1 \<Rightarrow> cleanup st1 ks)"

record RoomRemoval =
  rm_deleted_objects :: nat
  rm_project_id :: string
  rm_snapshot_count :: nat
  rm_cleanup_pending :: "nat option"

definition pending :: "string list \<Rightarrow> nat option" where
  "pending failed = (if failed = [] then None else Some (length failed))"

definition remove_room ::
  "jat_lib \<Rightarrow> 'f catalog_io \<Rightarrow> 'f option \<Rightarrow> 'f option \<Rightarrow> store \<Rightarrow> string \<Rightarrow> string list \<Rightarrow> json \<Rightarrow> string list option \<Rightarrow>
    (RoomRemoval \<times> 'f option \<times> store) result" where
  "remove_room lib io seen current st project_id recipients expected_revision expected_snapshots =
     bind_r (file_read lib io seen) (\<lambda>c.
     bind_r (assert_expected_delete_state c project_id expected_revision expected_snapshots) (\<lambda>_.
     bind_r (remove_project lib c project_id) (\<lambda>(updated, removable, snapshot_count).
     bind_r (file_update_if_revision lib io (jget (cat_body c) ''revision'') updated recipients current) (\<lambda>published.
       let (st', failed) = cleanup st removable in
       Inr (\<lparr>rm_deleted_objects = length removable - length failed, rm_project_id = project_id,
              rm_snapshot_count = snapshot_count, rm_cleanup_pending = pending failed\<rparr>, published, st')))))"

record SnapshotRemoval =
  sr_deleted_objects :: nat
  sr_latest :: json
  sr_latest_promoted :: bool
  sr_project_id :: string
  sr_room_removed :: bool
  sr_snapshot_id :: string
  sr_cleanup_pending :: "nat option"

text \<open>\<^verbatim>\<open>body["projects"][project_id]["latest"]\<close>\<close>

definition latest_of :: "catalog \<Rightarrow> string \<Rightarrow> json result" where
  "latest_of c project_id =
     bind_r (getitem (projects_of (cat_body c)) (JStr project_id)) (\<lambda>p. getitem (obj_of p) (JStr ''latest''))"

definition remove_recovery_point ::
  "jat_lib \<Rightarrow> 'f catalog_io \<Rightarrow> 'f option \<Rightarrow> 'f option \<Rightarrow> store \<Rightarrow> string \<Rightarrow> string \<Rightarrow> string list \<Rightarrow> json \<Rightarrow> string list option \<Rightarrow>
    (SnapshotRemoval \<times> 'f option \<times> store) result" where
  "remove_recovery_point lib io seen current st project_id snapshot_id recipients expected_revision expected_snapshots =
     bind_r (file_read lib io seen) (\<lambda>c.
     bind_r (assert_expected_delete_state c project_id expected_revision expected_snapshots) (\<lambda>_.
     bind_r (latest_of c project_id) (\<lambda>latest.
     bind_r (remove_snapshot lib c project_id snapshot_id) (\<lambda>(updated, removable, room_removed).
     bind_r (file_update_if_revision lib io (jget (cat_body c) ''revision'') updated recipients current) (\<lambda>published.
     let (st', failed) = cleanup st removable in
     bind_r (if room_removed then Inr JNull else latest_of updated project_id) (\<lambda>now_latest.
       Inr (\<lparr>sr_deleted_objects = length removable - length failed, sr_latest = now_latest,
              sr_latest_promoted = (latest = JStr snapshot_id), sr_project_id = project_id,
              sr_room_removed = room_removed, sr_snapshot_id = snapshot_id, sr_cleanup_pending = pending failed\<rparr>,
            published, st')))))))"


section \<open>Laws\<close>

lemma cleanup_spec:
  "cleanup st ks = (st', failed) \<Longrightarrow> distinct ks \<Longrightarrow>
     set failed \<subseteq> set ks \<and> (\<forall>k. st' k = (if k \<in> set ks - set failed then None else st k)) \<and>
     (store_inv sha st \<longrightarrow> store_inv sha st')"
proof (induction st ks arbitrary: st' failed rule: cleanup.induct)
  case (2 st k ks)
  show ?case
  proof (cases "delete st k")
    case (Inl e)
    then obtain f where f: "cleanup st ks = (st', f)" "failed = k # f" using "2.prems"(1) by (auto split: prod.splits)
    have IH: "set f \<subseteq> set ks" "\<forall>k. st' k = (if k \<in> set ks - set f then None else st k)" "store_inv sha st \<longrightarrow> store_inv sha st'"
      using "2.IH"(1)[OF Inl f(1)] "2.prems"(2) by auto
    show ?thesis
    proof (intro conjI)
      show "set failed \<subseteq> set (k # ks)" using IH(1) f(2) by auto
      show "\<forall>k'. st' k' = (if k' \<in> set (k # ks) - set failed then None else st k')" using IH(1,2) f(2) "2.prems"(2) by auto
    qed (fact IH(3))
  next
    case (Inr st1)
    then have c: "cleanup st1 ks = (st', failed)" using "2.prems"(1) by simp
    have s1: "st1 = st(k := None)" using Inr by (auto simp: delete_def split: if_splits option.splits entry.splits)
    have IH: "set failed \<subseteq> set ks" "\<forall>k. st' k = (if k \<in> set ks - set failed then None else st1 k)" "store_inv sha st1 \<longrightarrow> store_inv sha st'"
      using "2.IH"(2)[OF Inr c] "2.prems"(2) by auto
    show ?thesis
    proof (intro conjI)
      show "set failed \<subseteq> set (k # ks)" using IH(1) by auto
      show "\<forall>k'. st' k' = (if k' \<in> set (k # ks) - set failed then None else st k')" using IH(1,2) s1 "2.prems"(2) by auto
      show "store_inv sha st \<longrightarrow> store_inv sha st'" using IH(3) delete_inv[OF _ Inr] by blast
    qed
  qed
qed simp

text \<open>
  What both removals end with: a catalog published over the state that was read, and the
  deletion of the keys that it no longer names.
\<close>

definition removal_done ::
  "jat_lib \<Rightarrow> 'f catalog_io \<Rightarrow> (string \<Rightarrow> string) \<Rightarrow> catalog \<Rightarrow> (string \<Rightarrow> string \<Rightarrow> bool) \<Rightarrow> string list \<Rightarrow> store \<Rightarrow>
    'f option \<Rightarrow> 'f option \<Rightarrow> store \<Rightarrow> nat option \<Rightarrow> bool" where
  "removal_done lib io sha c gone recipients st current published st' left \<longleftrightarrow>
     (\<exists>updated now. file_publish io updated recipients = Inr published \<and>
        file_read lib io current = Inr now \<and> cat_revision now = cat_revision c \<and>
        cat_revision updated = cat_revision c + 1 \<and>
        (\<forall>p s. body_snapshot (cat_body updated) p s = (if gone p s then None else body_snapshot (cat_body c) p s)) \<and>
        (\<forall>p s v d n body. body_snapshot (cat_body updated) p s = Some v \<longrightarrow> download_file sha st (key_of v) d n = Inr body \<longrightarrow>
           download_file sha st' (key_of v) d n = Inr body) \<and>
        (left = None \<longrightarrow> (\<forall>k \<in> set (referenced_keys (cat_body c)) - set (referenced_keys (cat_body updated)). st' k = None)) \<and>
        (\<forall>k. k \<notin> set (referenced_keys (cat_body c)) \<longrightarrow> st' k = st k) \<and> store_inv sha st')"

lemma removal_doneI:
  assumes "cat_inv lib updated" "cat_revision updated = cat_revision c + 1"
    "\<And>p s. body_snapshot (cat_body updated) p s = (if gone p s then None else body_snapshot (cat_body c) p s)"
    "set freed = set (referenced_keys (cat_body c)) - set (referenced_keys (cat_body updated))" "distinct freed"
    "file_update_if_revision lib io (jget (cat_body c) ''revision'') updated recipients current = Inr published"
    "cleanup st freed = (st', failed)" "store_inv sha st"
  shows "removal_done lib io sha c gone recipients st current published st' (pending failed)"
proof -
  obtain now where pub: "file_read lib io current = Inr now" "cat_revision now = int_of (jget (cat_body c) ''revision'')"
      "file_publish io updated recipients = Inr published"
    using assms(6) by (auto simp: file_update_if_revision_def check_simps split: if_splits)
  note cl = cleanup_spec[OF assms(7,5)]
  have keep: "st' k = st k" if "k \<notin> set freed" for k using cl that by simp
  have "download_file sha st' (key_of v) d n = Inr body"
    if v: "body_snapshot (cat_body updated) p s = Some v" "download_file sha st (key_of v) d n = Inr body" for p s v d n body
  proof -
    have "key_of v \<in> set (referenced_keys (cat_body updated))"
      using referenced_iff[OF cat_inv_body(2)[OF assms(1)]] v(1) by blast
    then have "st' (key_of v) = st (key_of v)" by (intro keep) (simp add: assms(4))
    then show ?thesis using v(2) by (simp add: download_Inr)
  qed
  moreover have "st' k = None" if "pending failed = None"
      "k \<in> set (referenced_keys (cat_body c)) - set (referenced_keys (cat_body updated))" for k
    using cl that unfolding assms(4)[symmetric] by (auto simp: pending_def split: if_splits)
  moreover have "st' k = st k" if "k \<notin> set (referenced_keys (cat_body c))" for k
    using that assms(4) by (intro keep) simp
  ultimately show ?thesis
    unfolding removal_done_def using pub assms(2,3,8) cl
    by (intro exI[of _ updated] exI[of _ now]) (simp add: cat_revision_def)
qed

text \<open>C4. Removing a recovery point is safe from end to end: when it succeeds, the catalog that
  was published replaced one of the very revision that was read, lacks exactly that recovery
  point, and has the next revision; every object that a remaining recovery point of any room
  names can still be downloaded as before, objects the catalog never named are untouched,
  and, unless a retry is reported as pending, every object that nothing names any more is gone.\<close>
theorem recovery_point_removal_safe:
  assumes "cat_inv lib c" "file_read lib io seen = Inr c" "store_inv sha st"
    and "remove_recovery_point lib io seen current st pid sid recipients expected_revision expected_snapshots =
      Inr (result, published, st')"
  shows "removal_done lib io sha c (\<lambda>p s. p = pid \<and> s = sid) recipients st current published st' (sr_cleanup_pending result)"
proof -
  obtain updated freed last_one where r1: "remove_snapshot lib c pid sid = Inr (updated, freed, last_one)"
    using assms(2,4) by (auto simp: remove_recovery_point_def check_simps split: prod.splits)
  obtain st1 failed where cl: "cleanup st freed = (st1, failed)" by (cases "cleanup st freed")
  have r: "remove_snapshot lib c pid sid = Inr (updated, freed, last_one)"
      "file_update_if_revision lib io (jget (cat_body c) ''revision'') updated recipients current = Inr published"
      "cleanup st freed = (st', failed)" "sr_cleanup_pending result = pending failed"
    using assms(2,4) cl by (auto simp: r1 remove_recovery_point_def check_simps)
  have e: "cat_inv lib updated \<and> cat_revision updated = cat_revision c + 1 \<and>
      (\<forall>p s. body_snapshot (cat_body updated) p s = (if p = pid \<and> s = sid then None else body_snapshot (cat_body c) p s)) \<and>
      set freed = set (referenced_keys (cat_body c)) - set (referenced_keys (cat_body updated)) \<and> distinct freed"
    by (rule remove_snapshot_changes[OF assms(1) r(1)])
  show ?thesis
    unfolding r(4) by (rule removal_doneI[OF _ _ _ _ _ r(2,3) assms(3)]) (use e in auto)
qed

definition demo_store :: store where
  "demo_store k = (if k = demo_key CHR ''a'' then Some (Regular ''x'') else None)"

theorem recovery_point_removal_safe_witness:
  "\<exists>result published st'. remove_recovery_point demo_jat_lib plain_io
      (Some (cat_body (demo_catalog [(''s1'', CHR ''a''), (''s2'', CHR ''b'')] ''s2'' 2)))
      (Some (cat_body (demo_catalog [(''s1'', CHR ''a''), (''s2'', CHR ''b'')] ''s2'' 2)))
      demo_store ''room'' ''s1'' [] (JInt 2) (Some [''s1'', ''s2'']) = Inr (result, published, st') \<and>
    removal_done demo_jat_lib plain_io (\<lambda>_. replicate 64 CHR ''a'') (demo_catalog [(''s1'', CHR ''a''), (''s2'', CHR ''b'')] ''s2'' 2)
      (\<lambda>p s. p = ''room'' \<and> s = ''s1'') [] demo_store
      (Some (cat_body (demo_catalog [(''s1'', CHR ''a''), (''s2'', CHR ''b'')] ''s2'' 2))) published st' None"
proof -
  let ?c = "demo_catalog [(''s1'', CHR ''a''), (''s2'', CHR ''b'')] ''s2'' 2"
  let ?f = "Some (cat_body ?c)"
  have read: "file_read demo_jat_lib plain_io ?f = Inr ?c" by code_simp
  have "OBJECT_KEY (demo_key CHR ''a'') = Some (replicate 64 CHR ''a'')" by code_simp
  then have inv: "store_inv (\<lambda>_. replicate 64 CHR ''a'') demo_store"
    by (auto simp: store_inv_def demo_store_def MAX_OBJECT_SIZE_def)
  have "case remove_recovery_point demo_jat_lib plain_io ?f ?f demo_store ''room'' ''s1'' [] (JInt 2) (Some [''s1'', ''s2'']) of
      Inl _ \<Rightarrow> False | Inr (result, _) \<Rightarrow> sr_cleanup_pending result = None" by code_simp
  then obtain result published st' where r:
      "remove_recovery_point demo_jat_lib plain_io ?f ?f demo_store ''room'' ''s1'' [] (JInt 2) (Some [''s1'', ''s2'']) = Inr (result, published, st')"
      "sr_cleanup_pending result = None"
    by (auto split: sum.splits prod.splits)
  show ?thesis
    using recovery_point_removal_safe[OF demo_catalog_inv read inv r(1)] r by (intro exI conjI) simp_all
qed

text \<open>The same for a whole room.\<close>

theorem room_removal_safe:
  assumes "cat_inv lib c" "file_read lib io seen = Inr c" "store_inv sha st"
    and "remove_room lib io seen current st pid recipients expected_revision expected_snapshots = Inr (result, published, st')"
  shows "removal_done lib io sha c (\<lambda>p s. p = pid) recipients st current published st' (rm_cleanup_pending result)"
proof -
  obtain updated freed n where r1: "remove_project lib c pid = Inr (updated, freed, n)"
    using assms(2,4) by (auto simp: remove_room_def check_simps split: prod.splits)
  obtain st1 failed where cl: "cleanup st freed = (st1, failed)" by (cases "cleanup st freed")
  have r: "remove_project lib c pid = Inr (updated, freed, n)"
      "file_update_if_revision lib io (jget (cat_body c) ''revision'') updated recipients current = Inr published"
      "cleanup st freed = (st', failed)" "rm_cleanup_pending result = pending failed"
    using assms(2,4) cl by (auto simp: r1 remove_room_def check_simps)
  note e = remove_project_Inr[OF assms(1) r(1)]
  show ?thesis unfolding r(4) by (rule removal_doneI[OF e(1-5) r(2,3) assms(3)])
qed

text \<open>C19. The two accounts of what a removal frees agree: the object keys that the Room Store
  removal plan lists for a recovery point are exactly the keys that the catalog operation
  releases for deletion, and the plan expects the revision the operation starts from.\<close>
theorem plan_agrees_with_catalog:
  assumes "cat_inv lib c" "build_reference_index lib c descs = Inr ix"
    and "plan_catalog_record_removal ix report (pid, sid) = Inr plan"
    and "remove_snapshot lib c pid sid = Inr (c', freed, last_one)"
  shows "rp_object_keys_to_delete plan = set freed \<and> rp_expected_revision plan = cat_revision c \<and>
    cat_revision c' = rp_expected_revision plan + 1"
proof -
  note wf = cat_inv_body(2)[OF assms(1)]
  note C = index_contents[OF assms(2) wf]
  note e = remove_snapshot_changes[OF assms(1,4)]
  have wf': "wf_json (JObj (cat_body c'))" using e cat_inv_body(2) by blast
  obtain target where t: "map_of (ix_records ix) (pid, sid) = Some target" "rp_expected_revision plan = ix_catalog_revision ix"
    and del: "rp_object_keys_to_delete plan =
       {cr_object_key target} - cr_object_key ` {r. \<exists>k. k \<noteq> (pid, sid) \<and> (k, r) \<in> set (ix_records ix)}"
    by (rule plan_Inr[OF assms(3)])
  obtain v where v: "body_snapshot (cat_body c) pid sid = Some v" "cr_object_key target = key_of v"
    using C(2)[OF t(1)] C(1) t(1) by fastforce
  define others where "others = cr_object_key ` {r. \<exists>k. k \<noteq> (pid, sid) \<and> (k, r) \<in> set (ix_records ix)}"
  have others: "others = set (referenced_keys (cat_body c'))"
  proof (rule set_eqI)
    fix x
    have "x \<in> others \<longleftrightarrow> (\<exists>p s cr. (p, s) \<noteq> (pid, sid) \<and> map_of (ix_records ix) (p, s) = Some cr \<and> cr_object_key cr = x)"
      using C(6) by (auto simp: others_def image_iff)
    also have "\<dots> \<longleftrightarrow> (\<exists>p s w. (p, s) \<noteq> (pid, sid) \<and> body_snapshot (cat_body c) p s = Some w \<and> key_of w = x)"
      using C(1,2) by (metis option.inject)
    also have "\<dots> \<longleftrightarrow> (\<exists>p s w. body_snapshot (cat_body c') p s = Some w \<and> key_of w = x)"
      using e by (simp, metis option.discI)
    also have "\<dots> \<longleftrightarrow> x \<in> set (referenced_keys (cat_body c'))" using referenced_iff[OF wf'] by blast
    finally show "x \<in> others \<longleftrightarrow> x \<in> set (referenced_keys (cat_body c'))" .
  qed
  have before: "set (referenced_keys (cat_body c)) \<subseteq> insert (key_of v) (set (referenced_keys (cat_body c')))"
  proof
    fix x assume "x \<in> set (referenced_keys (cat_body c))"
    then obtain p s w where w: "body_snapshot (cat_body c) p s = Some w" "key_of w = x" using referenced_iff[OF wf] by blast
    show "x \<in> insert (key_of v) (set (referenced_keys (cat_body c')))"
    proof (cases "p = pid \<and> s = sid")
      case False
      then have "body_snapshot (cat_body c') p s = Some w" using e w(1) by simp
      then show ?thesis using referenced_iff[OF wf'] w(2) by blast
    qed (use w v in auto)
  qed
  have "key_of v \<in> set (referenced_keys (cat_body c))" using referenced_iff[OF wf] v(1) by blast
  then have "set freed = {key_of v} - set (referenced_keys (cat_body c'))" using e before by auto
  then have "rp_object_keys_to_delete plan = set freed" unfolding del v(2) others_def[symmetric] others by simp
  then show ?thesis using t(2) C(8) e by simp
qed

theorem plan_agrees_with_catalog_witness:
  "\<exists>ix report plan c' freed l. plan_catalog_record_removal ix report (''room'', ''s1'') = Inr plan \<and>
     remove_snapshot demo_jat_lib demo_v3 ''room'' ''s1'' = Inr (c', freed, l) \<and> rp_object_keys_to_delete plan = set freed"
proof -
  obtain ix report where ix: "build_reference_index demo_jat_lib demo_v3 [] = Inr ix" "ix_records ix = ra_records demo_acc"
    "ix_repository_id ix = None" "compare_restic_inventory ix demo_repository demo_inventory = Inr report"
    "rr_catalog_revision report = ix_catalog_revision ix" "rr_fingerprint report = ix_fingerprint ix"
    by (rule demo_v3_report)
  have "\<exists>plan. plan_catalog_record_removal ix report (''room'', ''s1'') = Inr plan"
    using ix by (simp add: plan_catalog_record_removal_def raise_if_def demo_acc_def Let_def remaining_records_def)
  then obtain plan where p: "plan_catalog_record_removal ix report (''room'', ''s1'') = Inr plan" by blast
  let ?body = "[(''format_version'', JInt 3), (''dimension_id'', JStr ''dim''), (''encryption_domain_id'', JStr demo_domain),
      (''revision'', JInt 3), (''projects'', JObj [])]"
  have "validate_identifier ''dimension'' (JStr ''dim'') = Inr ()" by code_simp
  then have "check_body demo_jat_lib ?body = Inr ()"
    using demo_domain_ok by (simp add: check_body_def check_simps jget_def)
  then have make: "catalog_make demo_jat_lib ?body JNull = Inr \<lparr>cat_body = ?body, cat_domain = JStr demo_domain\<rparr>"
    using demo_domain_ok by (simp add: catalog_make_None jget_def)
  have "bump (set_projects [] (cat_body demo_v3)) = ?body"
    by (simp add: demo_v3_def bump_def set_projects_def jget_def)
  then have "\<exists>c' freed l. remove_snapshot demo_jat_lib demo_v3 ''room'' ''s1'' = Inr (c', freed, l)"
    using make by (simp add: remove_snapshot_def demo_v3_def projects_of_def snapshots_of_def demo_room_def jget_def) blast
  then obtain c' freed l where r: "remove_snapshot demo_jat_lib demo_v3 ''room'' ''s1'' = Inr (c', freed, l)" by blast
  show ?thesis using plan_agrees_with_catalog[OF demo_v3_inv ix(1) p r] p r by blast
qed

end
