(* ===== verification/Url.thy ===== *)
theory Url
  imports Prelude
begin

text \<open>
  The parts of Python's standard library that the capture policy reads text with:
  \<^verbatim>\<open>str.partition\<close>, \<^verbatim>\<open>str.rpartition\<close>, \<^verbatim>\<open>str.removesuffix\<close>,
  \<^verbatim>\<open>urllib.parse.urlsplit\<close> with the attributes of its result,
  \<^verbatim>\<open>urllib.parse.unquote\<close> and \<^verbatim>\<open>posixpath.normpath\<close>, written after their
  CPython implementations, with the lemmas that evaluate them on well-formed text.

  The check that \<^verbatim>\<open>urlsplit\<close> makes of a bracketed IP literal is an argument
  (\<open>bracketed\<close>), since it differs between the releases of Python. The Unicode
  normalisation test of an authority never rejects one whose characters are below 256.
\<close>


section \<open>Partitions of strings\<close>

definition partition_on :: "char \<Rightarrow> string \<Rightarrow> string \<times> bool \<times> string" where
  "partition_on c s =
     (let h = takeWhile (\<lambda>x. x \<noteq> c) s; t = dropWhile (\<lambda>x. x \<noteq> c) s
      in (h, t \<noteq> [], tl t))"

text \<open>When the separator is absent, \<^verbatim>\<open>rpartition\<close> returns the string as its last part.\<close>

definition rpartition_on :: "char \<Rightarrow> string \<Rightarrow> string \<times> bool \<times> string" where
  "rpartition_on c s =
     (let t = rev (takeWhile (\<lambda>x. x \<noteq> c) (rev s)); h = rev (tl (dropWhile (\<lambda>x. x \<noteq> c) (rev s)))
      in (h, c \<in> set s, t))"

definition removesuffix :: "string \<Rightarrow> string \<Rightarrow> string" where
  "removesuffix suffix s = (if ends_with s suffix then take (length s - length suffix) s else s)"

definition removeprefix :: "string \<Rightarrow> string \<Rightarrow> string" where
  "removeprefix p s = (if starts_with s p then drop (length p) s else s)"

lemma takeWhile_sep: "c \<notin> set h \<Longrightarrow> takeWhile (\<lambda>x. x \<noteq> c) (h @ c # t) = h"
  by (subst takeWhile_append2) auto

lemma dropWhile_sep: "c \<notin> set h \<Longrightarrow> dropWhile (\<lambda>x. x \<noteq> c) (h @ c # t) = c # t"
  by (subst dropWhile_append2) auto

lemma takeWhile_absent: "c \<notin> set s \<Longrightarrow> takeWhile (\<lambda>x. x \<noteq> c) s = s"
  by (rule takeWhile_eq_all_conv[THEN iffD2]) auto

lemma dropWhile_absent: "c \<notin> set s \<Longrightarrow> dropWhile (\<lambda>x. x \<noteq> c) s = []"
  by (rule dropWhile_eq_Nil_conv[THEN iffD2]) auto

lemmas sep_simps = takeWhile_sep dropWhile_sep takeWhile_absent dropWhile_absent

lemma partition_on_sep: "c \<notin> set h \<Longrightarrow> partition_on c (h @ c # t) = (h, True, t)"
  by (simp add: partition_on_def Let_def sep_simps)

lemma partition_on_absent: "c \<notin> set s \<Longrightarrow> partition_on c s = (s, False, [])"
  by (simp add: partition_on_def Let_def sep_simps)

lemma rpartition_on_sep: "c \<notin> set t \<Longrightarrow> rpartition_on c (h @ c # t) = (h, True, t)"
  by (simp add: rpartition_on_def Let_def sep_simps)

lemma rpartition_on_absent: "c \<notin> set s \<Longrightarrow> rpartition_on c s = ([], False, s)"
  by (simp add: rpartition_on_def Let_def sep_simps)

lemma starts_with_append [simp]: "starts_with (p @ s) p"
  by (simp add: starts_with_def)

lemma ends_with_append [simp]: "ends_with (s @ p) p"
  by (simp add: ends_with_def)

lemma removesuffix_append [simp]: "removesuffix p (s @ p) = s"
  by (simp add: removesuffix_def)


section \<open>urlsplit\<close>

record split_url =
  su_scheme :: string
  su_netloc :: string
  su_path :: string
  su_query :: string
  su_fragment :: string

definition is_alpha :: "char \<Rightarrow> bool" where
  "is_alpha c \<longleftrightarrow> is_lower c \<or> is_upper c"

definition is_scheme_char :: "char \<Rightarrow> bool" where
  "is_scheme_char c \<longleftrightarrow> is_alnum c \<or> c \<in> set ''+-.''"

text \<open>
  What \<^verbatim>\<open>urlsplit\<close> removes first: leading control characters and spaces, and every
  tab, carriage return and line feed.
\<close>

definition url_clean :: "string \<Rightarrow> string" where
  "url_clean s = filter (\<lambda>c. code c \<notin> {9, 10, 13}) (dropWhile (\<lambda>c. code c \<le> 32) s)"

definition split_scheme :: "string \<Rightarrow> string \<times> string" where
  "split_scheme url =
     (let (h, found, t) = partition_on CHR '':'' url in
      if found \<and> h \<noteq> [] \<and> is_alpha (hd h) \<and> list_all is_scheme_char h then (lower h, t) else ([], url))"

definition split_netloc :: "string \<Rightarrow> string \<times> string" where
  "split_netloc url =
     (takeWhile (\<lambda>c. c \<notin> set ''/?#'') (drop 2 url), dropWhile (\<lambda>c. c \<notin> set ''/?#'') (drop 2 url))"

definition brackets_ok :: "(string \<Rightarrow> bool) \<Rightarrow> string \<Rightarrow> bool" where
  "brackets_ok bracketed netloc \<longleftrightarrow>
     (CHR ''['' \<in> set netloc \<longleftrightarrow> CHR '']'' \<in> set netloc) \<and> (CHR ''['' \<in> set netloc \<longrightarrow> bracketed netloc)"

text \<open>None where \<^verbatim>\<open>urlsplit\<close> raises ValueError.\<close>

definition urlsplit_of :: "(string \<Rightarrow> bool) \<Rightarrow> string \<Rightarrow> split_url option" where
  "urlsplit_of bracketed s =
     (let (scheme, url) = split_scheme (url_clean s);
          (netloc, rest) = (if starts_with url ''//'' then split_netloc url else ([], url));
          (rest', _, fragment) = partition_on CHR ''#'' rest;
          (path, _, query) = partition_on CHR ''?'' rest'
      in if brackets_ok bracketed netloc
         then Some \<lparr>su_scheme = scheme, su_netloc = netloc, su_path = path, su_query = query, su_fragment = fragment\<rparr>
         else None)"

definition su_username :: "split_url \<Rightarrow> string option" where
  "su_username u =
     (let (info, have_info, _) = rpartition_on CHR ''@'' (su_netloc u) in
      if have_info then Some (fst (partition_on CHR '':'' info)) else None)"

definition su_password :: "split_url \<Rightarrow> string option" where
  "su_password u =
     (let (info, have_info, _) = rpartition_on CHR ''@'' (su_netloc u);
          (_, have_password, password) = partition_on CHR '':'' info in
      if have_info \<and> have_password then Some password else None)"

definition su_hostname :: "split_url \<Rightarrow> string option" where
  "su_hostname u =
     (let (_, _, hostinfo) = rpartition_on CHR ''@'' (su_netloc u);
          (_, have_open, bracketed) = partition_on CHR ''['' hostinfo;
          host = (if have_open then fst (partition_on CHR '']'' bracketed) else fst (partition_on CHR '':'' hostinfo));
          (name, percent, zone) = partition_on CHR ''%'' host in
      if host = [] then None else Some (lower name @ (if percent then ''%'' else []) @ zone))"


section \<open>unquote\<close>

text \<open>
  Percent-decoding to bytes. The standard library then decodes the bytes as UTF-8 with
  replacement characters; a byte from 128 up stands here for itself, which is the same to
  a caller that, like \<^verbatim>\<open>RepositoryIdentity.from_remote\<close>, accepts ASCII characters only.
\<close>

definition hex_digit :: "char \<Rightarrow> nat option" where
  "hex_digit c =
     (if is_digit c then Some (code c - 48)
      else if 97 \<le> code c \<and> code c \<le> 102 then Some (code c - 87)
      else if 65 \<le> code c \<and> code c \<le> 70 then Some (code c - 55)
      else None)"

fun unquote :: "string \<Rightarrow> string" where
  "unquote [] = []"
| "unquote [c] = [c]"
| "unquote [c, d] = [c, d]"
| "unquote (c # d # e # s) =
     (if c = CHR ''%'' then
        (case (hex_digit d, hex_digit e) of
           (Some x, Some y) \<Rightarrow> char_of (16 * x + y) # unquote s
         | _ \<Rightarrow> c # unquote (d # e # s))
      else c # unquote (d # e # s))"

lemma unquote_id: "CHR ''%'' \<notin> set s \<Longrightarrow> unquote s = s"
  by (induction s rule: unquote.induct) auto


section \<open>normpath\<close>

definition initial_slashes :: "string \<Rightarrow> nat" where
  "initial_slashes path =
     (if starts_with path ''//'' \<and> \<not> starts_with path ''///'' then 2 else if starts_with path ''/'' then 1 else 0)"

text \<open>The loop over the components; the components kept so far are in reverse order.\<close>

fun norm_comps :: "bool \<Rightarrow> string list \<Rightarrow> string list \<Rightarrow> string list" where
  "norm_comps absolute kept [] = rev kept"
| "norm_comps absolute kept (c # cs) =
     (if c \<in> {[], ''.''} then norm_comps absolute kept cs
      else if c \<noteq> ''..'' \<or> (\<not> absolute \<and> kept = []) \<or> (kept \<noteq> [] \<and> hd kept = ''..'')
      then norm_comps absolute (c # kept) cs
      else norm_comps absolute (tl kept) cs)"

definition normpath :: "string \<Rightarrow> string" where
  "normpath path =
     (if path = [] then ''.''
      else let body = replicate (initial_slashes path) CHR ''/'' @
                 join_on CHR ''/'' (norm_comps (initial_slashes path \<noteq> 0) [] (split_on CHR ''/'' path))
           in if body = [] then ''.'' else body)"

text \<open>
  A parent reference survives only at the head of a relative path, so the normal form of
  an absolute path has none.
\<close>

definition ups_first :: "bool \<Rightarrow> string list \<Rightarrow> bool" where
  "ups_first absolute cs \<longleftrightarrow> (''..'' \<in> set cs \<longrightarrow> \<not> absolute \<and> hd cs = ''..'')"

lemma norm_comps_ups_first:
  "ups_first absolute (rev kept) \<Longrightarrow> ups_first absolute (norm_comps absolute kept cs)"
proof (induction absolute kept cs rule: norm_comps.induct)
  case (2 absolute kept c cs)
  have push: "ups_first absolute (rev (c # kept))"
    if "c \<noteq> ''..'' \<or> (\<not> absolute \<and> kept = []) \<or> (kept \<noteq> [] \<and> hd kept = ''..'')"
    using that "2.prems" by (cases kept) (auto simp: ups_first_def hd_append)
  have pop: "ups_first absolute (rev (tl kept))"
    using "2.prems" by (cases kept) (auto simp: ups_first_def hd_append split: if_splits)
  show ?case using 2 push pop by auto
qed simp

lemma norm_comps_mem: "c \<in> set (norm_comps absolute kept cs) \<Longrightarrow> c \<in> set kept \<or> (c \<in> set cs \<and> c \<notin> {[], ''.''})"
proof (induction absolute kept cs rule: norm_comps.induct)
  case (2 absolute kept d cs)
  have "set (tl kept) \<subseteq> set kept" by (cases kept) auto
  then show ?case using 2 by (auto split: if_splits)
qed simp

lemma split_normpath:
  assumes "path \<noteq> []"
  shows "\<exists>ps. split_on CHR ''/'' (normpath path) = replicate (initial_slashes path) [] @ ps \<and>
    (''..'' \<in> set ps \<longrightarrow> initial_slashes path = 0 \<and> hd ps = ''..'')"
proof -
  define cs where "cs = norm_comps (initial_slashes path \<noteq> 0) [] (split_on CHR ''/'' path)"
  have slash: "\<forall>c \<in> set cs. CHR ''/'' \<notin> set c"
    using norm_comps_mem split_on_parts unfolding cs_def by fastforce
  have up: "''..'' \<in> set cs \<Longrightarrow> initial_slashes path = 0 \<and> hd cs = ''..''"
    using norm_comps_ups_first[of "initial_slashes path \<noteq> 0" "[]" "split_on CHR ''/'' path"]
    by (auto simp: cs_def ups_first_def)
  have reps: "split_on CHR ''/'' (replicate n CHR ''/'' @ t) = replicate n [] @ split_on CHR ''/'' t" for n t
    by (induction n) auto
  let ?body = "replicate (initial_slashes path) CHR ''/'' @ join_on CHR ''/'' cs"
  have np: "normpath path = (if ?body = [] then ''.'' else ?body)"
    using assms unfolding normpath_def cs_def Let_def by (simp only: if_False)
  show ?thesis
  proof (cases "cs = []")
    case True
    then have b: "?body = replicate (initial_slashes path) CHR ''/''" by simp
    show ?thesis
    proof (cases "initial_slashes path = 0")
      case True
      then show ?thesis using b np by (intro exI[of _ "[''.'']"]) simp
    next
      case False
      then show ?thesis using b np reps[of _ "[]"] by (intro exI[of _ "[[]]"]) simp
    qed
  next
    case False
    have sp: "split_on CHR ''/'' ?body = replicate (initial_slashes path) [] @ cs"
      using reps split_join[OF False slash] by simp
    show ?thesis
    proof (cases "?body = []")
      case True
      then show ?thesis using np by (intro exI[of _ "[''.'']"]) simp
    next
      case False
      then have e: "normpath path = ?body" using np by (simp only: if_False)
      show ?thesis unfolding e sp using up by blast
    qed
  qed
qed

end
