(* ===== verification/Policy.thy ===== *)
theory Policy
  imports Url Json
begin

text \<open>
  Model of \<^verbatim>\<open>src/josh_room/policy.py\<close>: the host-owned capture policy. It validates a
  policy document, reads the observed context of a workspace (its repository remote and
  path) and decides whether a capture may leave the host.

  An exception of class PolicyConfigError or PolicyInputError is represented by its reason
  code. The fields that Python leaves untyped (the operator's override, the sizes and
  sources of a request) are JSON values, so that every type test of the code is a test
  here.
\<close>


section \<open>Constants and character classes\<close>

definition PROFILE_NAMES :: "string list" where
  "PROFILE_NAMES = [''personal'', ''work'', ''oss'', ''homelab'']"

definition POLICY_SCHEMA_URI :: string where
  "POLICY_SCHEMA_URI = ''https://josh-room.invalid/schemas/capture-policy-v1.schema.json''"

definition CAPTURE_MODES :: "string list" where
  "CAPTURE_MODES = [''metadata-only'', ''transcript'', ''transcript-and-assets'']"

definition TRIGGERS :: "string list" where
  "TRIGGERS = [''manual'', ''session-end'', ''stop'', ''subagent-stop'', ''reconcile'']"

definition PATH_KINDS :: "string list" where
  "PATH_KINDS = [''directory'', ''worktree'', ''remote'', ''wsl'', ''symlink'', ''unknown'']"

definition SECRET_SOURCE_MARKERS :: "string list" where
  "SECRET_SOURCE_MARKERS = [''access'', ''auth'', ''bearer'', ''cookie'', ''credential'', ''identity'', ''key'',
     ''password'', ''secret'', ''token'']"

definition DOT_SEGMENTS :: "string list" where
  "DOT_SEGMENTS = [''.'', ''..'']"

definition LOGICAL_SOURCE_MAX_ITEMS :: nat where "LOGICAL_SOURCE_MAX_ITEMS = 32"
definition LOGICAL_SOURCE_MAX_LENGTH :: nat where "LOGICAL_SOURCE_MAX_LENGTH = 96"
definition REPOSITORY_NAMESPACE_MAX_LENGTH :: nat where "REPOSITORY_NAMESPACE_MAX_LENGTH = 128"
definition REPOSITORY_NAME_MAX_LENGTH :: nat where "REPOSITORY_NAME_MAX_LENGTH = 128"

text \<open>\<^verbatim>\<open>[a-z0-9]\<close>, the class most of the expressions below repeat.\<close>

definition is_lower_alnum :: "char \<Rightarrow> bool" where
  "is_lower_alnum c \<longleftrightarrow> is_lower c \<or> is_digit c"

text \<open>\<^verbatim>\<open>^[a-z][a-z0-9._-]{0,63}$\<close>\<close>

fun IDENTIFIER_RE :: "string \<Rightarrow> bool" where
  "IDENTIFIER_RE [] = False"
| "IDENTIFIER_RE (c # cs) =
     (is_lower c \<and> length cs \<le> 63 \<and> list_all (\<lambda>x. is_lower_alnum x \<or> x \<in> set ''._-'') cs)"

text \<open>\<^verbatim>\<open>^[a-z0-9.-]{1,253}$\<close>\<close>

definition HOST_RE :: "string \<Rightarrow> bool" where
  "HOST_RE s \<longleftrightarrow> s \<noteq> [] \<and> length s \<le> 253 \<and> list_all (\<lambda>x. is_lower_alnum x \<or> x \<in> set ''.-'') s"

text \<open>\<^verbatim>\<open>^[A-Za-z0-9._-]{1,128}$\<close>\<close>

definition PART_RE :: "string \<Rightarrow> bool" where
  "PART_RE s \<longleftrightarrow> s \<noteq> [] \<and> length s \<le> 128 \<and> list_all is_ident_char s"

text \<open>
  \<^verbatim>\<open>^[a-z][a-z0-9]*(?:[.-][a-z0-9]+)*$\<close>: the flag says that the last character was a
  separator, after which a letter or a digit has to come.
\<close>

fun source_tail :: "bool \<Rightarrow> string \<Rightarrow> bool" where
  "source_tail after_sep [] = (\<not> after_sep)"
| "source_tail after_sep (c # cs) =
     (if is_lower_alnum c then source_tail False cs
      else c \<in> set ''.-'' \<and> \<not> after_sep \<and> source_tail True cs)"

fun SOURCE_RE :: "string \<Rightarrow> bool" where
  "SOURCE_RE [] = False"
| "SOURCE_RE (c # cs) = (is_lower c \<and> source_tail False cs)"

text \<open>\<^verbatim>\<open>^[a-z][a-z0-9.-]{2,63}$\<close>\<close>

fun REASON_RE :: "string \<Rightarrow> bool" where
  "REASON_RE [] = False"
| "REASON_RE (c # cs) =
     (is_lower c \<and> 2 \<le> length cs \<and> length cs \<le> 63 \<and> list_all (\<lambda>x. is_lower_alnum x \<or> x \<in> set ''.-'') cs)"


section \<open>Validators\<close>

definition policy_identifier :: "json \<Rightarrow> string result" where
  "policy_identifier v =
     (case v of JStr s \<Rightarrow> if IDENTIFIER_RE s then Inr s else Inl (PolicyConfigError ''policy.invalid-identifier'')
      | _ \<Rightarrow> Inl (PolicyConfigError ''policy.invalid-identifier''))"

definition positive_int :: "json \<Rightarrow> int result" where
  "positive_int v =
     (if \<not> type_is_int v \<or> int_of v < 1 then Inl (PolicyConfigError ''policy.invalid-limit'') else Inr (int_of v))"

definition validate_capture_size :: "json \<Rightarrow> int result" where
  "validate_capture_size v = (if \<not> type_is_int v then Inl (PolicyInputError ''size.invalid'') else Inr (int_of v))"

definition secret_like :: "string \<Rightarrow> bool" where
  "secret_like source =
     list_ex (\<lambda>segment. list_ex (contains segment) SECRET_SOURCE_MARKERS)
       (split_on CHR ''.'' (removeprefix ''codex.'' source))"

definition source_checks :: "string \<Rightarrow> unit result list" where
  "source_checks source =
     [raise_if (length source > LOGICAL_SOURCE_MAX_LENGTH \<or> \<not> SOURCE_RE source \<or> \<not> starts_with source ''codex.'')
        (PolicyInputError ''source.invalid''),
      raise_if (secret_like source) (PolicyInputError ''source.secret-like'')]"

text \<open>A list and a tuple are both a JSON list here.\<close>

definition sanitize_logical_sources :: "bool \<Rightarrow> json \<Rightarrow> string list result" where
  "sanitize_logical_sources allow_empty v =
     (case v of
        JList xs \<Rightarrow>
          bind_r (checks [
            raise_if ((xs = [] \<and> \<not> allow_empty) \<or> length xs > LOGICAL_SOURCE_MAX_ITEMS \<or> \<not> list_all is_str xs)
              (PolicyInputError ''source.invalid''),
            raise_if (\<not> distinct xs) (PolicyInputError ''source.invalid'')]) (\<lambda>_.
          bind_r (checks (concat (map (source_checks \<circ> str_of) xs))) (\<lambda>_. Inr (map str_of xs)))
      | _ \<Rightarrow> Inl (PolicyInputError ''source.invalid''))"


section \<open>Repository identities\<close>

record RepositoryIdentity =
  ri_host :: string
  ri_namespace :: string
  ri_name :: string

definition host_sanitized :: "json \<Rightarrow> bool" where
  "host_sanitized v \<longleftrightarrow> is_str v \<and> HOST_RE (lower (str_of v)) \<and> str_of v = lower (str_of v)"

definition namespace_sanitized :: "json \<Rightarrow> bool" where
  "namespace_sanitized v \<longleftrightarrow>
     is_str v \<and> str_of v \<noteq> [] \<and> length (str_of v) \<le> REPOSITORY_NAMESPACE_MAX_LENGTH \<and>
     \<not> list_ex (\<lambda>p. p \<in> set DOT_SEGMENTS) (split_on CHR ''/'' (str_of v)) \<and>
     list_all PART_RE (split_on CHR ''/'' (str_of v))"

definition name_sanitized :: "json \<Rightarrow> bool" where
  "name_sanitized v \<longleftrightarrow>
     is_str v \<and> length (str_of v) \<le> REPOSITORY_NAME_MAX_LENGTH \<and> str_of v \<notin> set DOT_SEGMENTS \<and> PART_RE (str_of v)"

text \<open>The constructor with its \<^verbatim>\<open>__post_init__\<close>.\<close>

definition repository_make :: "json \<Rightarrow> json \<Rightarrow> json \<Rightarrow> RepositoryIdentity result" where
  "repository_make host namespace name =
     bind_r (checks [
        raise_if (\<not> host_sanitized host) (ValueError ''repository host is not sanitized''),
        raise_if (\<not> namespace_sanitized namespace) (ValueError ''repository namespace is not sanitized''),
        raise_if (\<not> name_sanitized name) (ValueError ''repository name is not sanitized'')])
     (\<lambda>_. Inr \<lparr>ri_host = str_of host, ri_namespace = str_of namespace, ri_name = str_of name\<rparr>)"

text \<open>
  The two regular expressions that recognise the short forms of a remote:
  \<^verbatim>\<open>^[^/@:]+:[^@]+@\<close> and \<^verbatim>\<open>^[^/@]+@[^:]+:.+$\<close> (a remote has no line feed when they
  are tried).
\<close>

definition scp_password_form :: "string \<Rightarrow> bool" where
  "scp_password_form s \<longleftrightarrow>
     (let user = takeWhile (\<lambda>c. c \<notin> set ''/@:'') s; t = drop (length user) s;
          secret = takeWhile (\<lambda>c. c \<noteq> CHR ''@'') (tl t); u = drop (length secret) (tl t)
      in user \<noteq> [] \<and> t \<noteq> [] \<and> hd t = CHR '':'' \<and> secret \<noteq> [] \<and> u \<noteq> [])"

definition scp_form :: "string \<Rightarrow> bool" where
  "scp_form s \<longleftrightarrow>
     (let user = takeWhile (\<lambda>c. c \<notin> set ''/@'') s; t = drop (length user) s;
          host = takeWhile (\<lambda>c. c \<noteq> CHR '':'') (tl t); u = drop (length host) (tl t)
      in user \<noteq> [] \<and> t \<noteq> [] \<and> hd t = CHR ''@'' \<and> host \<noteq> [] \<and> u \<noteq> [] \<and> tl u \<noteq> [])"

definition credential_error :: py_error where
  "credential_error = ValueError ''credential-bearing repository remote is rejected''"

definition remote_error :: py_error where
  "remote_error = ValueError ''repository remote is invalid''"

definition truthy_str :: "string option \<Rightarrow> bool" where
  "truthy_str v \<longleftrightarrow> v \<noteq> None \<and> v \<noteq> Some []"

text \<open>The host and path of a remote, by either of its two syntaxes.\<close>

definition remote_host_path :: "(string \<Rightarrow> bool) \<Rightarrow> string \<Rightarrow> (string \<times> string) result" where
  "remote_host_path bracketed remote =
     (if scp_form remote then
        (let (user, _, rest) = partition_on CHR ''@'' remote; (host, _, path) = partition_on CHR '':'' rest in
         if user \<noteq> ''git'' then Inl credential_error else Inr (host, path))
      else (case urlsplit_of bracketed remote of
          None \<Rightarrow> Inl remote_error
        | Some u \<Rightarrow>
            if su_scheme u \<notin> {''http'', ''https'', ''ssh'', ''git''} \<or> \<not> truthy_str (su_hostname u) then Inl remote_error
            else if su_password u \<noteq> None \<or>
              (su_username u \<noteq> None \<and> (su_scheme u \<in> {''http'', ''https''} \<or> su_username u \<noteq> Some ''git''))
            then Inl credential_error
            else if su_query u \<noteq> [] \<or> su_fragment u \<noteq> [] then Inl remote_error
            else Inr (the (su_hostname u), su_path u)))"

definition from_remote :: "(string \<Rightarrow> bool) \<Rightarrow> string \<Rightarrow> RepositoryIdentity result" where
  "from_remote bracketed remote =
     (if remote = [] \<or> list_ex (\<lambda>c. code c < 32 \<or> is_space c) remote then Inl remote_error
      else if \<not> contains remote ''://'' \<and> scp_password_form remote then Inl credential_error
      else bind_r (remote_host_path bracketed remote) (\<lambda>(host, path).
        let host' = rstrip_chars ''.'' (lower host); path' = strip_chars ''/'' (unquote path);
            parts = split_on CHR ''/'' (removesuffix ''.git'' path') in
        if \<not> HOST_RE host' then Inl remote_error
        else if list_ex (\<lambda>p. p \<in> set DOT_SEGMENTS) (split_on CHR ''/'' path')
        then Inl (ValueError ''repository remote contains a dot segment'')
        else if length parts < 2 \<or> \<not> list_all PART_RE parts then Inl remote_error
        else repository_make (JStr host') (JStr (join_on CHR ''/'' (butlast parts))) (JStr (last parts))))"

definition stable_id :: "RepositoryIdentity \<Rightarrow> string" where
  "stable_id r = ri_host r @ ''/'' @ ri_namespace r @ ''/'' @ ri_name r"

definition repository_to_public :: "RepositoryIdentity \<Rightarrow> jobj" where
  "repository_to_public r = [(''host'', JStr (ri_host r)), (''namespace'', JStr (ri_namespace r)), (''name'', JStr (ri_name r))]"



section \<open>Workspace paths\<close>

text \<open>\<^verbatim>\<open>re.sub(r"/{2,}", "/", path)\<close>\<close>

fun collapse_slashes :: "string \<Rightarrow> string" where
  "collapse_slashes [] = []"
| "collapse_slashes [c] = [c]"
| "collapse_slashes (c # d # s) =
     (if c = CHR ''/'' \<and> d = CHR ''/'' then collapse_slashes (d # s) else c # collapse_slashes (d # s))"

text \<open>\<^verbatim>\<open>^/?[A-Za-z]:\<close>: what follows an optional slash, when it is a drive letter and a colon.\<close>

definition drive_tail :: "string \<Rightarrow> (char \<times> string) option" where
  "drive_tail path =
     (let s = removeprefix ''/'' path in
      case s of a # b # t \<Rightarrow> if is_alpha a \<and> b = CHR '':'' then Some (a, t) else None | _ \<Rightarrow> None)"

text \<open>\<^verbatim>\<open>^/?([A-Za-z]):(?:/|$)(.*)$\<close>: the two groups.\<close>

definition drive_match :: "string \<Rightarrow> (char \<times> string) option" where
  "drive_match path =
     (case drive_tail path of
        Some (a, []) \<Rightarrow> Some (a, [])
      | Some (a, c # t) \<Rightarrow> if c = CHR ''/'' then Some (a, t) else None
      | None \<Rightarrow> None)"

definition wsl_prefix :: "string \<Rightarrow> bool" where
  "wsl_prefix path \<longleftrightarrow> starts_with (lower path) ''/wsl.localhost/'' \<or> starts_with (lower path) ''/wsl$/''"

definition wsl_path :: "string \<Rightarrow> string" where
  "wsl_path path =
     (if wsl_prefix path
      then ''/wsl/'' @ lower (join_on CHR ''/'' (tl (filter (\<lambda>p. p \<noteq> []) (split_on CHR ''/'' path))))
      else path)"

definition lexical_path :: "(string \<Rightarrow> bool) \<Rightarrow> string \<Rightarrow> string result" where
  "lexical_path bracketed path =
     (if drive_tail path \<noteq> None then Inr (collapse_slashes path)
      else (case urlsplit_of bracketed path of
          None \<Rightarrow> Inl (ValueError ''Invalid IPv6 URL'')
        | Some u \<Rightarrow> Inr (if su_scheme u \<noteq> [] \<and> su_netloc u \<noteq> [] then su_path u else collapse_slashes path)))"

definition normalize_workspace_path :: "(string \<Rightarrow> bool) \<Rightarrow> string \<Rightarrow> string result" where
  "normalize_workspace_path bracketed v =
     (if v = [] \<or> list_ex (\<lambda>c. code c < 32) v then Inl (ValueError ''workspace path is invalid'')
      else bind_r (lexical_path bracketed (map (\<lambda>c. if c = backslash then CHR ''/'' else c) v)) (\<lambda>path0.
        let path1 = wsl_path path0; drive = drive_match path1;
            path2 = (case drive of Some (a, t) \<Rightarrow> ''/'' @ [lower_char a] @ ''/'' @ t | None \<Rightarrow> path1);
            n0 = normpath path2; n1 = (if n0 = ''.'' then ''/'' else n0) in
        if n1 = ''..'' \<or> starts_with n1 ''../'' then Inl (ValueError ''workspace path escapes its root'')
        else let n2 = (if drive \<noteq> None then lower n1 else n1); n3 = rstrip_chars ''/'' n2
             in Inr (if n3 = [] then ''/'' else n3)))"


section \<open>Contexts and requests\<close>

record PolicyContext =
  pc_workspace_id :: "string option"
  pc_repository :: "RepositoryIdentity option"
  pc_workspace_path :: "string option"
  pc_normalized_workspace_path :: "string option"
  pc_path_kind :: string
  pc_context_source :: string
  pc_remote_error :: "string option"
  pc_path_error :: "string option"
  pc_claimed_values :: jobj

text \<open>\<^verbatim>\<open>str(error)\<close> of a ValueError.\<close>

definition error_text :: "py_error \<Rightarrow> string" where
  "error_text e = (case e of ValueError m \<Rightarrow> m | _ \<Rightarrow> [])"

definition caught :: "'a result \<Rightarrow> 'a option \<times> string option" where
  "caught r = (case r of Inl e \<Rightarrow> (None, Some (error_text e)) | Inr x \<Rightarrow> (Some x, None))"

definition context_from_values ::
  "(string \<Rightarrow> bool) \<Rightarrow> string option \<Rightarrow> string option \<Rightarrow> string option \<Rightarrow> string \<Rightarrow> string \<Rightarrow> PolicyContext" where
  "context_from_values bracketed workspace_id remote workspace_path path_kind context_source =
     (let (repository, remote_err) = (case remote of None \<Rightarrow> (None, None) | Some r \<Rightarrow> caught (from_remote bracketed r));
          (normalized, path_err) =
            (case workspace_path of None \<Rightarrow> (None, None) | Some p \<Rightarrow> caught (normalize_workspace_path bracketed p)) in
      \<lparr>pc_workspace_id = workspace_id, pc_repository = repository, pc_workspace_path = workspace_path,
       pc_normalized_workspace_path = normalized,
       pc_path_kind = (if path_kind \<in> set PATH_KINDS then path_kind else ''unknown''),
       pc_context_source = context_source, pc_remote_error = remote_err, pc_path_error = path_err, pc_claimed_values = []\<rparr>)"

definition context_from_untrusted :: "json \<Rightarrow> json \<Rightarrow> jobj \<Rightarrow> PolicyContext" where
  "context_from_untrusted workspace_id remote claims =
     \<lparr>pc_workspace_id = None, pc_repository = None, pc_workspace_path = None, pc_normalized_workspace_path = None,
      pc_path_kind = ''unknown'', pc_context_source = ''untrusted'', pc_remote_error = None, pc_path_error = None,
      pc_claimed_values = fold (\<lambda>(k, v) d. AList.update k v d) claims [(''workspace_id'', workspace_id), (''remote'', remote)]\<rparr>"

record OperatorOverride =
  ov_profile_name :: json
  ov_interactive :: json
  ov_confirmed :: json
  ov_actor :: json
  ov_audit_reason_code :: json
  ov_cross_scope_confirmed :: json

record CaptureRequest =
  cr_context :: PolicyContext
  cr_logical_sources :: "string list"
  cr_trigger :: string
  cr_record_bytes :: int
  cr_asset_bytes :: int
  cr_session_bytes :: int
  cr_outbox_bytes :: int
  cr_operator_override :: "OperatorOverride option"

definition capture_request_make ::
  "PolicyContext \<Rightarrow> json \<Rightarrow> json \<Rightarrow> json \<Rightarrow> json \<Rightarrow> json \<Rightarrow> json \<Rightarrow> OperatorOverride option \<Rightarrow> CaptureRequest result" where
  "capture_request_make context sources trigger record_bytes asset_bytes session_bytes outbox_bytes override =
     bind_r (map_r validate_capture_size [record_bytes, asset_bytes, session_bytes, outbox_bytes]) (\<lambda>_.
     bind_r (raise_if (\<not> is_str trigger) (PolicyInputError ''trigger.invalid'')) (\<lambda>_.
     bind_r (sanitize_logical_sources True sources) (\<lambda>names.
       Inr \<lparr>cr_context = context, cr_logical_sources = names, cr_trigger = str_of trigger,
         cr_record_bytes = int_of record_bytes, cr_asset_bytes = int_of asset_bytes,
         cr_session_bytes = int_of session_bytes, cr_outbox_bytes = int_of outbox_bytes,
         cr_operator_override = override\<rparr>)))"


section \<open>Policies\<close>

record Limits =
  per_record_bytes :: int
  per_asset_bytes :: int
  per_session_bytes :: int
  local_outbox_bytes :: int
  retention_days :: int

record R2Binding =
  rb_binding_id :: string
  rb_scope :: string
  rb_credential_profile_ref :: string

record Destination =
  ds_kind :: string
  ds_binding_id :: "string option"

record MatchRule =
  mr_workspace_id :: string
  mr_repository :: RepositoryIdentity

record DenyRule = MatchRule +
  dr_reason_code :: string

definition rule_matches :: "'a MatchRule_scheme \<Rightarrow> PolicyContext \<Rightarrow> bool" where
  "rule_matches r c \<longleftrightarrow> pc_workspace_id c = Some (mr_workspace_id r) \<and> pc_repository c = Some (mr_repository r)"

record CaptureProfile =
  pr_name :: string
  pr_profile_id :: string
  pr_workspace_id :: string
  pr_allowed_sources :: "string list"
  pr_capture_mode :: string
  pr_triggers :: "string list"
  pr_destination :: Destination
  pr_recipient_set_ref :: string
  pr_limits :: Limits
  pr_allow_rules :: "MatchRule list"
  pr_deny_rules :: "DenyRule list"
  pr_downstream_memory :: bool
  pr_policy_version :: string
  pr_provenance :: string

record PolicyConfig =
  cfg_profiles :: "(string, CaptureProfile) dict"
  cfg_r2_bindings :: "(string, R2Binding) dict"

abbreviation pc_error :: "string \<Rightarrow> py_error" where
  "pc_error \<equiv> PolicyConfigError"

text \<open>\<^verbatim>\<open>isinstance(raw, Mapping) and set(raw) == names\<close>\<close>

definition has_exactly :: "json \<Rightarrow> string list \<Rightarrow> bool" where
  "has_exactly v names \<longleftrightarrow> is_obj v \<and> set (keys (obj_of v)) = set names"

definition repository_from_dict :: "json \<Rightarrow> RepositoryIdentity result" where
  "repository_from_dict raw =
     (if \<not> has_exactly raw [''host'', ''namespace'', ''name''] then Inl (pc_error ''policy.repository-shape'')
      else (case repository_make (jget (obj_of raw) ''host'') (jget (obj_of raw) ''namespace'') (jget (obj_of raw) ''name'') of
          Inl _ \<Rightarrow> Inl (pc_error ''policy.repository-invalid'')
        | Inr r \<Rightarrow> Inr r))"

text \<open>The part of \<^verbatim>\<open>_match_rule\<close> that allow and deny rules share.\<close>

definition match_fields :: "string list \<Rightarrow> json \<Rightarrow> MatchRule result" where
  "match_fields expected raw =
     (if \<not> is_obj raw \<or> \<not> set (keys (obj_of raw)) \<subseteq> set expected \<or> \<not> has_key (obj_of raw) ''workspace_id''
      then Inl (pc_error ''policy.match-shape'')
      else if \<not> has_key (obj_of raw) ''repository'' then Inl (pc_error ''policy.match-repository'')
      else bind_r (policy_identifier (jget (obj_of raw) ''workspace_id'')) (\<lambda>w.
        bind_r (repository_from_dict (jget (obj_of raw) ''repository'')) (\<lambda>r.
          Inr \<lparr>mr_workspace_id = w, mr_repository = r\<rparr>)))"

definition match_rule :: "json \<Rightarrow> MatchRule result" where
  "match_rule raw = match_fields [''workspace_id'', ''repository''] raw"

definition deny_rule :: "json \<Rightarrow> DenyRule result" where
  "deny_rule raw =
     bind_r (match_fields [''workspace_id'', ''repository'', ''reason_code''] raw) (\<lambda>m.
       let reason = jget (obj_of raw) ''reason_code'' in
       if \<not> is_str reason \<or> \<not> REASON_RE (str_of reason) then Inl (pc_error ''policy.reason-code'')
       else Inr (MatchRule.extend m (DenyRule.fields (str_of reason))))"

definition destination_from_dict :: "string \<Rightarrow> (string, R2Binding) dict \<Rightarrow> json \<Rightarrow> Destination result" where
  "destination_from_dict name bindings raw =
     (if \<not> is_obj raw \<or> \<not> has_key (obj_of raw) ''kind'' then Inl (pc_error ''policy.destination-shape'')
      else if jget (obj_of raw) ''kind'' = JStr ''local-only'' then
        (if \<not> has_exactly raw [''kind''] then Inl (pc_error ''policy.destination-shape'')
         else Inr \<lparr>ds_kind = ''local-only'', ds_binding_id = None\<rparr>)
      else if jget (obj_of raw) ''kind'' = JStr ''private-r2'' then
        (if \<not> has_exactly raw [''kind'', ''binding_id''] then Inl (pc_error ''policy.destination-shape'')
         else bind_r (policy_identifier (jget (obj_of raw) ''binding_id'')) (\<lambda>b.
           case map_of bindings b of
             None \<Rightarrow> Inl (pc_error ''policy.destination-missing'')
           | Some binding \<Rightarrow>
               if rb_scope binding \<noteq> name then Inl (pc_error ''policy.destination-scope'')
               else Inr \<lparr>ds_kind = ''private-r2'', ds_binding_id = Some b\<rparr>))
      else Inl (pc_error ''policy.destination-kind''))"

definition LIMIT_FIELDS :: "string list" where
  "LIMIT_FIELDS = [''per_record_bytes'', ''per_asset_bytes'', ''per_session_bytes'', ''local_outbox_bytes'', ''retention_days'']"

definition limits_from_dict :: "json \<Rightarrow> Limits result" where
  "limits_from_dict raw =
     (if \<not> has_exactly raw LIMIT_FIELDS then Inl (pc_error ''policy.limits-shape'')
      else bind_r (map_r (\<lambda>k. positive_int (jget (obj_of raw) k)) LIMIT_FIELDS) (\<lambda>vs.
        Inr \<lparr>per_record_bytes = vs ! 0, per_asset_bytes = vs ! 1, per_session_bytes = vs ! 2,
          local_outbox_bytes = vs ! 3, retention_days = vs ! 4\<rparr>))"

definition PROFILE_FIELDS :: "string list" where
  "PROFILE_FIELDS = [''profile_id'', ''workspace_id'', ''allowed_sources'', ''capture_mode'', ''triggers'', ''destination'',
     ''recipient_set_ref'', ''limits'', ''allow_rules'', ''deny_rules'', ''downstream_memory'', ''policy_version'', ''provenance'']"

definition triggers_ok :: "json \<Rightarrow> bool" where
  "triggers_ok v \<longleftrightarrow>
     is_list v \<and> list_of v \<noteq> [] \<and> list_all (\<lambda>t. is_str t \<and> str_of t \<in> set TRIGGERS) (list_of v) \<and> distinct (list_of v)"

definition profile_from_dict :: "(string, R2Binding) dict \<Rightarrow> string \<Rightarrow> json \<Rightarrow> CaptureProfile result" where
  "profile_from_dict bindings name raw =
     (let f = jget (obj_of raw) in
      if \<not> has_exactly raw PROFILE_FIELDS then Inl (pc_error ''policy.profile-shape'')
      else if name \<notin> set PROFILE_NAMES then Inl (pc_error ''policy.profile-name'')
      else bind_r (policy_identifier (f ''profile_id'')) (\<lambda>profile_id.
        bind_r (policy_identifier (f ''workspace_id'')) (\<lambda>workspace_id.
        bind_r (case sanitize_logical_sources False (f ''allowed_sources'') of
                  Inl _ \<Rightarrow> Inl (pc_error ''policy.sources'') | Inr xs \<Rightarrow> Inr xs) (\<lambda>sources.
        bind_r (checks [
            raise_if (\<not> is_str (f ''capture_mode'') \<or> str_of (f ''capture_mode'') \<notin> set CAPTURE_MODES)
              (pc_error ''policy.capture-mode''),
            raise_if (\<not> triggers_ok (f ''triggers'')) (pc_error ''policy.triggers'')]) (\<lambda>_.
        bind_r (destination_from_dict name bindings (f ''destination'')) (\<lambda>destination.
        bind_r (limits_from_dict (f ''limits'')) (\<lambda>limits.
        bind_r (raise_if (\<not> is_list (f ''allow_rules'') \<or> \<not> is_list (f ''deny_rules'')) (pc_error ''policy.match-list'')) (\<lambda>_.
        bind_r (map_r match_rule (list_of (f ''allow_rules''))) (\<lambda>allow_rules.
        bind_r (map_r deny_rule (list_of (f ''deny_rules''))) (\<lambda>deny_rules.
        bind_r (checks [
            raise_if (list_ex (\<lambda>r. mr_workspace_id r \<noteq> workspace_id) allow_rules \<or>
                list_ex (\<lambda>r. mr_workspace_id r \<noteq> workspace_id) deny_rules) (pc_error ''policy.match-workspace''),
            raise_if (\<not> type_is_bool (f ''downstream_memory'')) (pc_error ''policy.memory-permission''),
            raise_if (f ''policy_version'' \<noteq> JStr ''1.0'' \<or> f ''provenance'' \<noteq> JStr ''private-host-config'')
              (pc_error ''policy.provenance'')]) (\<lambda>_.
        bind_r (policy_identifier (f ''recipient_set_ref'')) (\<lambda>recipients.
          Inr \<lparr>pr_name = name, pr_profile_id = profile_id, pr_workspace_id = workspace_id, pr_allowed_sources = sources,
            pr_capture_mode = str_of (f ''capture_mode''), pr_triggers = map str_of (list_of (f ''triggers'')),
            pr_destination = destination, pr_recipient_set_ref = recipients, pr_limits = limits,
            pr_allow_rules = allow_rules, pr_deny_rules = deny_rules,
            pr_downstream_memory = (f ''downstream_memory'' = JBool True),
            pr_policy_version = ''1.0'', pr_provenance = ''private-host-config''\<rparr>))))))))))))"

definition binding_from_dict :: "string \<times> json \<Rightarrow> (string \<times> R2Binding) result" where
  "binding_from_dict = (\<lambda>(binding_id, raw).
     bind_r (policy_identifier (JStr binding_id)) (\<lambda>b.
       if \<not> has_exactly raw [''scope'', ''credential_profile_ref''] then Inl (pc_error ''policy.binding-shape'')
       else let scope = jget (obj_of raw) ''scope'' in
         if \<not> is_str scope \<or> str_of scope \<notin> set PROFILE_NAMES then Inl (pc_error ''policy.binding-scope'')
         else bind_r (policy_identifier (jget (obj_of raw) ''credential_profile_ref'')) (\<lambda>ref.
           Inr (b, \<lparr>rb_binding_id = b, rb_scope = str_of scope, rb_credential_profile_ref = ref\<rparr>))))"

definition config_from_dict :: "json \<Rightarrow> PolicyConfig result" where
  "config_from_dict body =
     (let f = jget (obj_of body); version = f ''schema_version'' in
      bind_r (checks [
        raise_if (\<not> is_obj body) (pc_error ''policy.not-object''),
        raise_if (\<not> has_exactly body [''$schema'', ''schema'', ''schema_version'', ''r2_bindings'', ''profiles''])
          (pc_error ''policy.shape''),
        raise_if (f ''$schema'' \<noteq> JStr POLICY_SCHEMA_URI) (pc_error ''policy.schema-identity''),
        raise_if (f ''schema'' \<noteq> JStr ''josh-room.capture-policy'') (pc_error ''policy.schema-unknown''),
        raise_if (\<not> has_exactly version [''major'', ''minor'']) (pc_error ''policy.schema-version-shape''),
        raise_if (jget (obj_of version) ''major'' \<noteq> JInt 1 \<or> jget (obj_of version) ''minor'' \<noteq> JInt 0)
          (pc_error ''policy.version-unsupported''),
        raise_if (\<not> is_obj (f ''r2_bindings'')) (pc_error ''policy.bindings-shape'')]) (\<lambda>_.
      bind_r (map_r binding_from_dict (obj_of (f ''r2_bindings''))) (\<lambda>bindings.
      bind_r (raise_if (\<not> has_exactly (f ''profiles'') PROFILE_NAMES) (pc_error ''policy.profiles-shape'')) (\<lambda>_.
      bind_r (map_r (\<lambda>(name, raw). bind_r (profile_from_dict bindings name raw) (\<lambda>p. Inr (name, p)))
        (obj_of (f ''profiles''))) (\<lambda>profiles.
      bind_r (checks [
        raise_if (\<not> distinct (map (pr_profile_id \<circ> snd) profiles)) (pc_error ''policy.profile-id-duplicate''),
        raise_if (\<not> distinct (map (pr_workspace_id \<circ> snd) profiles)) (pc_error ''policy.workspace-id-duplicate'')]) (\<lambda>_.
        Inr \<lparr>cfg_profiles = profiles, cfg_r2_bindings = bindings\<rparr>))))))"



section \<open>Decisions\<close>

record Decision =
  d_kind :: string
  d_reason_codes :: "string list"
  d_profile_name :: "string option"
  d_profile_id :: "string option"
  d_workspace_id :: "string option"
  d_destination_class :: string
  d_logical_sources :: "string list"
  d_estimated_sizes :: "(string, int) dict"
  d_authority :: string
  d_operator_override :: "string option"
  d_operator_reason_code :: "string option"
  d_policy_version :: "string option"
  d_provenance :: "string option"

definition CAPTURE_SIZE_FIELDS :: "string list" where
  "CAPTURE_SIZE_FIELDS = [''record_bytes'', ''asset_bytes'', ''session_bytes'', ''outbox_bytes'']"

text \<open>The \<^verbatim>\<open>__post_init__\<close> of a decision.\<close>

definition decision_make :: "Decision \<Rightarrow> Decision result" where
  "decision_make d =
     bind_r (sanitize_logical_sources True (JList (map JStr (d_logical_sources d)))) (\<lambda>names.
     bind_r (raise_if (d_estimated_sizes d \<noteq> [] \<and> set (keys (d_estimated_sizes d)) \<noteq> set CAPTURE_SIZE_FIELDS)
       (PolicyInputError ''size.invalid'')) (\<lambda>_. Inr (d\<lparr>d_logical_sources := names\<rparr>)))"

definition request_sizes :: "CaptureRequest \<Rightarrow> (string, int) dict" where
  "request_sizes r = [(''record_bytes'', cr_record_bytes r), (''asset_bytes'', cr_asset_bytes r),
     (''session_bytes'', cr_session_bytes r), (''outbox_bytes'', cr_outbox_bytes r)]"

text \<open>Who decided: the authority, the overriding profile and its audit reason.\<close>

type_synonym decider = "string \<times> string option \<times> string option"

abbreviation host_policy :: decider where
  "host_policy \<equiv> (''host-policy'', None, None)"

definition decision :: "string \<Rightarrow> string list \<Rightarrow> CaptureRequest \<Rightarrow> CaptureProfile option \<Rightarrow> decider \<Rightarrow> Decision result" where
  "decision kind reasons request profile by = (case by of (authority, override, reason) \<Rightarrow>
     decision_make \<lparr>d_kind = kind, d_reason_codes = reasons,
       d_profile_name = map_option pr_name profile, d_profile_id = map_option pr_profile_id profile,
       d_workspace_id = map_option pr_workspace_id profile,
       d_destination_class = (case profile of
           Some p \<Rightarrow> if kind \<in> {''allow'', ''local-only''} then ds_kind (pr_destination p) else ''local-only''
         | None \<Rightarrow> ''local-only''),
       d_logical_sources = cr_logical_sources request, d_estimated_sizes = request_sizes request,
       d_authority = authority, d_operator_override = override, d_operator_reason_code = reason,
       d_policy_version = map_option pr_policy_version profile, d_provenance = map_option pr_provenance profile\<rparr>)"

definition matching_profiles :: "PolicyConfig \<Rightarrow> PolicyContext \<Rightarrow> CaptureProfile list" where
  "matching_profiles config context =
     filter (\<lambda>p. list_ex (\<lambda>r. rule_matches r context) (pr_allow_rules p)) (vals (cfg_profiles config))"

definition matching_denials :: "PolicyConfig \<Rightarrow> PolicyContext \<Rightarrow> (string \<times> string) list" where
  "matching_denials config context =
     concat (map (\<lambda>p. map (\<lambda>r. (pr_name p, dr_reason_code r)) (filter (\<lambda>r. rule_matches r context) (pr_deny_rules p)))
       (vals (cfg_profiles config)))"

definition override_unavailable :: "PolicyConfig \<Rightarrow> OperatorOverride \<Rightarrow> bool" where
  "override_unavailable config ov \<longleftrightarrow>
     ov_actor ov \<noteq> JStr ''operator-cli'' \<or> \<not> type_is_bool (ov_interactive ov) \<or> \<not> type_is_bool (ov_confirmed ov) \<or>
     \<not> type_is_bool (ov_cross_scope_confirmed ov) \<or> \<not> truthy (ov_interactive ov) \<or> \<not> truthy (ov_confirmed ov) \<or>
     \<not> is_str (ov_profile_name ov) \<or> \<not> has_key (cfg_profiles config) (str_of (ov_profile_name ov))"

definition reason_missing :: "OperatorOverride \<Rightarrow> bool" where
  "reason_missing ov \<longleftrightarrow> \<not> is_str (ov_audit_reason_code ov) \<or> \<not> REASON_RE (str_of (ov_audit_reason_code ov))"

definition operator_by :: "OperatorOverride \<Rightarrow> decider" where
  "operator_by ov = (''operator-cli'', Some (str_of (ov_profile_name ov)), Some (str_of (ov_audit_reason_code ov)))"

text \<open>
  The choice of the profile: either the decision that ends the evaluation, or the profile
  and who chose it.
\<close>

definition choose_profile ::
  "PolicyConfig \<Rightarrow> CaptureRequest \<Rightarrow> (Decision result) + (CaptureProfile \<times> decider)" where
  "choose_profile config request =
     (let candidates = matching_profiles config (cr_context request) in
      case cr_operator_override request of
        Some ov \<Rightarrow>
          if override_unavailable config ov
          then Inl (decision ''local-only'' [''operator.override-unavailable''] request None host_policy)
          else if reason_missing ov
          then Inl (decision ''local-only'' [''operator.audit-reason-required''] request None host_policy)
          else if list_ex (\<lambda>p. JStr (pr_name p) \<noteq> ov_profile_name ov) candidates \<and> \<not> truthy (ov_cross_scope_confirmed ov)
          then Inl (decision ''local-only'' [''operator.scope-change-confirmation-required''] request None (operator_by ov))
          else (case map_of (cfg_profiles config) (str_of (ov_profile_name ov)) of
              Some p \<Rightarrow> Inr (p, operator_by ov)
            | None \<Rightarrow> Inl (Inl (KeyError (str_of (ov_profile_name ov)))))
      | None \<Rightarrow>
          (case candidates of
             [] \<Rightarrow> Inl (decision ''local-only'' [''context.unknown''] request None host_policy)
           | [p] \<Rightarrow> Inr (p, host_policy)
           | _ \<Rightarrow> Inl (decision ''quarantine'' [''policy.ambiguous-profile''] request None host_policy)))"

definition limit_checks :: "CaptureRequest \<Rightarrow> CaptureProfile \<Rightarrow> (int \<times> int \<times> string) list" where
  "limit_checks request profile =
     [(cr_record_bytes request, per_record_bytes (pr_limits profile), ''limits.per-record''),
      (cr_asset_bytes request, per_asset_bytes (pr_limits profile), ''limits.per-asset''),
      (cr_session_bytes request, per_session_bytes (pr_limits profile), ''limits.per-session''),
      (cr_outbox_bytes request, local_outbox_bytes (pr_limits profile), ''limits.local-outbox'')]"

text \<open>The checks against the chosen profile.\<close>

definition decide_in :: "CaptureRequest \<Rightarrow> CaptureProfile \<Rightarrow> decider \<Rightarrow> Decision result" where
  "decide_in request profile by =
     (if cr_trigger request \<notin> set (pr_triggers profile)
      then decision ''deny'' [''trigger.not-allowed''] request (Some profile) by
      else if \<not> set (cr_logical_sources request) \<subseteq> set (pr_allowed_sources profile)
      then decision ''deny'' [''source.not-allowed''] request (Some profile) by
      else if pr_capture_mode profile = ''metadata-only'' \<and>
        list_ex (\<lambda>s. ends_with s ''transcript'' \<or> ends_with s ''assets'') (cr_logical_sources request)
      then decision ''deny'' [''capture-mode.metadata-only''] request (Some profile) by
      else if pr_capture_mode profile = ''transcript'' \<and> list_ex (\<lambda>s. ends_with s ''assets'') (cr_logical_sources request)
      then decision ''deny'' [''capture-mode.assets-not-allowed''] request (Some profile) by
      else (case find (\<lambda>(observed, limit, reason). observed < 0 \<or> observed > limit) (limit_checks request profile) of
          Some (_, _, reason) \<Rightarrow> decision ''quarantine'' [reason] request (Some profile) by
        | None \<Rightarrow>
            if ds_kind (pr_destination profile) = ''local-only''
            then decision ''local-only'' [''destination.local-only''] request (Some profile) by
            else decision ''allow'' [''policy.allowed''] request (Some profile) by))"

definition decide :: "PolicyConfig \<Rightarrow> CaptureRequest \<Rightarrow> Decision result" where
  "decide config request =
     (let context = cr_context request; denied = matching_denials config context in
      if pc_context_source context \<noteq> ''host-observed''
      then decision ''local-only'' [''context.untrusted''] request None host_policy
      else if truthy_str (pc_remote_error context)
      then decision ''quarantine''
        [if contains (the (pc_remote_error context)) ''credential-bearing'' then ''repository.remote-credentials''
         else ''repository.remote-invalid''] request None host_policy
      else if truthy_str (pc_path_error context)
      then decision ''quarantine'' [''workspace.path-invalid''] request None host_policy
      else if pc_path_kind context = ''symlink''
      then decision ''quarantine'' [''workspace.symlink''] request None host_policy
      else if cr_logical_sources request = []
      then decision ''deny'' [''source.empty''] request None host_policy
      else if denied \<noteq> [] then
        (let (name, reason) = py_min denied in
         case map_of (cfg_profiles config) name of
           Some p \<Rightarrow> decision ''deny'' [''policy.explicit-deny'', reason] request (Some p) host_policy
         | None \<Rightarrow> Inl (KeyError name))
      else (case choose_profile config request of
          Inl d \<Rightarrow> d
        | Inr (profile, by) \<Rightarrow> decide_in request profile by))"

definition opt_json :: "string option \<Rightarrow> json" where
  "opt_json v = (case v of None \<Rightarrow> JNull | Some s \<Rightarrow> JStr s)"

definition to_dry_run :: "Decision \<Rightarrow> jobj" where
  "to_dry_run d =
     [(''decision'', JStr (d_kind d)), (''reason_codes'', JList (map JStr (d_reason_codes d))),
      (''profile'', opt_json (d_profile_name d)), (''profile_id'', opt_json (d_profile_id d)),
      (''workspace_id'', opt_json (d_workspace_id d)), (''logical_sources'', JList (map JStr (d_logical_sources d))),
      (''estimated_sizes'', JObj (map (\<lambda>(k, n). (k, JInt n)) (d_estimated_sizes d))),
      (''destination_class'', JStr (d_destination_class d)), (''authority'', JStr (d_authority d)),
      (''operator_override'', opt_json (d_operator_override d)),
      (''operator_reason_code'', opt_json (d_operator_reason_code d)),
      (''policy_version'', opt_json (d_policy_version d)), (''provenance'', opt_json (d_provenance d))]"

definition dry_run :: "PolicyConfig \<Rightarrow> CaptureRequest \<Rightarrow> jobj result" where
  "dry_run config request = bind_r (decide config request) (\<lambda>d. Inr (to_dry_run d))"

end
