(* ===== verification/PolicyFile.thy ===== *)
theory PolicyFile
  imports Policy
begin

text \<open>
  Model of \<^verbatim>\<open>src/josh_room/policy_config.py\<close>: the private file that holds the capture
  policy, and the decision that is taken from it. What the host shows of its file system
  is a record of observations (\<^verbatim>\<open>lstat\<close>, \<^verbatim>\<open>read_text\<close>, the user id and the
  environment), on a system with POSIX paths.
\<close>

datatype file_kind = Symlink | Directory | RegularFile | OtherFile

record file_status =
  st_kind :: file_kind
  st_uid :: int
  st_mode :: nat

text \<open>FileNotFoundError, another OSError or ValueError, or a status.\<close>

datatype lstat_result = Absent | Unreadable | Status file_status

text \<open>An absolute path: its base and its components, as \<^verbatim>\<open>Path.parts\<close> has them.\<close>

type_synonym abs_path = "string \<times> string list"

record policy_host =
  ph_posix :: bool
  ph_uid :: int
  ph_xdg_config_home :: "string option"
  ph_home :: string
  ph_lstat :: "abs_path \<Rightarrow> lstat_result"
  ph_read_text :: "abs_path \<Rightarrow> string option"
  ph_parse_float :: "string \<Rightarrow> rat"

definition path_parts :: "string \<Rightarrow> abs_path" where
  "path_parts s =
     (replicate (initial_slashes s) CHR ''/'', norm_comps True [] (split_on CHR ''/'' s))"

definition config_home_of :: "policy_host \<Rightarrow> string option \<Rightarrow> abs_path result" where
  "config_home_of host config_home =
     (let configured = (case config_home of
            Some p \<Rightarrow> p
          | None \<Rightarrow> (case ph_xdg_config_home host of Some p \<Rightarrow> p | None \<Rightarrow> ph_home host @ ''/.config'')) in
      if (config_home = None \<and> ph_xdg_config_home host = Some []) \<or> \<not> starts_with configured ''/''
      then Inl (pc_error ''policy.config-home-invalid'')
      else Inr (path_parts configured))"

text \<open>
  \<^verbatim>\<open>_validate_no_symlink_components\<close>: every prefix of the path that exists is not a
  symbolic link; the walk stops at the first that does not exist.
\<close>

fun no_symlink_from :: "policy_host \<Rightarrow> abs_path \<Rightarrow> string list \<Rightarrow> unit result" where
  "no_symlink_from host current [] = Inr ()"
| "no_symlink_from host current (part # parts) =
     (let next = (fst current, snd current @ [part]) in
      case ph_lstat host next of
        Absent \<Rightarrow> Inr ()
      | Unreadable \<Rightarrow> Inl (pc_error ''policy.config-boundary'')
      | Status st \<Rightarrow> if st_kind st = Symlink then Inl (pc_error ''policy.config-boundary'') else no_symlink_from host next parts)"

definition validate_no_symlink_components :: "policy_host \<Rightarrow> abs_path \<Rightarrow> unit result" where
  "validate_no_symlink_components host path = no_symlink_from host (fst path, []) (snd path)"

definition validate_owner :: "policy_host \<Rightarrow> file_status \<Rightarrow> string \<Rightarrow> unit result" where
  "validate_owner host st reason = raise_if (ph_posix host \<and> st_uid st \<noteq> ph_uid host) (pc_error reason)"

text \<open>\<^verbatim>\<open>stat.S_IMODE(mode) & 0o077\<close>\<close>

definition group_or_world :: "file_status \<Rightarrow> bool" where
  "group_or_world st \<longleftrightarrow> st_mode st mod 64 \<noteq> 0"

definition validate_config_home_root :: "policy_host \<Rightarrow> abs_path \<Rightarrow> unit result" where
  "validate_config_home_root host base =
     bind_r (validate_no_symlink_components host base) (\<lambda>_.
     case ph_lstat host base of
       Absent \<Rightarrow> Inr ()
     | Unreadable \<Rightarrow> Inl (pc_error ''policy.config-boundary'')
     | Status st \<Rightarrow> checks [
         raise_if (st_kind st = Symlink) (pc_error ''policy.config-boundary''),
         raise_if (st_kind st \<noteq> Directory) (pc_error ''policy.config-home-invalid''),
         validate_owner host st ''policy.config-owner''])"

definition validate_private_policy_dir :: "policy_host \<Rightarrow> abs_path \<Rightarrow> abs_path result" where
  "validate_private_policy_dir host base =
     (let dir = (fst base, snd base @ [''josh-room'']) in
      bind_r (validate_no_symlink_components host dir) (\<lambda>_.
      case ph_lstat host dir of
        Absent \<Rightarrow> Inr dir
      | Unreadable \<Rightarrow> Inl (pc_error ''policy.config-boundary'')
      | Status st \<Rightarrow> bind_r (checks [
          raise_if (st_kind st = Symlink) (pc_error ''policy.config-boundary''),
          raise_if (st_kind st \<noteq> Directory) (pc_error ''policy.config-boundary''),
          validate_owner host st ''policy.config-owner'',
          raise_if (group_or_world st) (pc_error ''policy.config-permissions'')]) (\<lambda>_. Inr dir)))"

definition policy_config_dir :: "policy_host \<Rightarrow> string option \<Rightarrow> abs_path result" where
  "policy_config_dir host config_home =
     bind_r (config_home_of host config_home) (\<lambda>base.
     bind_r (validate_config_home_root host base) (\<lambda>_. validate_private_policy_dir host base))"

definition policy_config_path :: "policy_host \<Rightarrow> string option \<Rightarrow> abs_path result" where
  "policy_config_path host config_home =
     bind_r (policy_config_dir host config_home) (\<lambda>dir. Inr (fst dir, snd dir @ [''policy.json'']))"

fun decimal_free :: "json \<Rightarrow> bool" where
  "decimal_free (JFloat _) = False"
| "decimal_free (JList xs) = list_all decimal_free xs"
| "decimal_free (JObj d) = list_all (\<lambda>(k, v). decimal_free v) d"
| "decimal_free _ = True"

text \<open>
  \<^verbatim>\<open>json.loads(text, parse_float=_reject_json_float)\<close>: a decimal number anywhere in the
  text raises ValueError. Those inside an object are seen when its pairs are assembled,
  before a duplicate key can hide one; those outside every object in the value itself.
\<close>

definition reject_float_pairs :: "(string \<times> json) list \<Rightarrow> json result" where
  "reject_float_pairs ps =
     (if list_all (decimal_free \<circ> snd) ps then default_pairs ps
      else Inl (ValueError ''decimal policy numbers are not permitted''))"

definition policy_hooks :: "policy_host \<Rightarrow> json_hooks" where
  "policy_hooks host = \<lparr>parse_float = ph_parse_float host, pairs_hook = reject_float_pairs,
     constant_hook = (\<lambda>s. Inr (JNonFinite s))\<rparr>"

definition parse_policy :: "policy_host \<Rightarrow> string \<Rightarrow> json result" where
  "parse_policy host text =
     bind_r (json_loads (policy_hooks host) text) (\<lambda>v.
       if decimal_free v then Inr v else Inl (ValueError ''decimal policy numbers are not permitted''))"

definition read_policy_body :: "policy_host \<Rightarrow> abs_path \<Rightarrow> json result" where
  "read_policy_body host path =
     (case ph_read_text host path of
        None \<Rightarrow> Inl (pc_error ''policy.config-invalid'')
      | Some text \<Rightarrow>
          (case parse_policy host text of
             Inl _ \<Rightarrow> Inl (pc_error ''policy.config-invalid'')
           | Inr body \<Rightarrow> Inr body))"

definition load_policy_config :: "policy_host \<Rightarrow> string option \<Rightarrow> PolicyConfig result" where
  "load_policy_config host config_home =
     bind_r (policy_config_path host config_home) (\<lambda>path.
     case ph_lstat host path of
       Absent \<Rightarrow> Inl (pc_error ''policy.config-missing'')
     | Unreadable \<Rightarrow> Inl (pc_error ''policy.config-boundary'')
     | Status st \<Rightarrow>
         bind_r (checks [
           raise_if (st_kind st \<noteq> RegularFile) (pc_error ''policy.config-not-regular''),
           validate_owner host st ''policy.config-owner'',
           raise_if (group_or_world st) (pc_error ''policy.config-permissions'')]) (\<lambda>_.
         bind_r (read_policy_body host path) config_from_dict))"

text \<open>A decision built with the default values of its other fields.\<close>

definition deny_decision :: "CaptureRequest \<Rightarrow> string \<Rightarrow> Decision result" where
  "deny_decision request reason =
     decision_make \<lparr>d_kind = ''deny'', d_reason_codes = [reason], d_profile_name = None, d_profile_id = None,
       d_workspace_id = None, d_destination_class = ''local-only'', d_logical_sources = cr_logical_sources request,
       d_estimated_sizes = request_sizes request, d_authority = ''host-policy'', d_operator_override = None,
       d_operator_reason_code = None, d_policy_version = None, d_provenance = None\<rparr>"

definition decision_from_private_config :: "policy_host \<Rightarrow> CaptureRequest \<Rightarrow> string option \<Rightarrow> Decision result" where
  "decision_from_private_config host request config_home =
     (case load_policy_config host config_home of
        Inl (PolicyConfigError reason) \<Rightarrow> deny_decision request reason
      | Inl e \<Rightarrow> Inl e
      | Inr config \<Rightarrow> decide config request)"

end
