(* ===== verification/PolicyLaws.thy ===== *)
theory PolicyLaws
  imports PolicyFile
begin

text \<open>
  Laws of the capture policy. What a validated policy document guarantees is proved of
  \<^const>\<open>config_from_dict\<close>; the behaviour of \<^const>\<open>decide\<close> is proved once, in the locale
  \<open>policy_source\<close>, for whatever provides policies with those guarantees, and the locale is
  interpreted twice: for validated documents and for policies loaded from the private file.
\<close>


section \<open>Requests and decisions\<close>

definition request_ok :: "CaptureRequest \<Rightarrow> bool" where
  "request_ok r \<longleftrightarrow> sanitize_logical_sources True (JList (map JStr (cr_logical_sources r))) = Inr (cr_logical_sources r)"

lemma map_JStr_str_of: "list_all is_str xs \<Longrightarrow> map (JStr \<circ> str_of) xs = xs"
  by (induction xs) (auto simp: is_str_conv)

lemma sanitize_Inr:
  assumes "sanitize_logical_sources e v = Inr names"
  shows "v = JList (map JStr names)" "length names \<le> LOGICAL_SOURCE_MAX_ITEMS" "distinct names"
    "\<forall>s \<in> set names. length s \<le> LOGICAL_SOURCE_MAX_LENGTH \<and> SOURCE_RE s \<and> starts_with s ''codex.'' \<and> \<not> secret_like s"
    "names = [] \<Longrightarrow> e"
proof -
  obtain xs where v: "v = JList xs" using assms by (auto simp: sanitize_logical_sources_def split: json.splits)
  have x: "list_all is_str xs" "length xs \<le> LOGICAL_SOURCE_MAX_ITEMS" "distinct xs" "xs = [] \<Longrightarrow> e"
      "\<forall>c \<in> set (concat (map (source_checks \<circ> str_of) xs)). c = Inr ()" and n: "names = map str_of xs"
    using assms unfolding v sanitize_logical_sources_def
    by (auto simp: check_simps checks_Inr_iff simp del: set_concat)
  have xs: "map JStr names = xs" using map_JStr_str_of[OF x(1)] n by simp
  then show "v = JList (map JStr names)" using v by simp
  show "length names \<le> LOGICAL_SOURCE_MAX_ITEMS" using x(2) n by simp
  show "distinct names" using x(3) unfolding xs[symmetric] by (simp add: distinct_map)
  show "names = [] \<Longrightarrow> e" using x(4) n by simp
  show "\<forall>s \<in> set names. length s \<le> LOGICAL_SOURCE_MAX_LENGTH \<and> SOURCE_RE s \<and> starts_with s ''codex.'' \<and> \<not> secret_like s"
    using x(5) n by (auto simp: source_checks_def check_simps)
qed

lemma sanitize_again: "sanitize_logical_sources e v = Inr names \<Longrightarrow> sanitize_logical_sources True (JList (map JStr names)) = Inr names"
  using sanitize_Inr(1)[of e v names] by (auto simp: sanitize_logical_sources_def check_simps)

lemma capture_request_ok: "capture_request_make c s t a b x y ov = Inr r \<Longrightarrow> request_ok r"
  by (auto simp: capture_request_make_def request_ok_def check_simps intro: sanitize_again)

lemma decision_eq:
  "request_ok r \<Longrightarrow> decision k rs r p (a, ov, c) = Inr \<lparr>d_kind = k, d_reason_codes = rs,
       d_profile_name = map_option pr_name p, d_profile_id = map_option pr_profile_id p,
       d_workspace_id = map_option pr_workspace_id p,
       d_destination_class = (case p of
           Some p \<Rightarrow> if k \<in> {''allow'', ''local-only''} then ds_kind (pr_destination p) else ''local-only''
         | None \<Rightarrow> ''local-only''),
       d_logical_sources = cr_logical_sources r, d_estimated_sizes = request_sizes r,
       d_authority = a, d_operator_override = ov, d_operator_reason_code = c,
       d_policy_version = map_option pr_policy_version p, d_provenance = map_option pr_provenance p\<rparr>"
  by (simp add: decision_def decision_make_def request_ok_def request_sizes_def CAPTURE_SIZE_FIELDS_def)


section \<open>What validation guarantees\<close>

text \<open>The relations between a profile, its rules and its destination.\<close>

definition profile_ok :: "(string, R2Binding) dict \<Rightarrow> string \<times> CaptureProfile \<Rightarrow> bool" where
  "profile_ok bindings = (\<lambda>(name, p).
     pr_name p = name \<and> name \<in> set PROFILE_NAMES \<and>
     (\<forall>r \<in> set (pr_allow_rules p). mr_workspace_id r = pr_workspace_id p) \<and>
     (\<forall>r \<in> set (pr_deny_rules p). mr_workspace_id r = pr_workspace_id p) \<and>
     (\<forall>s \<in> set (pr_allowed_sources p). starts_with s ''codex.'' \<and> \<not> secret_like s) \<and>
     set (pr_triggers p) \<subseteq> set TRIGGERS \<and>
     1 \<le> per_record_bytes (pr_limits p) \<and> 1 \<le> per_asset_bytes (pr_limits p) \<and>
     1 \<le> per_session_bytes (pr_limits p) \<and> 1 \<le> local_outbox_bytes (pr_limits p) \<and>
     (pr_destination p = \<lparr>ds_kind = ''local-only'', ds_binding_id = None\<rparr> \<or>
      (\<exists>b bd. pr_destination p = \<lparr>ds_kind = ''private-r2'', ds_binding_id = Some b\<rparr> \<and>
         map_of bindings b = Some bd \<and> rb_scope bd = name)))"

lemma destination_Inr:
  "destination_from_dict name bindings raw = Inr d \<Longrightarrow>
     d = \<lparr>ds_kind = ''local-only'', ds_binding_id = None\<rparr> \<or>
     (\<exists>b bd. d = \<lparr>ds_kind = ''private-r2'', ds_binding_id = Some b\<rparr> \<and> map_of bindings b = Some bd \<and> rb_scope bd = name)"
  by (auto simp: destination_from_dict_def check_simps split: if_splits option.splits)

lemma positive_int_Inr: "positive_int v = Inr n \<Longrightarrow> 1 \<le> n"
  by (auto simp: positive_int_def split: if_splits)

lemma limits_Inr:
  assumes "limits_from_dict raw = Inr l"
  shows "1 \<le> per_record_bytes l" "1 \<le> per_asset_bytes l" "1 \<le> per_session_bytes l" "1 \<le> local_outbox_bytes l"
proof -
  obtain vs where vs: "map_r (\<lambda>k. positive_int (jget (obj_of raw) k)) LIMIT_FIELDS = Inr vs"
      and l: "l = \<lparr>per_record_bytes = vs ! 0, per_asset_bytes = vs ! 1, per_session_bytes = vs ! 2,
          local_outbox_bytes = vs ! 3, retention_days = vs ! 4\<rparr>"
    using assms by (auto simp: limits_from_dict_def check_simps split: if_splits)
  have "length vs = 5" using vs unfolding map_r_Inr_iff by (simp add: LIMIT_FIELDS_def)
  moreover have v: "1 \<le> vs ! i" if "i < length vs" for i
    using map_r_set[OF vs nth_mem[OF that]] positive_int_Inr by blast
  ultimately show "1 \<le> per_record_bytes l" "1 \<le> per_asset_bytes l" "1 \<le> per_session_bytes l" "1 \<le> local_outbox_bytes l"
    using v[of 0] v[of 1] v[of 2] v[of 3] by (simp_all add: l)
qed

lemma profile_from_dict_ok:
  assumes "profile_from_dict bindings name raw = Inr p"
  shows "profile_ok bindings (name, p)"
proof -
  define f where "f = jget (obj_of raw)"
  obtain sources destination limits allow_rules deny_rules where
      name: "name \<in> set PROFILE_NAMES" "pr_name p = name"
      and src: "sanitize_logical_sources False (f ''allowed_sources'') = Inr sources" "pr_allowed_sources p = sources"
      and trig: "triggers_ok (f ''triggers'')" "pr_triggers p = map str_of (list_of (f ''triggers''))"
      and dest: "destination_from_dict name bindings (f ''destination'') = Inr destination" "pr_destination p = destination"
      and lim: "limits_from_dict (f ''limits'') = Inr limits" "pr_limits p = limits"
      and rules: "pr_allow_rules p = allow_rules" "pr_deny_rules p = deny_rules"
        "\<not> list_ex (\<lambda>r. mr_workspace_id r \<noteq> pr_workspace_id p) allow_rules"
        "\<not> list_ex (\<lambda>r. mr_workspace_id r \<noteq> pr_workspace_id p) deny_rules"
    using assms unfolding profile_from_dict_def Let_def f_def[symmetric]
    by (auto simp: check_simps split: if_splits sum.splits)
  show ?thesis
    unfolding profile_ok_def
    using name dest(2) destination_Inr[OF dest(1)] lim(2) limits_Inr[OF lim(1)] rules sanitize_Inr(4)[OF src(1)] src(2) trig
    by (auto simp: triggers_ok_def list_all_iff list_ex_iff)
qed

lemma map_r_keys:
  assumes "map_r (\<lambda>(k, v). bind_r (f k v) (\<lambda>y. Inr (k, y))) d = Inr e"
  shows "map fst e = map fst d" "(k, y) \<in> set e \<Longrightarrow> \<exists>v. (k, v) \<in> set d \<and> f k v = Inr y"
proof -
  show "map fst e = map fst d"
  proof (rule nth_equalityI)
    show "length (map fst e) = length (map fst d)" using assms by (simp add: map_r_Inr_iff)
  next
    fix i assume "i < length (map fst e)"
    then have i: "i < length d" "(case d ! i of (k, v) \<Rightarrow> bind_r (f k v) (\<lambda>y. Inr (k, y))) = Inr (e ! i)"
      using assms by (simp_all add: map_r_Inr_iff)
    then have "fst (e ! i) = fst (d ! i)" by (cases "e ! i"; cases "d ! i") (simp add: check_simps)
    then show "map fst e ! i = map fst d ! i" using i(1) assms by (simp add: map_r_Inr_iff)
  qed
  show "(k, y) \<in> set e \<Longrightarrow> \<exists>v. (k, v) \<in> set d \<and> f k v = Inr y"
    using map_r_set[OF assms, of "(k, y)"] by (auto simp: check_simps)
qed

lemma config_from_dict_Inr:
  assumes "config_from_dict body = Inr cfg"
  shows "\<exists>raw. jget (obj_of body) ''profiles'' = JObj raw \<and> map fst (cfg_profiles cfg) = map fst raw"
    "set (keys (cfg_profiles cfg)) = set PROFILE_NAMES"
    "e \<in> set (cfg_profiles cfg) \<Longrightarrow> profile_ok (cfg_r2_bindings cfg) e"
    "distinct (map (pr_profile_id \<circ> snd) (cfg_profiles cfg))"
    "distinct (map (pr_workspace_id \<circ> snd) (cfg_profiles cfg))"
proof -
  define ps where "ps = jget (obj_of body) ''profiles''"
  obtain bindings profiles where
      p: "map_r (\<lambda>(name, raw). bind_r (profile_from_dict bindings name raw) (\<lambda>p. Inr (name, p))) (obj_of ps) = Inr profiles"
      and k: "has_exactly ps PROFILE_NAMES"
      and d: "distinct (map (pr_profile_id \<circ> snd) profiles)" "distinct (map (pr_workspace_id \<circ> snd) profiles)"
      and cfg: "cfg = \<lparr>cfg_profiles = profiles, cfg_r2_bindings = bindings\<rparr>"
    using assms unfolding config_from_dict_def Let_def ps_def[symmetric] by (auto simp: check_simps)
  obtain raw where raw: "ps = JObj raw" using k by (auto simp: has_exactly_def is_obj_conv)
  have ks: "keys profiles = keys raw" using map_r_keys(1)[OF p] raw by simp
  show "\<exists>raw. jget (obj_of body) ''profiles'' = JObj raw \<and> map fst (cfg_profiles cfg) = map fst raw"
    using ks raw cfg by (auto simp: ps_def)
  show "set (keys (cfg_profiles cfg)) = set PROFILE_NAMES" using ks k raw cfg by (simp add: has_exactly_def)
  show "e \<in> set (cfg_profiles cfg) \<Longrightarrow> profile_ok (cfg_r2_bindings cfg) e"
    using map_r_keys(2)[OF p, of "fst e" "snd e"] profile_from_dict_ok cfg by fastforce
  show "distinct (map (pr_profile_id \<circ> snd) (cfg_profiles cfg))" "distinct (map (pr_workspace_id \<circ> snd) (cfg_profiles cfg))"
    using d cfg by simp_all
qed

lemma wf_profiles:
  assumes "wf_json body" "config_from_dict body = Inr cfg"
  shows "wf_dict (cfg_profiles cfg)"
proof -
  obtain raw where raw: "jget (obj_of body) ''profiles'' = JObj raw" "map fst (cfg_profiles cfg) = map fst raw"
    using config_from_dict_Inr(1)[OF assms(2)] by blast
  obtain d where "body = JObj d" using assms(2) by (cases body) (auto simp: config_from_dict_def check_simps)
  then have "(''profiles'', JObj raw) \<in> set d" "list_all (\<lambda>(k, v). wf_json v) d"
    using raw(1) assms(1) by (auto simp: jget_def split: option.splits dest!: map_of_SomeD)
  then have "wf_json (JObj raw)" unfolding list_all_iff by fastforce
  then show ?thesis using raw(2) by simp
qed


section \<open>Decisions over a source of policies\<close>

text \<open>The conditions of a capture that \<^const>\<open>decide\<close> evaluates, each on its own.\<close>

definition context_clean :: "PolicyContext \<Rightarrow> bool" where
  "context_clean c \<longleftrightarrow>
     pc_context_source c = ''host-observed'' \<and> \<not> truthy_str (pc_remote_error c) \<and> \<not> truthy_str (pc_path_error c) \<and>
     pc_path_kind c \<noteq> ''symlink''"

definition denied_somewhere :: "PolicyConfig \<Rightarrow> PolicyContext \<Rightarrow> bool" where
  "denied_somewhere cfg c \<longleftrightarrow> (\<exists>p \<in> set (vals (cfg_profiles cfg)). \<exists>r \<in> set (pr_deny_rules p). rule_matches r c)"

definition allowed_by :: "CaptureProfile \<Rightarrow> PolicyContext \<Rightarrow> bool" where
  "allowed_by p c \<longleftrightarrow> (\<exists>r \<in> set (pr_allow_rules p). rule_matches r c)"

text \<open>
  An operator may pick a profile from an interactive, confirmed session with an audit
  reason; picking another profile than the one that matches takes a second confirmation.
\<close>

definition operator_picks :: "PolicyConfig \<Rightarrow> OperatorOverride \<Rightarrow> PolicyContext \<Rightarrow> string \<Rightarrow> bool" where
  "operator_picks cfg ov c name \<longleftrightarrow>
     ov_profile_name ov = JStr name \<and> ov_actor ov = JStr ''operator-cli'' \<and>
     ov_interactive ov = JBool True \<and> ov_confirmed ov = JBool True \<and>
     (\<exists>reason. ov_audit_reason_code ov = JStr reason \<and> REASON_RE reason) \<and>
     (ov_cross_scope_confirmed ov = JBool True \<or>
      ov_cross_scope_confirmed ov = JBool False \<and>
        (\<forall>p \<in> set (vals (cfg_profiles cfg)). allowed_by p c \<longrightarrow> pr_name p = name))"

definition within_limits :: "CaptureRequest \<Rightarrow> Limits \<Rightarrow> bool" where
  "within_limits r l \<longleftrightarrow>
     cr_record_bytes r \<in> {0..per_record_bytes l} \<and> cr_asset_bytes r \<in> {0..per_asset_bytes l} \<and>
     cr_session_bytes r \<in> {0..per_session_bytes l} \<and> cr_outbox_bytes r \<in> {0..local_outbox_bytes l}"

definition mode_permits :: "string \<Rightarrow> string list \<Rightarrow> bool" where
  "mode_permits mode sources \<longleftrightarrow>
     (mode = ''metadata-only'' \<longrightarrow> (\<forall>s \<in> set sources. \<not> ends_with s ''transcript'' \<and> \<not> ends_with s ''assets'')) \<and>
     (mode = ''transcript'' \<longrightarrow> (\<forall>s \<in> set sources. \<not> ends_with s ''assets''))"

definition profile_admits :: "CaptureProfile \<Rightarrow> CaptureRequest \<Rightarrow> bool" where
  "profile_admits p r \<longleftrightarrow>
     cr_trigger r \<in> set (pr_triggers p) \<and> set (cr_logical_sources r) \<subseteq> set (pr_allowed_sources p) \<and>
     mode_permits (pr_capture_mode p) (cr_logical_sources r) \<and> within_limits r (pr_limits p)"

lemma matching_profiles_iff: "p \<in> set (matching_profiles cfg c) \<longleftrightarrow> p \<in> set (vals (cfg_profiles cfg)) \<and> allowed_by p c"
  by (auto simp: matching_profiles_def allowed_by_def list_ex_iff)

lemma matching_denials_iff: "matching_denials cfg c \<noteq> [] \<longleftrightarrow> denied_somewhere cfg c"
  by (auto simp: matching_denials_def denied_somewhere_def filter_empty_conv)

lemma denials_named:
  assumes "x \<in> set (matching_denials cfg c)"
  shows "\<exists>p \<in> set (vals (cfg_profiles cfg)). fst x = pr_name p"
proof -
  have "x \<in> set (concat (map (\<lambda>p. map (\<lambda>r. (pr_name p, dr_reason_code r)) (filter (\<lambda>r. rule_matches r c) (pr_deny_rules p))) ps)) \<Longrightarrow>
      \<exists>p \<in> set ps. fst x = pr_name p" for ps by auto
  then show ?thesis using assms unfolding matching_denials_def by blast
qed

lemma limits_None:
  "find (\<lambda>(observed, limit, reason). observed < 0 \<or> observed > limit) (limit_checks r p) = None \<longleftrightarrow>
     within_limits r (pr_limits p)"
  by (auto simp: limit_checks_def within_limits_def split: if_splits)

lemma operator_picks_iff:
  "operator_picks cfg ov c name \<and> has_key (cfg_profiles cfg) name \<longleftrightarrow>
     \<not> override_unavailable cfg ov \<and> \<not> reason_missing ov \<and>
     \<not> (list_ex (\<lambda>p. JStr (pr_name p) \<noteq> ov_profile_name ov) (matching_profiles cfg c) \<and> \<not> truthy (ov_cross_scope_confirmed ov)) \<and>
     ov_profile_name ov = JStr name"
proof (cases "ov_profile_name ov = JStr name")
  case True
  have r: "\<not> reason_missing ov \<longleftrightarrow> (\<exists>reason. ov_audit_reason_code ov = JStr reason \<and> REASON_RE reason)"
    by (cases "ov_audit_reason_code ov") (simp_all add: reason_missing_def)
  have b: "type_is_bool v \<and> truthy v \<longleftrightarrow> v = JBool True" for v by (cases v) simp_all
  have u: "\<not> override_unavailable cfg ov \<longleftrightarrow> ov_actor ov = JStr ''operator-cli'' \<and> ov_interactive ov = JBool True \<and>
      ov_confirmed ov = JBool True \<and> type_is_bool (ov_cross_scope_confirmed ov) \<and> has_key (cfg_profiles cfg) name"
    unfolding override_unavailable_def True b[symmetric] by (simp only: is_str.simps str_of.simps) blast
  have l: "list_ex (\<lambda>p. JStr (pr_name p) \<noteq> JStr name) (matching_profiles cfg c) \<longleftrightarrow>
      \<not> (\<forall>p \<in> set (vals (cfg_profiles cfg)). allowed_by p c \<longrightarrow> pr_name p = name)"
    unfolding list_ex_iff Bex_def Ball_def matching_profiles_iff json.inject by blast
  show ?thesis
    unfolding operator_picks_def True l u r by (cases "ov_cross_scope_confirmed ov"; simp; blast)
qed (auto simp: operator_picks_def)

definition selected :: "PolicyConfig \<Rightarrow> CaptureRequest \<Rightarrow> string \<Rightarrow> bool" where
  "selected cfg req name \<longleftrightarrow>
     (case cr_operator_override req of
        None \<Rightarrow> (\<exists>p. map_of (cfg_profiles cfg) name = Some p \<and> allowed_by p (cr_context req))
      | Some ov \<Rightarrow> operator_picks cfg ov (cr_context req) name)"

text \<open>The decisions taken against a chosen profile.\<close>

lemma decide_in_cases:
  assumes "request_ok req"
  shows "\<exists>d. decide_in req p by = Inr d \<and> d_profile_name d = Some (pr_name p) \<and> d_reason_codes d \<noteq> [''policy.ambiguous-profile''] \<and>
    (if profile_admits p req
     then d_kind d = (if ds_kind (pr_destination p) = ''local-only'' then ''local-only'' else ''allow'') \<and>
       d_destination_class d = ds_kind (pr_destination p)
     else d_kind d \<in> {''deny'', ''quarantine''} \<and> d_destination_class d = ''local-only'')"
proof -
  obtain a ov c where b: "by = (a, ov, c)" by (cases "by") auto
  let ?over = "find (\<lambda>(observed, limit, reason). observed < 0 \<or> observed > limit) (limit_checks req p)"
  have reason: "reason \<noteq> ''policy.ambiguous-profile''" if "?over = Some (x, y, reason)" for x y reason
    using that by (auto simp: limit_checks_def split: if_splits)
  have m: "mode_permits (pr_capture_mode p) (cr_logical_sources req) \<longleftrightarrow>
      \<not> (pr_capture_mode p = ''metadata-only'' \<and>
        list_ex (\<lambda>s. ends_with s ''transcript'' \<or> ends_with s ''assets'') (cr_logical_sources req)) \<and>
      \<not> (pr_capture_mode p = ''transcript'' \<and> list_ex (\<lambda>s. ends_with s ''assets'') (cr_logical_sources req))"
    by (auto simp: mode_permits_def list_ex_iff)
  show ?thesis
    unfolding decide_in_def profile_admits_def limits_None[symmetric] m b
    by (cases ?over) (auto simp: decision_eq[OF assms] dest: reason)
qed

text \<open>
  A source of policies: whatever it provides keeps every rule in its own profile's
  workspace, and gives the profiles distinct names and workspaces.
\<close>

locale policy_source =
  fixes provides :: "PolicyConfig \<Rightarrow> bool"
  assumes named: "provides cfg \<Longrightarrow> e \<in> set (cfg_profiles cfg) \<Longrightarrow> pr_name (snd e) = fst e"
    and distinct_names: "provides cfg \<Longrightarrow> wf_dict (cfg_profiles cfg)"
    and distinct_workspaces: "provides cfg \<Longrightarrow> distinct (map (pr_workspace_id \<circ> snd) (cfg_profiles cfg))"
    and own_rules: "provides cfg \<Longrightarrow> p \<in> set (vals (cfg_profiles cfg)) \<Longrightarrow> r \<in> set (pr_allow_rules p) \<Longrightarrow>
      mr_workspace_id r = pr_workspace_id p"
    and destinations: "provides cfg \<Longrightarrow> p \<in> set (vals (cfg_profiles cfg)) \<Longrightarrow>
      ds_kind (pr_destination p) \<in> {''local-only'', ''private-r2''}"
begin

lemma profile_named: "provides cfg \<Longrightarrow> map_of (cfg_profiles cfg) name = Some p \<Longrightarrow> pr_name p = name"
  using named[of cfg "(name, p)"] by (auto dest: map_of_SomeD)

lemma profile_lookup: "provides cfg \<Longrightarrow> p \<in> set (vals (cfg_profiles cfg)) \<Longrightarrow> map_of (cfg_profiles cfg) (pr_name p) = Some p"
proof -
  assume p: "provides cfg" "p \<in> set (vals (cfg_profiles cfg))"
  then obtain n where n: "(n, p) \<in> set (cfg_profiles cfg)" by auto
  then show ?thesis using named[OF p(1) n] map_of_is_SomeI[OF distinct_names[OF p(1)] n] by simp
qed

lemma unique_match:
  assumes "provides cfg" "p \<in> set (vals (cfg_profiles cfg))" "q \<in> set (vals (cfg_profiles cfg))"
    "allowed_by p c" "allowed_by q c"
  shows "p = q"
proof -
  have w: "pr_workspace_id p = pr_workspace_id q"
    using assms own_rules by (fastforce simp: allowed_by_def rule_matches_def)
  show ?thesis
    using distinct_workspaces[OF assms(1)] assms(2,3) w by (auto simp: distinct_map inj_on_def)
qed

lemma at_most_one_match:
  assumes "provides cfg"
  shows "length (matching_profiles cfg c) \<le> 1"
proof -
  have "distinct (vals (cfg_profiles cfg))"
    using distinct_workspaces[OF assms] by (simp add: distinct_map inj_on_def)
  then have d: "distinct (matching_profiles cfg c)" by (simp add: matching_profiles_def)
  have same: "p = q" if "p \<in> set (matching_profiles cfg c)" "q \<in> set (matching_profiles cfg c)" for p q
    using that unique_match[OF assms, of p q c] unfolding matching_profiles_iff by blast
  show ?thesis
  proof (rule ccontr)
    assume "\<not> ?thesis"
    then obtain p q r where "matching_profiles cfg c = p # q # r"
      by (cases "matching_profiles cfg c"; cases "tl (matching_profiles cfg c)") auto
    then show False using d same[of p q] by simp
  qed
qed

lemma choose_selected:
  assumes "provides cfg" "choose_profile cfg req = Inr (p, by)"
  shows "map_of (cfg_profiles cfg) (pr_name p) = Some p" "selected cfg req (pr_name p)"
proof -
  have "map_of (cfg_profiles cfg) (pr_name p) = Some p \<and> selected cfg req (pr_name p)"
  proof (cases "cr_operator_override req")
    case None
    then have "matching_profiles cfg (cr_context req) = [p]"
      using assms(2) by (auto simp: choose_profile_def Let_def split: list.splits)
    then have "p \<in> set (vals (cfg_profiles cfg))" "allowed_by p (cr_context req)"
      using matching_profiles_iff[of p cfg "cr_context req"] by simp_all
    then show ?thesis using None profile_lookup[OF assms(1)] by (simp add: selected_def)
  next
    case (Some ov)
    then have o: "\<not> override_unavailable cfg ov" "\<not> reason_missing ov"
        "\<not> (list_ex (\<lambda>p. JStr (pr_name p) \<noteq> ov_profile_name ov) (matching_profiles cfg (cr_context req)) \<and>
           \<not> truthy (ov_cross_scope_confirmed ov))"
        "map_of (cfg_profiles cfg) (str_of (ov_profile_name ov)) = Some p"
      using assms(2) by (auto simp: choose_profile_def Let_def split: if_splits option.splits)
    have n: "pr_name p = str_of (ov_profile_name ov)" using profile_named[OF assms(1) o(4)] .
    then have "ov_profile_name ov = JStr (pr_name p)"
      using o(1) by (auto simp: override_unavailable_def is_str_conv)
    then have "operator_picks cfg ov (cr_context req) (pr_name p)"
      using operator_picks_iff[of cfg ov "cr_context req" "pr_name p"] o(1-3) by blast
    then show ?thesis using o(4) n Some by (simp add: selected_def)
  qed
  then show "map_of (cfg_profiles cfg) (pr_name p) = Some p" "selected cfg req (pr_name p)" by simp_all
qed

lemma selected_chosen:
  assumes "provides cfg" "map_of (cfg_profiles cfg) name = Some p" "selected cfg req name"
  shows "\<exists>by. choose_profile cfg req = Inr (p, by)"
proof (cases "cr_operator_override req")
  case None
  then have "allowed_by p (cr_context req)" using assms(2,3) by (simp add: selected_def)
  moreover have "p \<in> set (vals (cfg_profiles cfg))" using map_of_SomeD[OF assms(2)] by (force simp: image_iff)
  ultimately have "p \<in> set (matching_profiles cfg (cr_context req))" by (simp add: matching_profiles_iff)
  then have "matching_profiles cfg (cr_context req) = [p]"
    using at_most_one_match[OF assms(1), of "cr_context req"] by (cases "matching_profiles cfg (cr_context req)") auto
  then show ?thesis using None by (simp add: choose_profile_def)
next
  case (Some ov)
  then have "operator_picks cfg ov (cr_context req) name" "has_key (cfg_profiles cfg) name"
    using assms(2,3) Some map_of_eq_None_iff[of "cfg_profiles cfg" name] by (auto simp: selected_def)
  then have "\<not> override_unavailable cfg ov" "\<not> reason_missing ov"
      "\<not> (list_ex (\<lambda>p. JStr (pr_name p) \<noteq> ov_profile_name ov) (matching_profiles cfg (cr_context req)) \<and>
         \<not> truthy (ov_cross_scope_confirmed ov))" "ov_profile_name ov = JStr name"
    using operator_picks_iff[of cfg ov "cr_context req" name] by blast+
  then show ?thesis using Some assms(2) by (simp add: choose_profile_def Let_def operator_by_def)
qed

lemma choose_refused:
  assumes "provides cfg" "request_ok req" "choose_profile cfg req = Inl r"
  shows "\<exists>d. r = Inr d \<and> d_kind d = ''local-only'' \<and> d_destination_class d = ''local-only'' \<and>
    d_reason_codes d \<noteq> [''policy.ambiguous-profile'']"
proof (cases "cr_operator_override req")
  case None
  then show ?thesis
    using assms(3) at_most_one_match[OF assms(1), of "cr_context req"]
    by (auto simp: choose_profile_def Let_def decision_eq[OF assms(2)] split: list.splits)
next
  case (Some ov)
  have "map_of (cfg_profiles cfg) (str_of (ov_profile_name ov)) \<noteq> None" if "\<not> override_unavailable cfg ov"
    using that by (auto simp: override_unavailable_def map_of_eq_None_iff)
  then show ?thesis
    using Some assms(3)
    by (auto simp: choose_profile_def Let_def operator_by_def decision_eq[OF assms(2)] split: if_splits option.splits)
qed

lemma decide_passes:
  assumes "context_clean (cr_context req)" "cr_logical_sources req \<noteq> []" "\<not> denied_somewhere cfg (cr_context req)"
  shows "decide cfg req = (case choose_profile cfg req of Inl d \<Rightarrow> d | Inr (profile, by) \<Rightarrow> decide_in req profile by)"
  using assms matching_denials_iff[of cfg "cr_context req"] by (simp add: decide_def Let_def context_clean_def)

lemma decide_stopped:
  assumes "provides cfg" "request_ok req"
    and "\<not> context_clean (cr_context req) \<or> cr_logical_sources req = [] \<or> denied_somewhere cfg (cr_context req)"
  shows "\<exists>d. decide cfg req = Inr d \<and> d_kind d \<in> {''local-only'', ''quarantine'', ''deny''} \<and>
    d_destination_class d = ''local-only'' \<and> d_reason_codes d \<noteq> [''policy.ambiguous-profile'']"
proof -
  let ?denied = "matching_denials cfg (cr_context req)"
  have deny: "\<exists>p. map_of (cfg_profiles cfg) (fst (py_min ?denied)) = Some p" if nonempty: "?denied \<noteq> []"
  proof -
    obtain p where "p \<in> set (vals (cfg_profiles cfg))" "fst (py_min ?denied) = pr_name p"
      using denials_named[OF py_min_mem[OF nonempty]] by blast
    then show ?thesis using profile_lookup[OF assms(1)] by auto
  qed
  show ?thesis
    using assms(3) matching_denials_iff[of cfg "cr_context req"] deny
    by (auto simp: decide_def Let_def context_clean_def decision_eq[OF assms(2)] split: prod.splits)
qed

lemma decide_decides:
  assumes "provides cfg" "request_ok req"
  shows "\<exists>d. decide cfg req = Inr d \<and> d_kind d \<in> {''allow'', ''local-only'', ''quarantine'', ''deny''} \<and>
    (d_kind d = ''allow'' \<longleftrightarrow> d_destination_class d \<noteq> ''local-only'') \<and>
    d_reason_codes d \<noteq> [''policy.ambiguous-profile'']"
proof (cases "context_clean (cr_context req) \<and> cr_logical_sources req \<noteq> [] \<and> \<not> denied_somewhere cfg (cr_context req)")
  case True
  then have e: "decide cfg req = (case choose_profile cfg req of Inl d \<Rightarrow> d | Inr (profile, by) \<Rightarrow> decide_in req profile by)"
    using decide_passes by blast
  show ?thesis
  proof (cases "choose_profile cfg req")
    case (Inl r)
    then show ?thesis using choose_refused[OF assms Inl] e by auto
  next
    case (Inr pb)
    obtain p b where pb: "pb = (p, b)" by (cases pb)
    then show ?thesis using e Inr decide_in_cases[OF assms(2), of p b] by (auto split: if_splits)
  qed
next
  case False
  then show ?thesis using decide_stopped[OF assms] by fastforce
qed

lemma decide_allows:
  assumes "provides cfg" "request_ok req"
  shows "(\<exists>d. decide cfg req = Inr d \<and> d_kind d = ''allow'' \<and> d_profile_name d = Some name) \<longleftrightarrow>
    (\<exists>p. map_of (cfg_profiles cfg) name = Some p \<and> context_clean (cr_context req) \<and> cr_logical_sources req \<noteq> [] \<and>
       \<not> denied_somewhere cfg (cr_context req) \<and> selected cfg req name \<and> profile_admits p req \<and>
       ds_kind (pr_destination p) = ''private-r2'')" (is "?allow \<longleftrightarrow> ?spec")
proof (cases "context_clean (cr_context req) \<and> cr_logical_sources req \<noteq> [] \<and> \<not> denied_somewhere cfg (cr_context req)")
  case True
  then have e: "decide cfg req = (case choose_profile cfg req of Inl d \<Rightarrow> d | Inr (profile, by) \<Rightarrow> decide_in req profile by)"
    using decide_passes by blast
  have kinds: "ds_kind (pr_destination p) \<in> {''local-only'', ''private-r2''}" if "map_of (cfg_profiles cfg) n = Some p" for n p
    using destinations[OF assms(1)] map_of_SomeD[OF that] by (force simp: image_iff)
  show ?thesis
  proof (cases "choose_profile cfg req")
    case (Inl r)
    then have "\<not> ?allow" using choose_refused[OF assms Inl] e by auto
    moreover have "\<not> ?spec" using selected_chosen[OF assms(1)] Inl by fastforce
    ultimately show ?thesis by blast
  next
    case (Inr pb)
    obtain p b where pb: "pb = (p, b)" by (cases pb)
    note p = choose_selected[OF assms(1) Inr[unfolded pb]]
    obtain d where d: "decide cfg req = Inr d" "d_profile_name d = Some (pr_name p)"
        "if profile_admits p req
         then d_kind d = (if ds_kind (pr_destination p) = ''local-only'' then ''local-only'' else ''allow'')
         else d_kind d \<in> {''deny'', ''quarantine''}"
      using decide_in_cases[OF assms(2), of p b] e Inr pb by (auto split: if_splits)
    have "?allow \<longleftrightarrow> name = pr_name p \<and> profile_admits p req \<and> ds_kind (pr_destination p) = ''private-r2''"
      using d kinds[OF p(1)] by (auto split: if_splits)
    also have "\<dots> \<longleftrightarrow> ?spec"
    proof
      assume ?spec
      then obtain q where q: "map_of (cfg_profiles cfg) name = Some q" "selected cfg req name" "profile_admits q req"
          "ds_kind (pr_destination q) = ''private-r2''" by blast
      have "q = p" using selected_chosen[OF assms(1) q(1,2)] Inr pb by simp
      then show "name = pr_name p \<and> profile_admits p req \<and> ds_kind (pr_destination p) = ''private-r2''"
        using q profile_named[OF assms(1) q(1)] by simp
    qed (use p True in blast)
    finally show ?thesis .
  qed
next
  case False
  then have "\<not> ?allow" using decide_stopped[OF assms] by fastforce
  then show ?thesis using False by blast
qed

end

definition validated :: "PolicyConfig \<Rightarrow> bool" where
  "validated cfg \<longleftrightarrow> (\<exists>body. wf_json body \<and> config_from_dict body = Inr cfg)"

lemma validated_facts:
  assumes "validated cfg"
  shows "wf_dict (cfg_profiles cfg)" "set (keys (cfg_profiles cfg)) = set PROFILE_NAMES"
    "distinct (map (pr_profile_id \<circ> snd) (cfg_profiles cfg))" "distinct (map (pr_workspace_id \<circ> snd) (cfg_profiles cfg))"
    "\<And>e. e \<in> set (cfg_profiles cfg) \<Longrightarrow> profile_ok (cfg_r2_bindings cfg) e"
proof -
  obtain body where b: "wf_json body" "config_from_dict body = Inr cfg" using assms by (auto simp: validated_def)
  show "wf_dict (cfg_profiles cfg)" by (rule wf_profiles[OF b])
  show "set (keys (cfg_profiles cfg)) = set PROFILE_NAMES" "distinct (map (pr_profile_id \<circ> snd) (cfg_profiles cfg))"
    "distinct (map (pr_workspace_id \<circ> snd) (cfg_profiles cfg))"
    "\<And>e. e \<in> set (cfg_profiles cfg) \<Longrightarrow> profile_ok (cfg_r2_bindings cfg) e"
    by (rule config_from_dict_Inr(2-5)[OF b(2)])+
qed

lemma load_Inr:
  assumes "load_policy_config host home = Inr cfg"
  obtains path st where "policy_config_path host home = Inr path" "ph_lstat host path = Status st"
    "st_kind st = RegularFile" "validate_owner host st ''policy.config-owner'' = Inr ()" "\<not> group_or_world st"
    "bind_r (read_policy_body host path) config_from_dict = Inr cfg"
proof -
  obtain path where p: "policy_config_path host home = Inr path"
      "(case ph_lstat host path of Absent \<Rightarrow> Inl (pc_error ''policy.config-missing'')
       | Unreadable \<Rightarrow> Inl (pc_error ''policy.config-boundary'')
       | Status st \<Rightarrow> bind_r (checks [
           raise_if (st_kind st \<noteq> RegularFile) (pc_error ''policy.config-not-regular''),
           validate_owner host st ''policy.config-owner'',
           raise_if (group_or_world st) (pc_error ''policy.config-permissions'')]) (\<lambda>_.
         bind_r (read_policy_body host path) config_from_dict)) = Inr cfg"
    using assms unfolding load_policy_config_def bind_r_eq_Inr by blast
  show thesis using p that by (cases "ph_lstat host path") (auto simp: check_simps)
qed

lemma loaded_validated:
  assumes "load_policy_config host home = Inr cfg"
  shows "validated cfg"
proof -
  obtain path where "bind_r (read_policy_body host path) config_from_dict = Inr cfg"
    using load_Inr[OF assms] by blast
  then obtain doc body where b: "json_loads (policy_hooks host) doc = Inr body" "config_from_dict body = Inr cfg"
    by (auto simp: bind_r_eq_Inr read_policy_body_def parse_policy_def split: option.splits sum.splits if_splits)
  have "wf_hooks (policy_hooks host)"
    using wf_default_hooks[of "ph_parse_float host"]
    by (auto simp: wf_hooks_def policy_hooks_def reject_float_pairs_def default_hooks_def split: if_splits)
  then have "wf_json body" using b(1)
    by (auto simp: json_loads_def bind_r_eq_Inr simp del: parse_val.simps split: if_splits intro: parse_wf(1))
  then show ?thesis using b(2) by (auto simp: validated_def)
qed

interpretation checked: policy_source validated
proof
  fix cfg e assume v: "validated cfg"
  show "wf_dict (cfg_profiles cfg)" "distinct (map (pr_workspace_id \<circ> snd) (cfg_profiles cfg))"
    by (rule validated_facts(1,4)[OF v])+
  note ok = validated_facts(5)[OF v]
  show "e \<in> set (cfg_profiles cfg) \<Longrightarrow> pr_name (snd e) = fst e"
    using ok[of e] by (auto simp: profile_ok_def)
  show "mr_workspace_id r = pr_workspace_id p" if "p \<in> set (vals (cfg_profiles cfg))" "r \<in> set (pr_allow_rules p)" for p r
    using that ok by (fastforce simp: profile_ok_def)
  show "ds_kind (pr_destination p) \<in> {''local-only'', ''private-r2''}" if "p \<in> set (vals (cfg_profiles cfg))" for p
    using that ok by (fastforce simp: profile_ok_def)
qed

interpretation from_file: policy_source "\<lambda>cfg. \<exists>host home. load_policy_config host home = Inr cfg"
  by unfold_locales (use loaded_validated checked.policy_source_axioms[unfolded policy_source_def] in \<open>blast\<close>)+


section \<open>Failures of the policy file\<close>

text \<open>Whatever goes wrong while a policy is loaded is reported as a PolicyConfigError.\<close>

definition config_errors :: "'a result \<Rightarrow> bool" where
  "config_errors r \<longleftrightarrow> (\<forall>e. r = Inl e \<longrightarrow> (\<exists>reason. e = PolicyConfigError reason))"

named_theorems config_error_rules \<open>steps that raise nothing but PolicyConfigError\<close>

lemma config_errors_simps [config_error_rules]:
  "config_errors (Inr x)" "config_errors (Inl (PolicyConfigError c))" "config_errors (raise_if b (PolicyConfigError c))"
  by (simp_all add: config_errors_def raise_if_def)

lemma config_errors_bind [config_error_rules]:
  "config_errors r \<Longrightarrow> (\<And>x. r = Inr x \<Longrightarrow> config_errors (k x)) \<Longrightarrow> config_errors (bind_r r k)"
  by (cases r) (auto simp: config_errors_def)

lemma config_errors_checks_Nil [config_error_rules]: "config_errors (checks [])"
  by (simp add: config_errors_def)

lemma config_errors_checks [config_error_rules]:
  "config_errors c \<Longrightarrow> config_errors (checks cs) \<Longrightarrow> config_errors (checks (c # cs))"
  by (cases c) (auto simp: config_errors_def)

lemma config_errors_map [config_error_rules]:
  "(\<And>x. x \<in> set xs \<Longrightarrow> config_errors (f x)) \<Longrightarrow> config_errors (map_r f xs)"
  by (induction xs) (auto simp: config_errors_def split: sum.splits)

lemma config_errors_if [config_error_rules]:
  "(b \<Longrightarrow> config_errors x) \<Longrightarrow> (\<not> b \<Longrightarrow> config_errors y) \<Longrightarrow> config_errors (if b then x else y)"
  by simp

lemma config_errors_handler [config_error_rules]:
  "config_errors (case r of Inl _ \<Rightarrow> Inl (PolicyConfigError c) | Inr x \<Rightarrow> Inr x)"
  by (cases r) (auto simp: config_errors_def)

lemma config_errors_validators [config_error_rules]:
  "config_errors (policy_identifier v)" "config_errors (positive_int v)" "config_errors (validate_owner host st c)"
  by (auto simp: policy_identifier_def positive_int_def validate_owner_def config_errors_def raise_if_def split: json.splits)

lemma config_errors_rules [config_error_rules]: "config_errors (match_fields expected raw)"
  unfolding match_fields_def repository_from_dict_def by (intro config_error_rules)

lemma config_errors_match [config_error_rules]: "config_errors (match_rule raw)" "config_errors (deny_rule raw)"
  unfolding match_rule_def deny_rule_def Let_def by (intro config_error_rules)+

lemma config_errors_destination [config_error_rules]: "config_errors (destination_from_dict name bindings raw)"
  by (auto simp: destination_from_dict_def intro!: config_error_rules split: option.splits)

lemma config_errors_limits [config_error_rules]: "config_errors (limits_from_dict raw)"
  unfolding limits_from_dict_def by (intro config_error_rules)

lemma config_errors_profile [config_error_rules]: "config_errors (profile_from_dict bindings name raw)"
  unfolding profile_from_dict_def Let_def by (intro config_error_rules)

lemma config_errors_binding [config_error_rules]: "config_errors (binding_from_dict e)"
  unfolding binding_from_dict_def Let_def by (cases e) (simp, intro config_error_rules)

lemma config_errors_from_dict [config_error_rules]: "config_errors (config_from_dict body)"
proof -
  have "config_errors ((\<lambda>(name, raw). bind_r (profile_from_dict bindings name raw) (\<lambda>p. Inr (name, p))) e)" for bindings e
    by (cases e) (simp, intro config_error_rules)
  then show ?thesis unfolding config_from_dict_def Let_def by (intro config_error_rules)
qed

lemma config_errors_symlinks [config_error_rules]: "config_errors (no_symlink_from host current parts)"
  by (induction host current parts rule: no_symlink_from.induct)
    (auto simp: Let_def intro!: config_error_rules split: lstat_result.splits)

lemma config_errors_path [config_error_rules]: "config_errors (policy_config_path host home)"
  unfolding policy_config_path_def policy_config_dir_def config_home_of_def validate_config_home_root_def
    validate_private_policy_dir_def validate_no_symlink_components_def Let_def
  by (intro config_error_rules; auto intro!: config_error_rules split: lstat_result.splits)

lemma config_errors_load: "config_errors (load_policy_config host home)"
  unfolding load_policy_config_def read_policy_body_def
  by (intro config_error_rules; auto intro!: config_error_rules split: lstat_result.splits option.splits)

end
