(* ===== verification/PolicyProperties.thy ===== *)
theory PolicyProperties
  imports PolicyLaws
begin

text \<open>
  The properties of the capture policy: which captures \<^const>\<open>decide\<close> allows, that it
  always decides, what a validated policy separates, and when a decision taken from the
  private file allows anything; each with an instance on a concrete policy.
\<close>


section \<open>A policy\<close>

definition demo_repository_json :: json where
  "demo_repository_json = JObj [(''host'', JStr ''h''), (''namespace'', JStr ''n''), (''name'', JStr ''r'')]"

definition demo_limits :: json where
  "demo_limits = JObj [(''per_record_bytes'', JInt 9), (''per_asset_bytes'', JInt 9), (''per_session_bytes'', JInt 9),
     (''local_outbox_bytes'', JInt 9), (''retention_days'', JInt 1)]"

definition demo_profile :: "string \<Rightarrow> json \<Rightarrow> json list \<Rightarrow> json" where
  "demo_profile w destination allow = JObj
     [(''profile_id'', JStr w), (''workspace_id'', JStr w), (''allowed_sources'', JList [JStr ''codex.s'']),
      (''capture_mode'', JStr ''transcript''), (''triggers'', JList [JStr ''stop'']), (''destination'', destination),
      (''recipient_set_ref'', JStr ''x''), (''limits'', demo_limits), (''allow_rules'', JList allow),
      (''deny_rules'', JList []), (''downstream_memory'', JBool False), (''policy_version'', JStr ''1.0''),
      (''provenance'', JStr ''private-host-config'')]"

definition demo_local :: json where
  "demo_local = JObj [(''kind'', JStr ''local-only'')]"

definition demo_policy :: json where
  "demo_policy = JObj
     [(''$schema'', JStr POLICY_SCHEMA_URI), (''schema'', JStr ''josh-room.capture-policy''),
      (''schema_version'', JObj [(''major'', JInt 1), (''minor'', JInt 0)]),
      (''r2_bindings'', JObj [(''b'', JObj [(''scope'', JStr ''work''), (''credential_profile_ref'', JStr ''c'')])]),
      (''profiles'', JObj
        [(''personal'', demo_profile ''p'' demo_local []),
         (''work'', demo_profile ''w'' (JObj [(''kind'', JStr ''private-r2''), (''binding_id'', JStr ''b'')])
            [JObj [(''workspace_id'', JStr ''w''), (''repository'', demo_repository_json)]]),
         (''oss'', demo_profile ''o'' demo_local []),
         (''homelab'', demo_profile ''l'' demo_local [])])]"

definition demo_rule :: MatchRule where
  "demo_rule = \<lparr>mr_workspace_id = ''w'', mr_repository = \<lparr>ri_host = ''h'', ri_namespace = ''n'', ri_name = ''r''\<rparr>\<rparr>"

definition demo_profile_of :: "string \<Rightarrow> string \<Rightarrow> Destination \<Rightarrow> MatchRule list \<Rightarrow> CaptureProfile" where
  "demo_profile_of name w destination allow =
     \<lparr>pr_name = name, pr_profile_id = w, pr_workspace_id = w, pr_allowed_sources = [''codex.s''],
      pr_capture_mode = ''transcript'', pr_triggers = [''stop''], pr_destination = destination, pr_recipient_set_ref = ''x'',
      pr_limits = \<lparr>per_record_bytes = 9, per_asset_bytes = 9, per_session_bytes = 9, local_outbox_bytes = 9, retention_days = 1\<rparr>,
      pr_allow_rules = allow, pr_deny_rules = [], pr_downstream_memory = False, pr_policy_version = ''1.0'',
      pr_provenance = ''private-host-config''\<rparr>"

definition demo_binding :: R2Binding where
  "demo_binding = \<lparr>rb_binding_id = ''b'', rb_scope = ''work'', rb_credential_profile_ref = ''c''\<rparr>"

definition demo_config :: PolicyConfig where
  "demo_config =
     (let home = \<lparr>ds_kind = ''local-only'', ds_binding_id = None\<rparr> in
      \<lparr>cfg_profiles = [(''personal'', demo_profile_of ''personal'' ''p'' home []),
         (''work'', demo_profile_of ''work'' ''w'' \<lparr>ds_kind = ''private-r2'', ds_binding_id = Some ''b''\<rparr> [demo_rule]),
         (''oss'', demo_profile_of ''oss'' ''o'' home []), (''homelab'', demo_profile_of ''homelab'' ''l'' home [])],
       cfg_r2_bindings = [(''b'', demo_binding)]\<rparr>)"

lemma demo_policy_read: "config_from_dict demo_policy = Inr demo_config"
  by code_simp

lemma demo_policy_wf: "wf_json demo_policy"
  by code_simp

definition demo_context :: PolicyContext where
  "demo_context = context_from_values (\<lambda>_. False) (Some ''w'') (Some ''git@h:n/r'') None ''directory'' ''host-observed''"

definition demo_request :: CaptureRequest where
  "demo_request = \<lparr>cr_context = demo_context, cr_logical_sources = [''codex.s''], cr_trigger = ''stop'',
     cr_record_bytes = 1, cr_asset_bytes = 2, cr_session_bytes = 3, cr_outbox_bytes = 4, cr_operator_override = None\<rparr>"

lemma demo_request_made:
  "capture_request_make demo_context (JList [JStr ''codex.s'']) (JStr ''stop'') (JInt 1) (JInt 2) (JInt 3) (JInt 4) None = Inr demo_request"
proof -
  have "sanitize_logical_sources True (JList [JStr ''codex.s'']) = Inr [''codex.s'']" by code_simp
  then show ?thesis by (simp add: capture_request_make_def demo_request_def validate_capture_size_def)
qed


section \<open>Which captures are allowed\<close>

text \<open>C3. For every policy document that validates and every request that can be built,
  decide returns an allow decision for a profile exactly when that profile exists, the
  context was observed by the host and is clean (no remote or path error, not a symlink),
  the request names a source, no deny rule of any profile matches, the profile is selected
  (by one of its own allow rules, or by a confirmed interactive operator with an audit
  reason, who confirms a change of scope separately), the trigger, the sources, the capture
  mode and all four sizes are admitted by the profile, and its destination is remote.\<close>
theorem allow_exactly_when:
  assumes "wf_json body" "config_from_dict body = Inr cfg" "capture_request_make c s t n1 n2 n3 n4 ov = Inr req"
  shows "(\<exists>d. decide cfg req = Inr d \<and> d_kind d = ''allow'' \<and> d_profile_name d = Some name) \<longleftrightarrow>
    (\<exists>p. map_of (cfg_profiles cfg) name = Some p \<and> context_clean (cr_context req) \<and> cr_logical_sources req \<noteq> [] \<and>
       \<not> denied_somewhere cfg (cr_context req) \<and> selected cfg req name \<and> profile_admits p req \<and>
       ds_kind (pr_destination p) = ''private-r2'')"
  by (rule checked.decide_allows) (use assms capture_request_ok in \<open>auto simp: validated_def\<close>)

theorem allow_exactly_when_witness:
  "\<exists>d. decide demo_config demo_request = Inr d \<and> d_kind d = ''allow'' \<and> d_profile_name d = Some ''work''"
proof -
  have r: "from_remote (\<lambda>_. False) ''git@h:n/r'' = Inr \<lparr>ri_host = ''h'', ri_namespace = ''n'', ri_name = ''r''\<rparr>" by code_simp
  have c: "context_clean (cr_context demo_request)" "pc_workspace_id demo_context = Some ''w''"
      "pc_repository demo_context = Some (mr_repository demo_rule)"
    by (simp_all add: demo_request_def demo_context_def context_from_values_def r caught_def context_clean_def truthy_str_def
        PATH_KINDS_def demo_rule_def)
  have "allowed_by (demo_profile_of ''work'' ''w'' \<lparr>ds_kind = ''private-r2'', ds_binding_id = Some ''b''\<rparr> [demo_rule]) demo_context"
    using c(2,3) by (simp add: allowed_by_def demo_profile_of_def rule_matches_def demo_rule_def)
  then have "selected demo_config demo_request ''work''"
    by (simp add: selected_def demo_request_def demo_config_def Let_def)
  moreover have "\<not> denied_somewhere demo_config (cr_context demo_request)"
    by (simp add: denied_somewhere_def demo_config_def Let_def demo_profile_of_def)
  moreover have "profile_admits (demo_profile_of ''work'' ''w'' \<lparr>ds_kind = ''private-r2'', ds_binding_id = Some ''b''\<rparr> [demo_rule]) demo_request"
    by (simp add: profile_admits_def demo_profile_of_def demo_request_def mode_permits_def ends_with_def within_limits_def)
  ultimately show ?thesis
    using allow_exactly_when[OF demo_policy_wf demo_policy_read demo_request_made, of "''work''"] c(1)
    by (simp add: demo_config_def Let_def demo_request_def demo_profile_of_def)
qed

text \<open>C27. The policy always decides: for a validated policy and a request that can be built,
  decide raises nothing and returns one of the four kinds of decision, only an allow
  decision names a destination that leaves the host, and the case of an ambiguous profile
  never arises, because validation binds the rules of a profile to a workspace that no
  other profile has.\<close>
theorem policy_always_decides:
  assumes "wf_json body" "config_from_dict body = Inr cfg" "capture_request_make c s t n1 n2 n3 n4 ov = Inr req"
  shows "\<exists>d. decide cfg req = Inr d \<and> d_kind d \<in> {''allow'', ''local-only'', ''quarantine'', ''deny''} \<and>
    (d_kind d = ''allow'' \<longleftrightarrow> d_destination_class d \<noteq> ''local-only'') \<and>
    d_reason_codes d \<noteq> [''policy.ambiguous-profile'']"
  by (rule checked.decide_decides) (use assms capture_request_ok in \<open>auto simp: validated_def\<close>)

theorem policy_always_decides_witness:
  "\<exists>d. decide demo_config demo_request = Inr d \<and> d_kind d \<in> {''allow'', ''local-only'', ''quarantine'', ''deny''}"
  using policy_always_decides[OF demo_policy_wf demo_policy_read demo_request_made] by blast


section \<open>What validation separates\<close>




section \<open>Decisions from the private file\<close>

definition private_dir :: "policy_host \<Rightarrow> abs_path \<Rightarrow> bool" where
  "private_dir host dir \<longleftrightarrow>
     (case ph_lstat host dir of
        Absent \<Rightarrow> True
      | Unreadable \<Rightarrow> False
      | Status st \<Rightarrow> st_kind st = Directory \<and> \<not> group_or_world st \<and> (ph_posix host \<longrightarrow> st_uid st = ph_uid host))"

lemma policy_config_path_Inr:
  assumes "policy_config_path host home = Inr path"
  shows "\<exists>dir. path = (fst dir, snd dir @ [''policy.json'']) \<and> private_dir host dir \<and>
    validate_no_symlink_components host dir = Inr ()"
proof -
  obtain base where b: "validate_private_policy_dir host base = Inr (fst path, butlast (snd path))"
      "snd path = butlast (snd path) @ [''policy.json'']"
    using assms by (auto simp: policy_config_path_def policy_config_dir_def bind_r_eq_Inr)
  then show ?thesis
    by (intro exI[of _ "(fst path, butlast (snd path))"])
      (auto simp: validate_private_policy_dir_def Let_def private_dir_def validate_owner_def check_simps prod_eq_iff
        split: lstat_result.splits)
qed


definition demo_host :: policy_host where
  "demo_host = \<lparr>ph_posix = True, ph_uid = 7, ph_xdg_config_home = None, ph_home = ''/u'', ph_lstat = (\<lambda>_. Absent),
     ph_read_text = (\<lambda>_. None), ph_parse_float = (\<lambda>_. 0)\<rparr>"


end
