(* ===== verification/PolicyRemote.thy ===== *)
theory PolicyRemote
  imports PolicyProperties
begin

text \<open>
  Properties of \<^verbatim>\<open>RepositoryIdentity.from_remote\<close>: the three usual spellings of a
  repository's remote give the same identity, and a remote that carries credentials is
  rejected before any policy is consulted.
\<close>

text \<open>Characters that can stand in a remote without ending one of its parts.\<close>

definition plain :: "char \<Rightarrow> bool" where
  "plain c \<longleftrightarrow> \<not> code c < 32 \<and> \<not> is_space c"

lemma plain_ident: "is_ident_char c \<Longrightarrow> plain c \<and> c \<notin> set ''/?#[]@:%''"
  by (auto simp: plain_def is_space_def is_ident_char_def is_alnum_def is_digit_def is_lower_def is_upper_def)

lemma host_char_ident: "is_lower_alnum c \<or> c \<in> set ''.-'' \<Longrightarrow> is_ident_char c"
  by (auto simp: is_lower_alnum_def is_ident_char_def is_alnum_def)

lemma plain_literals: "plain CHR ''/''" "plain CHR '':''" "plain CHR ''@''" "list_all plain ''https''" "list_all plain ''http''"
    "list_all plain ''ssh''" "list_all plain ''git''" "list_all plain ''.git''"
  by (simp_all add: plain_def is_space_def)

lemma plain_clean:
  assumes "list_all plain s"
  shows "url_clean s = s" "\<not> list_ex (\<lambda>c. code c < 32 \<or> is_space c) s"
proof -
  have p: "\<And>c. c \<in> set s \<Longrightarrow> \<not> code c < 32 \<and> \<not> is_space c" using assms by (auto simp: list_all_iff plain_def)
  then show "\<not> list_ex (\<lambda>c. code c < 32 \<or> is_space c) s" by (auto simp: list_ex_iff)
  have "\<not> code c \<le> 32" if "c \<in> set s" for c using p[OF that] by (auto simp: is_space_def le_less)
  then have "dropWhile (\<lambda>c. code c \<le> 32) s = s" by (cases s) auto
  then show "url_clean s = s" using p by (auto simp: url_clean_def filter_id_conv is_space_def)
qed

definition host_ok :: "string \<Rightarrow> bool" where
  "host_ok h \<longleftrightarrow> HOST_RE h \<and> last h \<noteq> CHR ''.''"

lemma host_chars:
  assumes "HOST_RE h"
  shows "list_all is_ident_char h" "list_all plain h" "lower h = h" "h \<noteq> []"
proof -
  have h: "\<And>c. c \<in> set h \<Longrightarrow> is_lower_alnum c \<or> c \<in> set ''.-''" using assms by (auto simp: HOST_RE_def list_all_iff)
  then show "list_all is_ident_char h" using host_char_ident by (auto simp: list_all_iff)
  then show "list_all plain h" using plain_ident by (auto simp: list_all_iff)
  have "lower_char c = c" if "c \<in> set h" for c
    using h[OF that] by (auto simp: lower_char_def is_upper_def is_lower_alnum_def is_lower_def is_digit_def)
  then show "lower h = h" by (simp add: lower_def map_idI)
  show "h \<noteq> []" using assms by (simp add: HOST_RE_def)
qed

lemma ident_absent: "list_all is_ident_char s \<Longrightarrow> c \<in> set ''/?#[]@:%'' \<Longrightarrow> c \<notin> set s"
  using plain_ident by (auto simp: list_all_iff)

text \<open>The authority of a URL: optional user information and a plain host.\<close>

lemma url_parts:
  assumes scheme: "scheme \<in> {''http'', ''https'', ''ssh''}" and host: "HOST_RE h"
    and info: "list_all plain info" "set info \<inter> set ''/?#[]'' = {}"
    and auth: "netloc = h \<or> netloc = info @ CHR ''@'' # h"
    and path: "list_all plain path"
  defines "remote \<equiv> scheme @ ''://'' @ netloc @ CHR ''/'' # path"
  shows "\<not> list_ex (\<lambda>c. code c < 32 \<or> is_space c) remote" "\<not> scp_form remote" "contains remote ''://''"
    "\<exists>p q f. urlsplit_of bracketed remote = Some \<lparr>su_scheme = scheme, su_netloc = netloc, su_path = p, su_query = q, su_fragment = f\<rparr> \<and>
       (CHR ''#'' \<notin> set path \<longrightarrow> CHR ''?'' \<notin> set path \<longrightarrow> p = CHR ''/'' # path \<and> q = [] \<and> f = [])"
proof -
  note h = host_chars[OF host] ident_absent[OF host_chars(1)[OF host]]
  have net: "list_all plain netloc" "set netloc \<inter> set ''/?#[]'' = {}"
    using auth info h(2) h(5) plain_literals by (auto simp: list_all_iff)
  have all: "list_all plain remote"
    using scheme net(1) path plain_literals by (auto simp: remote_def list_all_iff plain_def is_space_def)
  then show "\<not> list_ex (\<lambda>c. code c < 32 \<or> is_space c) remote" by (rule plain_clean(2))
  show "\<not> scp_form remote" "contains remote ''://''" using scheme by (auto simp: remote_def scp_form_def starts_with_def)
  have sch: "split_scheme (url_clean remote) = (scheme, CHR ''/'' # CHR ''/'' # netloc @ CHR ''/'' # path)"
  proof -
    have c: "CHR '':'' \<notin> set scheme" "scheme \<noteq> []" "is_alpha (hd scheme)" "list_all is_scheme_char scheme" "lower scheme = scheme"
      using scheme by (auto simp: is_alpha_def is_lower_def is_scheme_char_def is_alnum_def lower_def lower_char_def is_upper_def)
    have "remote = scheme @ CHR '':'' # ''//'' @ netloc @ CHR ''/'' # path" by (simp add: remote_def)
    then show ?thesis using plain_clean(1)[OF all] partition_on_sep[OF c(1)] c(2-5) by (simp add: split_scheme_def)
  qed
  have nl: "split_netloc (CHR ''/'' # CHR ''/'' # netloc @ CHR ''/'' # path) = (netloc, CHR ''/'' # path)"
  proof -
    have "\<And>c. c \<in> set netloc \<Longrightarrow> c \<notin> set ''/?#''" using net(2) by auto
    then have "takeWhile (\<lambda>c. c \<notin> set ''/?#'') (netloc @ CHR ''/'' # path) = netloc"
        "dropWhile (\<lambda>c. c \<notin> set ''/?#'') (netloc @ CHR ''/'' # path) = CHR ''/'' # path"
      by (subst takeWhile_append2 dropWhile_append2; simp)+
    then show ?thesis by (simp add: split_netloc_def)
  qed
  have br: "brackets_ok bracketed netloc" using net(2) by (auto simp: brackets_ok_def)
  show "\<exists>p q f. urlsplit_of bracketed remote = Some \<lparr>su_scheme = scheme, su_netloc = netloc, su_path = p, su_query = q, su_fragment = f\<rparr> \<and>
       (CHR ''#'' \<notin> set path \<longrightarrow> CHR ''?'' \<notin> set path \<longrightarrow> p = CHR ''/'' # path \<and> q = [] \<and> f = [])"
    using partition_on_absent[of "CHR ''#''" "CHR ''/'' # path"] partition_on_absent[of "CHR ''?''" "CHR ''/'' # path"]
    by (auto simp: urlsplit_of_def sch nl br starts_with_def split: prod.splits)
qed

lemma netloc_plain:
  assumes "HOST_RE h" "su_netloc u = h"
  shows "su_username u = None" "su_password u = None" "su_hostname u = Some h"
proof -
  note h = host_chars(3,4)[OF assms(1)] ident_absent[OF host_chars(1)[OF assms(1)]]
  have "rpartition_on CHR ''@'' h = ([], False, h)" by (rule rpartition_on_absent) (use h(3) in simp)
  moreover have "partition_on CHR ''['' h = (h, False, [])" "partition_on CHR '':'' h = (h, False, [])" "partition_on CHR ''%'' h = (h, False, [])"
    by (rule partition_on_absent; use h(3) in simp)+
  ultimately show "su_username u = None" "su_password u = None" "su_hostname u = Some h"
    using h assms(2) by (simp_all add: su_username_def su_password_def su_hostname_def partition_on_absent)
qed

lemma netloc_info:
  assumes "HOST_RE h" "su_netloc u = info @ CHR ''@'' # h"
  shows "su_username u \<noteq> None" "su_hostname u = Some h" "CHR '':'' \<notin> set info \<Longrightarrow> su_username u = Some info \<and> su_password u = None"
proof -
  note h = host_chars(3,4)[OF assms(1)] ident_absent[OF host_chars(1)[OF assms(1)]]
  have r: "rpartition_on CHR ''@'' (info @ CHR ''@'' # h) = (info, True, h)" by (rule rpartition_on_sep) (use h(3) in simp)
  have "partition_on CHR ''['' h = (h, False, [])" "partition_on CHR '':'' h = (h, False, [])" "partition_on CHR ''%'' h = (h, False, [])"
    by (rule partition_on_absent; use h(3) in simp)+
  then show "su_username u \<noteq> None" "su_hostname u = Some h"
    using h r assms(2) by (simp_all add: su_username_def su_hostname_def)
  show "CHR '':'' \<notin> set info \<Longrightarrow> su_username u = Some info \<and> su_password u = None"
    using r assms(2) partition_on_absent[of "CHR '':''" info] by (simp add: su_username_def su_password_def)
qed


section \<open>One identity for three spellings\<close>

text \<open>What \<^const>\<open>repository_make\<close> accepts.\<close>

lemma repository_make_Inr:
  assumes "repository_make (JStr h) (JStr ns) (JStr n) = Inr r"
  shows "HOST_RE h" "r = \<lparr>ri_host = h, ri_namespace = ns, ri_name = n\<rparr>" "ns \<noteq> []"
    "\<forall>p \<in> set (split_on CHR ''/'' ns). PART_RE p \<and> p \<notin> set DOT_SEGMENTS" "PART_RE n" "n \<notin> set DOT_SEGMENTS"
  using assms
  by (auto simp: repository_make_def check_simps host_sanitized_def namespace_sanitized_def name_sanitized_def list_all_iff list_ex_iff)

lemma part_chars:
  assumes "PART_RE p"
  shows "list_all is_ident_char p" "p \<noteq> []" "CHR ''/'' \<notin> set p"
  using assms ident_absent[of p "CHR ''/''"] by (auto simp: PART_RE_def)

lemma namespace_chars:
  assumes "ns \<noteq> []" "\<forall>p \<in> set (split_on CHR ''/'' ns). PART_RE p \<and> p \<notin> set DOT_SEGMENTS"
  shows "\<And>c. c \<in> set ns \<Longrightarrow> is_ident_char c \<or> c = CHR ''/''" "hd ns \<noteq> CHR ''/''"
proof -
  have mem: "c \<in> set s \<Longrightarrow> c = d \<or> (\<exists>p \<in> set (split_on d s). c \<in> set p)" for c d s
    by (induction s) (auto split: list.splits)
  show "is_ident_char c \<or> c = CHR ''/''" if "c \<in> set ns" for c
    using mem[OF that] assms(2) part_chars(1) by (fastforce simp: list_all_iff)
  show "hd ns \<noteq> CHR ''/''"
  proof
    assume "hd ns = CHR ''/''"
    then have "[] \<in> set (split_on CHR ''/'' ns)" using assms(1) by (cases ns) auto
    then show False using assms(2) part_chars(2) by blast
  qed
qed

lemma remote_finish:
  assumes make: "repository_make (JStr h) (JStr ns) (JStr n) = Inr r" and dot: "last h \<noteq> CHR ''.''"
    and safe: "\<not> list_ex (\<lambda>c. code c < 32 \<or> is_space c) remote" "remote \<noteq> []" "contains remote ''://'' \<or> \<not> scp_password_form remote"
    and hp: "remote_host_path bracketed remote = Inr (h, path)"
    and path: "path = ns @ CHR ''/'' # n @ ''.git'' \<or> path = CHR ''/'' # ns @ CHR ''/'' # n @ ''.git''"
  shows "from_remote bracketed remote = Inr r"
proof -
  note m = repository_make_Inr[OF make]
  note h = host_chars[OF m(1)]
  note nc = namespace_chars[OF m(3,4)]
  note pc = part_chars[OF m(5)]
  let ?p = "ns @ CHR ''/'' # n @ ''.git''"
  have host: "rstrip_chars ''.'' (lower h) = h"
    using h(3,4) dot by (cases h rule: rev_cases) (auto simp: rstrip_chars_def)
  have "CHR ''%'' \<notin> set path"
    using path nc(1)[of "CHR ''%''"] pc(1) plain_ident[of "CHR ''%''"] by (auto simp: list_all_iff)
  then have "unquote path = path" by (rule unquote_id)
  moreover have "strip_chars ''/'' path = ?p"
  proof -
    have "dropWhile (\<lambda>c. c \<in> set ''/'') path = ?p" using path nc(2) m(3) by (cases ns) auto
    then show ?thesis by (simp add: strip_chars_def)
  qed
  ultimately have stripped: "strip_chars ''/'' (unquote path) = ?p" by simp
  have g: "CHR ''/'' \<notin> set (n @ ''.git'')" using pc(3) by simp
  have split: "split_on CHR ''/'' (ns @ CHR ''/'' # t) = split_on CHR ''/'' ns @ split_on CHR ''/'' t" for t
  proof -
    have "split_on c (s @ c # t) = split_on c s @ split_on c t" for c s
      by (induction s) (auto split: list.splits)
    then show ?thesis .
  qed
  have parts: "split_on CHR ''/'' ?p = split_on CHR ''/'' ns @ [n @ ''.git'']"
    using split[of "n @ ''.git''"] split_on_no_sep[OF g] by simp
  have suffix: "removesuffix ''.git'' ?p = ns @ CHR ''/'' # n"
    using removesuffix_append[of "''.git''" "ns @ CHR ''/'' # n"] by simp
  have names: "split_on CHR ''/'' (ns @ CHR ''/'' # n) = split_on CHR ''/'' ns @ [n]"
    using split[of n] split_on_no_sep[OF pc(3)] by simp
  have "length n + 4 \<noteq> 1" "length n + 4 \<noteq> 2" by simp_all
  then have nodot: "n @ ''.git'' \<notin> set DOT_SEGMENTS" by (auto simp: DOT_SEGMENTS_def)
  have "\<not> list_ex (\<lambda>p. p \<in> set DOT_SEGMENTS) (split_on CHR ''/'' ?p)"
    unfolding parts using m(4) nodot by (auto simp: list_ex_iff)
  moreover have "\<not> length (split_on CHR ''/'' ns @ [n]) < 2" by (cases "split_on CHR ''/'' ns") auto
  moreover have "list_all PART_RE (split_on CHR ''/'' ns @ [n])" using m(4,5) by (auto simp: list_all_iff)
  ultimately show ?thesis
    using safe m(1) by (simp add: from_remote_def hp Let_def host stripped suffix names join_split make del: append.simps)
qed

lemma spelling_reads:
  assumes "repository_make (JStr h) (JStr ns) (JStr n) = Inr r" "last h \<noteq> CHR ''.''"
  shows "from_remote bracketed (''https://'' @ stable_id r @ ''.git'') = Inr r"
    and "from_remote bracketed (''ssh://git@'' @ stable_id r @ ''.git'') = Inr r"
    and "from_remote bracketed (''git@'' @ h @ '':'' @ ns @ ''/'' @ n @ ''.git'') = Inr r"
proof -
  note m = repository_make_Inr[OF assms(1)]
  note nc = namespace_chars[OF m(3,4)]
  note h = host_chars[OF m(1)]
  note habs = ident_absent[OF h(1)]
  let ?path = "ns @ CHR ''/'' # n @ ''.git''"
  have path: "list_all plain ?path" "CHR ''#'' \<notin> set ?path" "CHR ''?'' \<notin> set ?path"
    using nc(1) part_chars(1)[OF m(5)] plain_ident plain_literals by (auto simp: list_all_iff)
  have git: "list_all plain ''git''" "set ''git'' \<inter> set ''/?#[]'' = {}" using plain_literals by simp_all
  have sid: "stable_id r @ ''.git'' = h @ CHR ''/'' # ?path" by (simp add: m(2) stable_id_def)
  show "from_remote bracketed (''https://'' @ stable_id r @ ''.git'') = Inr r"
  proof -
    have "''https'' \<in> {''http'', ''https'', ''ssh''}" "h = h \<or> h = ''git'' @ CHR ''@'' # h" by simp_all
    note u = url_parts[OF this(1) m(1) git this(2) path(1)]
    let ?remote = "''https'' @ ''://'' @ h @ CHR ''/'' # ?path"
    let ?su = "\<lparr>su_scheme = ''https'', su_netloc = h, su_path = CHR ''/'' # ?path, su_query = [], su_fragment = []\<rparr>"
    have su: "urlsplit_of bracketed ?remote = Some ?su" using u(4)[of bracketed] path(2,3) by auto
    have hp: "remote_host_path bracketed ?remote = Inr (h, CHR ''/'' # ?path)"
      using u(2) su netloc_plain[OF m(1), of ?su] h(4) by (simp add: remote_host_path_def truthy_str_def)
    have "from_remote bracketed ?remote = Inr r"
      by (rule remote_finish[OF assms u(1) _ disjI1[OF u(3)] hp]) simp_all
    then show ?thesis unfolding sid by simp
  qed
  show "from_remote bracketed (''ssh://git@'' @ stable_id r @ ''.git'') = Inr r"
  proof -
    have "''ssh'' \<in> {''http'', ''https'', ''ssh''}" "''git'' @ CHR ''@'' # h = h \<or> ''git'' @ CHR ''@'' # h = ''git'' @ CHR ''@'' # h" by simp_all
    note u = url_parts[OF this(1) m(1) git this(2) path(1)]
    let ?remote = "''ssh'' @ ''://'' @ (''git'' @ CHR ''@'' # h) @ CHR ''/'' # ?path"
    let ?su = "\<lparr>su_scheme = ''ssh'', su_netloc = ''git'' @ CHR ''@'' # h, su_path = CHR ''/'' # ?path, su_query = [], su_fragment = []\<rparr>"
    have su: "urlsplit_of bracketed ?remote = Some ?su" using u(4)[of bracketed] path(2,3) by auto
    have hp: "remote_host_path bracketed ?remote = Inr (h, CHR ''/'' # ?path)"
      using u(2) su netloc_info[OF m(1), of ?su "''git''"] h(4) by (simp add: remote_host_path_def truthy_str_def)
    have "from_remote bracketed ?remote = Inr r"
      by (rule remote_finish[OF assms u(1) _ disjI1[OF u(3)] hp]) simp_all
    then show ?thesis unfolding sid by simp
  qed
  show "from_remote bracketed (''git@'' @ h @ '':'' @ ns @ ''/'' @ n @ ''.git'') = Inr r"
  proof -
    let ?remote = "''git'' @ CHR ''@'' # h @ CHR '':'' # ?path"
    have "list_all plain ?remote" using git(1) h(2) path(1) plain_literals by simp
    then have safe: "\<not> list_ex (\<lambda>c. code c < 32 \<or> is_space c) ?remote" by (rule plain_clean(2))
    have hw: "takeWhile (\<lambda>c. c \<noteq> CHR '':'') (h @ CHR '':'' # ?path) = h" by (rule takeWhile_sep) (use habs in simp)
    have "scp_form ?remote" using hw h(4) by (simp add: scp_form_def Let_def)
    moreover have "partition_on CHR '':'' (h @ CHR '':'' # ?path) = (h, True, ?path)" by (rule partition_on_sep) (use habs in simp)
    moreover have "partition_on CHR ''@'' ?remote = (''git'', True, h @ CHR '':'' # ?path)" by (rule partition_on_sep) simp
    ultimately have "remote_host_path bracketed ?remote = Inr (h, ?path)" by (simp add: remote_host_path_def)
    moreover have "\<not> scp_password_form ?remote" by (simp add: scp_password_form_def Let_def)
    ultimately show ?thesis using remote_finish[OF assms safe] by simp
  qed
qed

text \<open>C26. A repository has one identity: for every identity the code can construct whose host
  does not end in a dot, the https, the ssh and the scp-like remote of that repository are all
  read back as that very identity.\<close>
theorem remote_spellings_agree:
  assumes "repository_make (JStr h) (JStr ns) (JStr n) = Inr r" "last h \<noteq> CHR ''.''"
  shows "from_remote bracketed (''https://'' @ stable_id r @ ''.git'') = Inr r \<and>
    from_remote bracketed (''ssh://git@'' @ stable_id r @ ''.git'') = Inr r \<and>
    from_remote bracketed (''git@'' @ h @ '':'' @ ns @ ''/'' @ n @ ''.git'') = Inr r"
  using spelling_reads[OF assms] by blast

theorem remote_spellings_agree_witness:
  "from_remote (\<lambda>_. False) ''https://h.io/a/b/r.git'' = Inr \<lparr>ri_host = ''h.io'', ri_namespace = ''a/b'', ri_name = ''r''\<rparr>"
proof -
  have "repository_make (JStr ''h.io'') (JStr ''a/b'') (JStr ''r'') = Inr \<lparr>ri_host = ''h.io'', ri_namespace = ''a/b'', ri_name = ''r''\<rparr>"
    by code_simp
  moreover have "last ''h.io'' \<noteq> CHR ''.''" by simp
  ultimately show ?thesis using remote_spellings_agree[of "''h.io''" "''a/b''" "''r''" _ "\<lambda>_. False"] by (fastforce simp: stable_id_def)
qed


section \<open>Credentials in a remote\<close>

lemma credential_remote:
  assumes "scheme \<in> {''http'', ''https''}" "list_all plain info" "set info \<inter> set ''/?#[]'' = {}" "HOST_RE h" "list_all plain path"
  shows "from_remote bracketed (scheme @ ''://'' @ info @ ''@'' @ h @ ''/'' @ path) = Inl credential_error"
proof -
  have a: "scheme \<in> {''http'', ''https'', ''ssh''}" "info @ CHR ''@'' # h = h \<or> info @ CHR ''@'' # h = info @ CHR ''@'' # h"
    using assms(1) by auto
  note u = url_parts[OF a(1) assms(4,2,3) a(2) assms(5)]
  let ?remote = "scheme @ ''://'' @ (info @ CHR ''@'' # h) @ CHR ''/'' # path"
  obtain p q f where su: "urlsplit_of bracketed ?remote =
      Some \<lparr>su_scheme = scheme, su_netloc = info @ CHR ''@'' # h, su_path = p, su_query = q, su_fragment = f\<rparr>"
    using u(4)[of bracketed] by blast
  have "remote_host_path bracketed ?remote = Inl credential_error"
    using u(2) su assms(1) host_chars(4)[OF assms(4)]
      netloc_info(1,2)[OF assms(4), of "\<lparr>su_scheme = scheme, su_netloc = info @ CHR ''@'' # h, su_path = p, su_query = q, su_fragment = f\<rparr>" info]
    by (auto simp: remote_host_path_def truthy_str_def)
  moreover have "?remote \<noteq> []" by simp
  ultimately have "from_remote bracketed ?remote = Inl credential_error"
    using u(1,3) unfolding from_remote_def by (simp only: if_False bind_r_Inl simp_thms)
  then show ?thesis by simp
qed

text \<open>C13. A remote with user information is never used: an http or https remote that carries
  any user name or password (any characters but separators of the URL, control characters and
  spaces) in front of a host is rejected as credential-bearing, the context observed from it
  holds no repository, and every decision about that context is a quarantine for that
  reason, whatever the policy and the operator say.\<close>
theorem credentials_never_accepted:
  assumes "scheme \<in> {''http'', ''https''}" "list_all plain info" "set info \<inter> set ''/?#[]'' = {}" "HOST_RE h" "list_all plain path"
    and "ctx = context_from_values bracketed w (Some (scheme @ ''://'' @ info @ ''@'' @ h @ ''/'' @ path)) workspace kind ''host-observed''"
  shows "from_remote bracketed (scheme @ ''://'' @ info @ ''@'' @ h @ ''/'' @ path) = Inl credential_error \<and>
    pc_repository ctx = None \<and>
    (\<forall>cfg req. capture_request_make ctx s t n1 n2 n3 n4 ov = Inr req \<longrightarrow>
      (\<exists>d. decide cfg req = Inr d \<and> d_kind d = ''quarantine'' \<and> d_reason_codes d = [''repository.remote-credentials'']))"
proof -
  note r = credential_remote[OF assms(1-5), of bracketed]
  have c: "pc_repository ctx = None" "pc_remote_error ctx = Some ''credential-bearing repository remote is rejected''"
      "pc_context_source ctx = ''host-observed''"
    unfolding assms(6) by (simp_all add: context_from_values_def r[simplified] caught_def error_text_def credential_error_def split: prod.split)
  have k: "contains ''credential-bearing repository remote is rejected'' ''credential-bearing''" by (simp add: starts_with_def)
  have "\<exists>d. decide cfg req = Inr d \<and> d_kind d = ''quarantine'' \<and> d_reason_codes d = [''repository.remote-credentials'']"
    if "capture_request_make ctx s t n1 n2 n3 n4 ov = Inr req" for cfg req
  proof -
    have "cr_context req = ctx" "request_ok req"
      using that capture_request_ok[OF that] by (auto simp: capture_request_make_def check_simps)
    then show ?thesis using c k by (simp add: decide_def Let_def truthy_str_def decision_eq del: contains.simps)
  qed
  then show ?thesis using r c(1) by blast
qed

theorem credentials_never_accepted_witness:
  "from_remote (\<lambda>_. False) ''https://u:p@h/n/r'' = Inl credential_error"
proof -
  have "list_all plain ''u:p''" "list_all plain ''n/r''" "HOST_RE ''h''"
    by (simp_all add: plain_def is_space_def HOST_RE_def is_lower_alnum_def is_lower_def)
  then show ?thesis using credentials_never_accepted[of "''https''" "''u:p''" "''h''" "''n/r''" _ "\<lambda>_. False", OF _ _ _ _ _ refl] by simp
qed

end
