(* ===== verification/WorkspacePolicy.thy ===== *)
theory WorkspacePolicy
  imports Url Json
begin

text \<open>
  Model of \<^verbatim>\<open>src/josh_room/workspace_policy.py\<close>: which paths of a workspace a capture
  leaves out. A rule is a list of path segments; \<^verbatim>\<open>**\<close> stands for any number of
  segments, and the other segments are matched by \<^verbatim>\<open>fnmatch.fnmatchcase\<close>. Rules are
  checked to be free of brackets and exclamation marks, so \<^verbatim>\<open>*\<close> and \<^verbatim>\<open>?\<close> are the
  only wildcards that the model of \<^verbatim>\<open>fnmatch\<close> needs.
\<close>

definition IGNORE_LIMIT :: nat where "IGNORE_LIMIT = 64 * 1024"
definition MAX_RULES :: nat where "MAX_RULES = 128"
definition MAX_RULE_LENGTH :: nat where "MAX_RULE_LENGTH = 1024"
definition MAX_PATTERN_SEGMENTS :: nat where "MAX_PATTERN_SEGMENTS = 128"


section \<open>Rules\<close>

text \<open>The generator that drops a \<^verbatim>\<open>**\<close> right after another; the flag says that the previous segment was one.\<close>

fun drop_repeated_stars :: "bool \<Rightarrow> string list \<Rightarrow> string list" where
  "drop_repeated_stars after_stars [] = []"
| "drop_repeated_stars after_stars (s # ss) =
     (if s \<noteq> ''**'' \<or> \<not> after_stars then s # drop_repeated_stars (s = ''**'') ss
      else drop_repeated_stars True ss)"

definition rule_error :: "string \<Rightarrow> string \<Rightarrow> py_error" where
  "rule_error rule what = ValueError (rule @ what)"

definition path_text_ok :: "json \<Rightarrow> bool" where
  "path_text_ok v \<longleftrightarrow>
     (case v of
        JStr s \<Rightarrow> s \<noteq> [] \<and> length s \<le> MAX_RULE_LENGTH \<and> \<not> starts_with s ''/'' \<and>
          \<not> (length s \<ge> 3 \<and> s ! 1 = CHR '':'' \<and> s ! 2 = CHR ''/'') \<and> backslash \<notin> set s
      | _ \<Rightarrow> False)"

definition parts :: "string \<Rightarrow> json \<Rightarrow> string list result" where
  "parts rule pattern =
     (if \<not> path_text_ok pattern then Inl (rule_error rule '' is invalid'')
      else
        let raw = split_on CHR ''/'' (str_of pattern); segments = drop_repeated_stars False raw in
        bind_r (checks [
          raise_if (length raw > MAX_PATTERN_SEGMENTS) (rule_error rule '' has too many path components''),
          raise_if (list_ex (\<lambda>s. s \<in> {[], ''.'', ''..''}) segments) (rule_error rule '' is invalid''),
          raise_if (list_ex (\<lambda>s. list_ex (\<lambda>c. c \<in> set ''![]'') s \<or> (contains s ''**'' \<and> s \<noteq> ''**'')) segments)
            (rule_error rule '' uses unsupported glob syntax''),
          raise_if (segments = [''**'']) (rule_error rule '' cannot exclude the whole workspace'')]) (\<lambda>_. Inr segments))"


section \<open>Matching\<close>

fun fnmatchcase :: "string \<Rightarrow> string \<Rightarrow> bool" where
  "fnmatchcase [] name = (name = [])"
| "fnmatchcase (p # ps) [] = (p = CHR ''*'' \<and> fnmatchcase ps [])"
| "fnmatchcase (p # ps) (c # cs) =
     (if p = CHR ''*'' then fnmatchcase ps (c # cs) \<or> fnmatchcase (p # ps) cs
      else (p = CHR ''?'' \<or> p = c) \<and> fnmatchcase ps cs)"

function glob_matches :: "string list \<Rightarrow> string list \<Rightarrow> bool" where
  "glob_matches pattern path =
     (if pattern = [] then path = []
      else if hd pattern = ''**''
      then glob_matches (tl pattern) path \<or> (if path = [] then False else glob_matches pattern (tl path))
      else if path = [] then False
      else fnmatchcase (hd pattern) (hd path) \<and> glob_matches (tl pattern) (tl path))"
  by pat_completeness auto
termination
  by (relation "measure (\<lambda>(pattern, path). length pattern + length path)") (auto simp: neq_Nil_conv)

declare glob_matches.simps [simp del]

definition rule_matches :: "string list \<Rightarrow> string list \<Rightarrow> bool" where
  "rule_matches path_parts pattern =
     (if length pattern = 2 \<and> pattern ! 0 = ''**'' \<and> CHR ''*'' \<notin> set (pattern ! 1) \<and> CHR ''?'' \<notin> set (pattern ! 1) \<and>
        CHR ''['' \<notin> set (pattern ! 1)
      then pattern ! 1 \<in> set path_parts
      else if length pattern = 1 \<and> pattern ! 0 \<noteq> ''**''
      then list_ex (\<lambda>part. glob_matches pattern [part]) path_parts
      else list_ex (\<lambda>len. glob_matches pattern (take len path_parts)) [1..<length path_parts + 1])"


section \<open>The policy of a capture\<close>

definition normalized_relative :: "string \<Rightarrow> string list option" where
  "normalized_relative value =
     (if value = [] \<or> starts_with value ''/'' \<or> backslash \<in> set value then None
      else let segments = split_on CHR ''/'' value in
        if list_ex (\<lambda>p. p \<in> {[], ''.'', ''..''}) segments then None else Some segments)"

record CapturePolicy =
  cp_sha256 :: string
  cp_patterns :: "string list list"
  cp_active_runtime_relative :: "string option"
  cp_capture_mode :: string

definition under_runtime :: "CapturePolicy \<Rightarrow> string list \<Rightarrow> bool" where
  "under_runtime policy segments =
     (case cp_active_runtime_relative policy of
        None \<Rightarrow> False
      | Some r \<Rightarrow> r \<noteq> [] \<and>
          take (length (split_on CHR ''/'' r)) segments = split_on CHR ''/'' r)"

text \<open>\<^verbatim>\<open>parts.index(x)\<close>\<close>

definition index_in :: "string \<Rightarrow> string list \<Rightarrow> nat" where
  "index_in x xs = length (takeWhile (\<lambda>y. y \<noteq> x) xs)"

lemma index_in_less: "x \<in> set xs \<Longrightarrow> index_in x xs < length xs"
  unfolding index_in_def by (induction xs) auto

lemma join_take_shorter:
  "i < length ps \<Longrightarrow> 0 < i \<Longrightarrow> length (join_on c (take i ps)) < length (join_on c ps)"
proof (induction ps arbitrary: i)
  case (Cons p ps)
  then show ?case
  proof (cases "i = 1")
    case True
    then show ?thesis using Cons.prems by (cases ps) auto
  next
    case False
    then obtain j where j: "i = Suc j" "0 < j" "j < length ps" using Cons.prems by (cases i) auto
    obtain q qs where ps: "ps = q # qs" using j(3) by (cases ps) auto
    obtain k where k: "j = Suc k" using j(2) by (cases j) auto
    have "length (join_on c (take j ps)) < length (join_on c ps)" using Cons.IH j by blast
    then show ?thesis by (simp add: j(1) ps k)
  qed
qed simp

function is_excluded :: "CapturePolicy \<Rightarrow> string \<Rightarrow> bool" where
  "is_excluded policy relative_path =
     (case normalized_relative relative_path of
        None \<Rightarrow> False
      | Some segments \<Rightarrow>
          if ''.git'' \<in> set segments then
            (if cp_capture_mode policy = ''source-only'' then True
             else let index = index_in ''.git'' segments in
               if index = 0 then False else is_excluded policy (join_on CHR ''/'' (take index segments)))
          else under_runtime policy segments \<or> list_ex (rule_matches segments) (cp_patterns policy))"
  by pat_completeness auto
termination
proof (relation "measure (length \<circ> snd)")
  fix policy :: CapturePolicy and relative_path segments index
  assume a: "normalized_relative relative_path = Some segments" "''.git'' \<in> set segments"
    "index = index_in ''.git'' segments" "index \<noteq> 0"
  have "index < length segments" unfolding a(3) by (rule index_in_less[OF a(2)])
  moreover have "join_on CHR ''/'' segments = relative_path"
    using a(1) by (auto simp: normalized_relative_def Let_def join_split split: if_splits)
  ultimately show "((policy, join_on CHR ''/'' (take index segments)), policy, relative_path) \<in> measure (length \<circ> snd)"
    using join_take_shorter[of index segments "CHR ''/''"] a(4) by simp
qed simp

declare is_excluded.simps [simp del]


section \<open>Exclusions for restic\<close>

text \<open>A directory tree as \<^verbatim>\<open>os.walk\<close> sees it; links are listed and never followed.\<close>

datatype node = FileNode | LinkNode | DirNode "(string \<times> node) list"

definition child :: "string \<Rightarrow> string \<Rightarrow> string" where
  "child parent name = (if parent = [] then name else parent @ ''/'' @ name)"

text \<open>
  The excluded paths that the pruned walk lists below a directory. The order is not that
  of \<^verbatim>\<open>os.walk\<close>; the caller sorts.
\<close>

fun walk_excluded :: "CapturePolicy \<Rightarrow> string \<Rightarrow> (string \<times> node) list \<Rightarrow> string list" where
  "walk_excluded policy parent [] = []"
| "walk_excluded policy parent ((name, n) # entries) =
     (if is_excluded policy (child parent name) then [child parent name]
      else (case n of DirNode es \<Rightarrow> walk_excluded policy (child parent name) es | _ \<Rightarrow> [])) @
     walk_excluded policy parent entries"

definition has_line_end :: "string \<Rightarrow> bool" where
  "has_line_end s \<longleftrightarrow> CHR 0x0A \<in> set s \<or> CHR 0x0D \<in> set s"

text \<open>The root is the resolved absolute path of the workspace.\<close>

definition absolute_of :: "string \<Rightarrow> string \<Rightarrow> string" where
  "absolute_of root_path relative = (if root_path = ''/'' then ''/'' @ relative else root_path @ ''/'' @ relative)"

definition restic_literal :: "string \<Rightarrow> string" where
  "restic_literal s = concat (map (\<lambda>c. if c \<in> set ''*?[]'' \<or> c = backslash then [backslash, c] else [c]) s)"

definition resolved_restic_excludes :: "CapturePolicy \<Rightarrow> string \<Rightarrow> (string \<times> node) list \<Rightarrow> string list result" where
  "resolved_restic_excludes policy root_path entries =
     (let found = walk_excluded policy [] entries in
      if list_ex (\<lambda>r. has_line_end r \<or> has_line_end (absolute_of root_path r)) found
      then Inl (ValueError ''workspace exclusion contains an unsafe path'')
      else Inr (sort (map (restic_literal \<circ> absolute_of root_path) found)))"

definition restic_pattern :: "string list \<Rightarrow> string" where
  "restic_pattern pattern =
     (if length pattern = 1 \<and> pattern ! 0 \<noteq> ''**'' then ''**/'' @ join_on CHR ''/'' pattern else join_on CHR ''/'' pattern)"

definition restic_patterns :: "string list \<Rightarrow> string list" where
  "restic_patterns pattern =
     (let rendered = restic_pattern pattern in
      if last pattern = ''**''
      then (let base = join_on CHR ''/'' (butlast pattern) in if base \<noteq> [] then [rendered, base] else [rendered])
      else [rendered, rendered @ ''/**''])"

text \<open>\<^verbatim>\<open>tuple(dict.fromkeys(xs))\<close>: the first occurrences.\<close>

definition first_occurrences :: "'a list \<Rightarrow> 'a list" where
  "first_occurrences xs = rev (remdups (rev xs))"

definition restic_excludes :: "CapturePolicy \<Rightarrow> string list" where
  "restic_excludes policy =
     first_occurrences (concat (map restic_patterns (cp_patterns policy)) @
       (if cp_capture_mode policy = ''source-only'' then [''**/.git'', ''**/.git/**''] else []) @
       (case cp_active_runtime_relative policy of
          None \<Rightarrow> []
        | Some r \<Rightarrow> if r = [] then [] else [r, r @ ''/**'']))"


section \<open>The ignore file and the defaults\<close>

record file_identity =
  fi_regular :: bool
  fi_size :: nat
  fi_dev :: nat
  fi_ino :: nat

datatype ignore_lstat = IgnoreAbsent | IgnoreUnavailable | IgnoreFile file_identity

text \<open>
  What the loader observes: the workspace, the bytes of the packaged defaults, the ignore
  file (\<^verbatim>\<open>lstat\<close>, \<^verbatim>\<open>open\<close> with \<^verbatim>\<open>fstat\<close>, and \<^verbatim>\<open>read\<close> on the state of a
  descriptor, each None where it raises OSError), UTF-8 decoding and SHA-256.
\<close>

record 's workspace_host =
  wh_is_dir :: bool
  wh_defaults :: "string option"
  wh_lstat :: ignore_lstat
  wh_open :: "(file_identity \<times> 's) option"
  wh_read :: "'s \<Rightarrow> nat \<Rightarrow> (string \<times> 's) option"
  wh_decode :: "string \<Rightarrow> string option"
  wh_sha256 :: "string \<Rightarrow> string"
  wh_float :: "string \<Rightarrow> rat"

definition IGNORE_READ_SIZE :: nat where "IGNORE_READ_SIZE = 8192"

text \<open>
  The loop over \<^verbatim>\<open>os.read\<close>. It goes on only after a chunk with at least one byte, so it
  ends after at most \<^verbatim>\<open>_IGNORE_LIMIT + 1\<close> chunks, whatever the descriptor returns.
\<close>

function read_chunks :: "('s \<Rightarrow> nat \<Rightarrow> (string \<times> 's) option) \<Rightarrow> string \<Rightarrow> 's \<Rightarrow> string option" where
  "read_chunks read chunks fd =
     (if length chunks > IGNORE_LIMIT then Some chunks
      else (case read fd (min IGNORE_READ_SIZE (IGNORE_LIMIT + 1 - length chunks)) of
          None \<Rightarrow> None
        | Some (chunk, fd') \<Rightarrow> if chunk = [] then Some chunks else read_chunks read (chunks @ chunk) fd'))"
  by pat_completeness auto
termination
  by (relation "measure (\<lambda>(_, chunks, _). IGNORE_LIMIT + 1 - length chunks)") (auto simp: neq_Nil_conv)

declare read_chunks.simps [simp del]

definition read_ignore :: "'s workspace_host \<Rightarrow> string option result" where
  "read_ignore host =
     (case wh_lstat host of
        IgnoreAbsent \<Rightarrow> Inr None
      | IgnoreUnavailable \<Rightarrow> Inl (ValueError ''workspace ignore file is unavailable'')
      | IgnoreFile st \<Rightarrow>
          if \<not> fi_regular st \<or> fi_size st > IGNORE_LIMIT
          then Inl (ValueError ''workspace ignore file must be a regular file of at most 64 KiB'')
          else (case wh_open host of
              None \<Rightarrow> Inl (ValueError ''workspace ignore file could not be read safely'')
            | Some (opened, fd) \<Rightarrow>
                if \<not> fi_regular opened \<or> fi_dev opened \<noteq> fi_dev st \<or> fi_ino opened \<noteq> fi_ino st \<or> fi_size opened > IGNORE_LIMIT
                then Inl (ValueError ''workspace ignore file changed while opening'')
                else (case read_chunks (wh_read host) [] fd of
                    None \<Rightarrow> Inl (ValueError ''workspace ignore file could not be read safely'')
                  | Some chunks \<Rightarrow>
                      if length chunks > IGNORE_LIMIT then Inl (ValueError ''workspace ignore file exceeds 64 KiB'')
                      else if wh_decode host chunks = None
                      then Inl (ValueError ''workspace ignore file must be valid UTF-8'')
                      else Inr (Some chunks))))"

definition read_defaults :: "'s workspace_host \<Rightarrow> (string \<times> json list) result" where
  "read_defaults host =
     (case wh_defaults host of
        None \<Rightarrow> Inl (ValueError ''workspace capture defaults are invalid'')
      | Some raw \<Rightarrow>
          (case wh_decode host raw of
             None \<Rightarrow> Inl (ValueError ''workspace capture defaults are not UTF-8'')
           | Some doc \<Rightarrow>
               (case json_loads (default_hooks (wh_float host)) doc of
                  Inl _ \<Rightarrow> Inl (ValueError ''workspace capture defaults are invalid'')
                | Inr body \<Rightarrow>
                    if \<not> is_obj body \<or> set (keys (obj_of body)) \<noteq> {''version'', ''exclude''} \<or>
                      \<not> py_eq (jget (obj_of body) ''version'') (JInt 1)
                    then Inl (ValueError ''unsupported workspace capture defaults'')
                    else if \<not> is_list (jget (obj_of body) ''exclude'') \<or> list_of (jget (obj_of body) ''exclude'') = []
                    then Inl (ValueError ''workspace capture defaults are invalid'')
                    else Inr (raw, list_of (jget (obj_of body) ''exclude'')))))"

text \<open>The loop over the lines of the ignore file; the second argument is the rules so far.\<close>

fun user_rules :: "string list \<Rightarrow> string list list \<Rightarrow> string list list result" where
  "user_rules [] patterns = Inr patterns"
| "user_rules (line # lines) patterns =
     (let rule = strip_ws line in
      if rule = [] \<or> starts_with rule ''#'' then user_rules lines patterns
      else if starts_with rule ''!'' then Inl (ValueError ''workspace ignore rules cannot reinclude paths'')
      else if length patterns \<ge> MAX_RULES then Inl (ValueError ''workspace ignore file has too many rules'')
      else bind_r (parts ''workspace ignore rule'' (JStr rule)) (\<lambda>p. user_rules lines (patterns @ [p])))"

definition user_patterns :: "'s workspace_host \<Rightarrow> string option \<Rightarrow> string list list result" where
  "user_patterns host contents =
     (case contents of
        None \<Rightarrow> Inr []
      | Some raw \<Rightarrow> user_rules (split_on CHR 0x0A (the (wh_decode host raw))) [])"

definition MODE_DIRECTIVE :: string where "MODE_DIRECTIVE = ''# josh-room capture-mode:''"

definition capture_mode_of :: "'s workspace_host \<Rightarrow> string option \<Rightarrow> string result" where
  "capture_mode_of host ignore_raw =
     (let doc = (case ignore_raw of None \<Rightarrow> [] | Some raw \<Rightarrow> the (wh_decode host raw));
          directives = filter (\<lambda>l. starts_with l MODE_DIRECTIVE) (map strip_ws (splitlines doc)) in
      case directives of
        [] \<Rightarrow> Inr ''full-repository''
      | [d] \<Rightarrow>
          (let mode = strip_ws (snd (snd (partition_on CHR '':'' d))) in
           if mode \<notin> {''full-repository'', ''source-only''} then Inl (ValueError ''unsupported workspace capture mode'')
           else Inr mode)
      | _ \<Rightarrow> Inl (ValueError ''workspace capture mode must be specified exactly once''))"

text \<open>
  The active runtime: none given, a path that does not resolve, or a resolved path with
  whether it is a directory and its path relative to the workspace, when it is below it.
\<close>

datatype runtime_root = NoRuntime | RuntimeUnresolved | RuntimeAt bool "string list option"

definition runtime_relative :: "runtime_root \<Rightarrow> string option result" where
  "runtime_relative runtime =
     (case runtime of
        NoRuntime \<Rightarrow> Inr None
      | RuntimeUnresolved \<Rightarrow> Inl FileNotFoundError
      | RuntimeAt is_dir rel \<Rightarrow>
          if \<not> is_dir then Inl (ValueError ''active runtime root must be a directory'')
          else (case rel of
              None \<Rightarrow> Inr None
            | Some names \<Rightarrow>
                if names = [] then Inl (ValueError ''active runtime root cannot be the workspace root'')
                else let posix = join_on CHR ''/'' names in
                  if list_ex (\<lambda>c. c \<in> set ''*?[]'') posix
                  then Inl (ValueError ''active runtime path contains unsupported glob characters'')
                  else Inr (Some posix)))"

definition policy_digest :: "'s workspace_host \<Rightarrow> string \<Rightarrow> string option \<Rightarrow> string option \<Rightarrow> string" where
  "policy_digest host defaults_raw ignore_raw runtime =
     wh_sha256 host (defaults_raw @
       (case ignore_raw of
          None \<Rightarrow> CHR 0x00 # ''ignore-absent'' @ [CHR 0x00]
        | Some raw \<Rightarrow> (CHR 0x00 # ''ignore-present'' @ [CHR 0x00]) @ raw) @
       (CHR 0x00 # ''active-runtime'' @ [CHR 0x00]) @
       utf8_encode (case runtime of None \<Rightarrow> [] | Some r \<Rightarrow> r))"

definition load_capture_policy :: "'s workspace_host \<Rightarrow> runtime_root \<Rightarrow> CapturePolicy result" where
  "load_capture_policy host runtime =
     (if \<not> wh_is_dir host then Inl (ValueError ''workspace must be a directory'')
      else bind_r (read_defaults host) (\<lambda>(raw, exclude).
        bind_r (read_ignore host) (\<lambda>ignore_raw.
        bind_r (capture_mode_of host ignore_raw) (\<lambda>mode.
        bind_r (map_r (parts ''workspace capture default'') exclude) (\<lambda>defaults.
        bind_r (user_patterns host ignore_raw) (\<lambda>user.
        bind_r (runtime_relative runtime) (\<lambda>rel.
          Inr \<lparr>cp_sha256 = policy_digest host raw ignore_raw rel, cp_patterns = defaults @ user,
            cp_active_runtime_relative = rel, cp_capture_mode = mode\<rparr>)))))))"

end
