(* ===== verification/WorkspaceLaws.thy ===== *)
theory WorkspaceLaws
  imports WorkspacePolicy
begin

text \<open>
  Laws of the capture exclusions. The matcher with its shortcuts is equal to a
  declarative reading of a rule; exclusion is inherited by everything below an excluded
  path, which is what lets the walk prune; an ignore file can only add exclusions; and the
  bounded read of the ignore file returns the whole file or refuses it.
\<close>


section \<open>What a rule means\<close>

text \<open>
  A pattern against the segments of a path: \<^verbatim>\<open>**\<close> takes any number of segments, any
  other segment exactly one.
\<close>

inductive pattern_of :: "string list \<Rightarrow> string list \<Rightarrow> bool" where
  pattern_end: "pattern_of [] []"
| pattern_stars: "pattern_of ps path \<Longrightarrow> pattern_of (''**'' # ps) (skipped @ path)"
| pattern_segment: "p \<noteq> ''**'' \<Longrightarrow> fnmatchcase p s \<Longrightarrow> pattern_of ps path \<Longrightarrow> pattern_of (p # ps) (s # path)"

inductive_cases pattern_of_Nil: "pattern_of [] path"
inductive_cases pattern_of_Cons: "pattern_of (p # ps) path"

lemma pattern_of_stars: "pattern_of (''**'' # ps) path \<longleftrightarrow> (\<exists>k \<le> length path. pattern_of ps (drop k path))"
proof
  assume "pattern_of (''**'' # ps) path"
  then obtain skipped rest where "path = skipped @ rest" "pattern_of ps rest" by (auto elim: pattern_of_Cons)
  then show "\<exists>k \<le> length path. pattern_of ps (drop k path)" by (intro exI[of _ "length skipped"]) simp
next
  assume "\<exists>k \<le> length path. pattern_of ps (drop k path)"
  then obtain k where "pattern_of ps (drop k path)" by blast
  from pattern_stars[OF this, of "take k path"] show "pattern_of (''**'' # ps) path" by simp
qed

lemma glob_simps:
  "glob_matches [] path \<longleftrightarrow> path = []"
  "glob_matches (p # ps) path \<longleftrightarrow>
     (if p = ''**'' then glob_matches ps path \<or> (path \<noteq> [] \<and> glob_matches (p # ps) (tl path))
      else path \<noteq> [] \<and> fnmatchcase p (hd path) \<and> glob_matches ps (tl path))"
  by (subst glob_matches.simps; simp)+

lemma glob_matches_pattern: "glob_matches pattern path \<longleftrightarrow> pattern_of pattern path"
proof (induction pattern path rule: glob_matches.induct)
  case (1 pattern path)
  show ?case
  proof (cases pattern)
    case Nil
    then show ?thesis by (auto simp: glob_simps elim: pattern_of_Nil intro: pattern_end)
  next
    case (Cons p ps)
    show ?thesis
    proof (cases "p = ''**''")
      case True
      have step: "pattern_of pattern path \<longleftrightarrow> pattern_of ps path \<or> (path \<noteq> [] \<and> pattern_of pattern (tl path))"
      proof (cases path)
        case Nil
        then show ?thesis by (simp add: Cons True pattern_of_stars)
      next
        case p: (Cons s rest)
        have "(\<exists>k \<le> Suc (length rest). Q k) \<longleftrightarrow> Q 0 \<or> (\<exists>k \<le> length rest. Q (Suc k))" for Q :: "nat \<Rightarrow> bool"
          by (metis Suc_le_mono not0_implies_Suc zero_le)
        then show ?thesis by (simp add: Cons True p pattern_of_stars)
      qed
      then show ?thesis
        using 1 True Cons glob_simps(2)[of p ps path] by auto
    next
      case False
      have "pattern_of (p # ps) path \<longleftrightarrow> (\<exists>s rest. path = s # rest \<and> fnmatchcase p s \<and> pattern_of ps rest)"
        using False by (auto elim: pattern_of_Cons intro: pattern_segment)
      then show ?thesis
        using 1 False Cons by (cases path) (auto simp: glob_simps(2)[of p])
    qed
  qed
qed

text \<open>A rule without a slash applies at any depth: it reads as if \<^verbatim>\<open>**\<close> stood in front.\<close>

definition anchored :: "string list \<Rightarrow> string list" where
  "anchored pattern = (if length pattern = 1 \<and> pattern ! 0 \<noteq> ''**'' then ''**'' # pattern else pattern)"

lemma fnmatchcase_literal:
  "CHR ''*'' \<notin> set p \<Longrightarrow> CHR ''?'' \<notin> set p \<Longrightarrow> fnmatchcase p s \<longleftrightarrow> p = s"
  by (induction p s rule: fnmatchcase.induct) auto

lemma pattern_of_single: "p \<noteq> ''**'' \<Longrightarrow> pattern_of [p] path \<longleftrightarrow> (\<exists>s. path = [s] \<and> fnmatchcase p s)"
  by (auto elim!: pattern_of_Cons pattern_of_Nil intro!: pattern_segment pattern_end)

lemma pattern_of_anywhere:
  assumes "p \<noteq> ''**''"
  shows "(\<exists>k \<in> {1..length path}. pattern_of [''**'', p] (take k path)) \<longleftrightarrow> (\<exists>s \<in> set path. fnmatchcase p s)"
proof
  assume "\<exists>k \<in> {1..length path}. pattern_of [''**'', p] (take k path)"
  then show "\<exists>s \<in> set path. fnmatchcase p s"
    using assms by (auto simp: pattern_of_stars pattern_of_single) (metis in_set_dropD in_set_takeD list.set_intros(1))
next
  assume "\<exists>s \<in> set path. fnmatchcase p s"
  then obtain i where i: "i < length path" "fnmatchcase p (path ! i)" by (auto simp: in_set_conv_nth)
  then have "drop i (take (Suc i) path) = [path ! i]" by (simp add: take_Suc_conv_app_nth)
  then have "pattern_of [''**'', p] (take (Suc i) path)"
    using assms i unfolding pattern_of_stars by (intro exI[of _ i]) (simp add: pattern_of_single)
  then show "\<exists>k \<in> {1..length path}. pattern_of [''**'', p] (take k path)" using i(1) by (intro bexI[of _ "Suc i"]) auto
qed

lemma rule_matches_pattern:
  "rule_matches path pattern \<longleftrightarrow> (\<exists>k \<in> {1..length path}. pattern_of (anchored pattern) (take k path))"
proof -
  let ?literal = "length pattern = 2 \<and> pattern ! 0 = ''**'' \<and> CHR ''*'' \<notin> set (pattern ! 1) \<and> CHR ''?'' \<notin> set (pattern ! 1) \<and>
        CHR ''['' \<notin> set (pattern ! 1)"
  consider (literal) name where "?literal" "pattern = [''**'', name]"
    | (single) p where "\<not> ?literal" "pattern = [p]" "p \<noteq> ''**''"
    | (general) "\<not> ?literal" "\<not> (length pattern = 1 \<and> pattern ! 0 \<noteq> ''**'')"
  proof (cases "?literal")
    case True
    then have "pattern = [''**'', pattern ! 1]" by (cases pattern; cases "tl pattern") auto
    then show thesis using literal True by blast
  next
    case False
    show thesis
    proof (cases "length pattern = 1 \<and> pattern ! 0 \<noteq> ''**''")
      case True
      then show thesis using single[OF False] by (cases pattern) auto
    qed (use general False in blast)
  qed
  then show ?thesis
  proof cases
    case literal
    then have "name \<noteq> ''**''" by auto
    then show ?thesis
      using literal pattern_of_anywhere[of name path] fnmatchcase_literal[of name] by (auto simp: rule_matches_def anchored_def)
  next
    case single
    have "rule_matches path pattern \<longleftrightarrow> (\<exists>s \<in> set path. fnmatchcase p s)"
      unfolding rule_matches_def glob_matches_pattern using single by (auto simp: list_ex_iff pattern_of_single)
    then show ?thesis using pattern_of_anywhere[OF single(3), of path] single by (simp add: anchored_def)
  next
    case general
    have "set [1..<length path + 1] = {1..length path}" by auto
    moreover have "anchored pattern = pattern" using general(2) by (simp add: anchored_def)
    ultimately show ?thesis
      unfolding rule_matches_def using general by (simp only: if_False glob_matches_pattern list_ex_iff)
  qed
qed

lemma rule_matches_below: "rule_matches path pattern \<Longrightarrow> rule_matches (path @ below) pattern"
  unfolding rule_matches_pattern by (auto intro!: bexI)


section \<open>Exclusion is inherited\<close>

definition name_ok :: "string \<Rightarrow> bool" where
  "name_ok n \<longleftrightarrow> n \<notin> {[], ''.'', ''..''} \<and> CHR ''/'' \<notin> set n \<and> backslash \<notin> set n"

abbreviation posix_path :: "string list \<Rightarrow> string" where
  "posix_path \<equiv> join_on CHR ''/''"

lemma set_join: "set (join_on c ps) \<subseteq> insert c (\<Union>p \<in> set ps. set p)"
  by (induction c ps rule: join_on.induct) auto

lemma normalized_posix_path:
  assumes "ps \<noteq> []" "list_all name_ok ps"
  shows "normalized_relative (posix_path ps) = Some ps"
proof -
  have ok: "\<And>p. p \<in> set ps \<Longrightarrow> name_ok p" using assms(2) by (simp add: list_all_iff)
  obtain q qs where ps: "ps = q # qs" using assms(1) by (cases ps) auto
  have "backslash \<notin> set (posix_path ps)" using set_join[of "CHR ''/''" ps] ok by (auto simp: name_ok_def backslash_def)
  moreover obtain c cs where q: "q = c # cs" "c \<noteq> CHR ''/''" using ok[of q] ps by (cases q) (auto simp: name_ok_def)
  then have "\<exists>t. posix_path ps = c # t" by (cases qs) (auto simp: ps)
  then have "posix_path ps \<noteq> []" "\<not> starts_with (posix_path ps) ''/''" using q(2) by (auto simp: starts_with_def)
  moreover have "split_on CHR ''/'' (posix_path ps) = ps" using split_join[OF assms(1)] ok by (simp add: name_ok_def)
  moreover have "\<not> list_ex (\<lambda>p. p \<in> {[], ''.'', ''..''}) ps" using ok by (auto simp: list_ex_iff name_ok_def)
  ultimately show ?thesis by (simp add: normalized_relative_def Let_def)
qed

definition rules_hit :: "CapturePolicy \<Rightarrow> string list \<Rightarrow> bool" where
  "rules_hit policy segments \<longleftrightarrow> under_runtime policy segments \<or> list_ex (rule_matches segments) (cp_patterns policy)"

text \<open>Exclusion by segments: inside Git storage, the fate of the directory that holds it.\<close>

definition excluded_at :: "CapturePolicy \<Rightarrow> string list \<Rightarrow> bool" where
  "excluded_at policy segments \<longleftrightarrow>
     (if ''.git'' \<in> set segments
      then cp_capture_mode policy = ''source-only'' \<or> rules_hit policy (takeWhile (\<lambda>s. s \<noteq> ''.git'') segments)
      else rules_hit policy segments)"

lemma rules_hit_Nil: "\<not> rules_hit policy []"
  by (auto simp: rules_hit_def under_runtime_def rule_matches_pattern list_ex_iff split_on_ne[symmetric] split: option.splits)

lemma rules_hit_below: "rules_hit policy segments \<Longrightarrow> rules_hit policy (segments @ below)"
  using rule_matches_below by (fastforce simp: rules_hit_def under_runtime_def list_ex_iff split: option.splits)

lemma excluded_at_below: "excluded_at policy segments \<Longrightarrow> excluded_at policy (segments @ below)"
proof (cases "''.git'' \<in> set segments")
  case True
  then show "excluded_at policy segments \<Longrightarrow> excluded_at policy (segments @ below)"
    by (auto simp: excluded_at_def takeWhile_append1)
next
  case False
  then have "takeWhile (\<lambda>s. s \<noteq> ''.git'') (segments @ below) = segments @ takeWhile (\<lambda>s. s \<noteq> ''.git'') below"
    by (subst takeWhile_append2) auto
  then show "excluded_at policy segments \<Longrightarrow> excluded_at policy (segments @ below)"
    using False rules_hit_below by (auto simp: excluded_at_def)
qed

lemma is_excluded_at:
  assumes "ps \<noteq> []" "list_all name_ok ps"
  shows "is_excluded policy (posix_path ps) \<longleftrightarrow> excluded_at policy ps"
proof -
  have plain: "is_excluded policy (posix_path qs) \<longleftrightarrow> rules_hit policy qs"
    if "qs \<noteq> []" "list_all name_ok qs" "''.git'' \<notin> set qs" for qs
    using that normalized_posix_path[OF that(1,2)] by (simp add: is_excluded.simps rules_hit_def)
  show ?thesis
  proof (cases "''.git'' \<in> set ps")
    case True
    let ?i = "index_in ''.git'' ps"
    have t: "take ?i ps = takeWhile (\<lambda>s. s \<noteq> ''.git'') ps" by (simp add: index_in_def takeWhile_eq_take[symmetric])
    have ok: "list_all name_ok (take ?i ps)" "''.git'' \<notin> set (take ?i ps)"
      using assms(2) unfolding t by (auto simp: list_all_iff dest: set_takeWhileD)
    have "(if ?i = 0 then False else is_excluded policy (posix_path (take ?i ps))) \<longleftrightarrow> rules_hit policy (take ?i ps)"
    proof (cases "?i = 0")
      case False
      then have "take ?i ps \<noteq> []" using assms(1) by simp
      then show ?thesis using plain[OF _ ok] False by simp
    qed (simp add: rules_hit_Nil)
    then show ?thesis
      using True normalized_posix_path[OF assms] by (simp add: is_excluded.simps[of policy "posix_path ps"] excluded_at_def t Let_def)
  next
    case False
    then show ?thesis using plain[OF assms False] by (simp add: excluded_at_def)
  qed
qed


section \<open>The pruned walk\<close>

fun tree_paths :: "(string \<times> node) list \<Rightarrow> string list list" where
  "tree_paths [] = []"
| "tree_paths ((name, n) # entries) =
     [name] # (case n of DirNode es \<Rightarrow> map ((#) name) (tree_paths es) | _ \<Rightarrow> []) @ tree_paths entries"

definition names_ok :: "(string \<times> node) list \<Rightarrow> bool" where
  "names_ok entries \<longleftrightarrow> (\<forall>p \<in> set (tree_paths entries). list_all name_ok p)"

lemma names_ok_Cons:
  "names_ok ((name, n) # entries) \<longleftrightarrow>
     name_ok name \<and> names_ok entries \<and> (case n of DirNode es \<Rightarrow> names_ok es | _ \<Rightarrow> True)"
  by (cases n) (auto simp: names_ok_def ball_Un)

lemma child_path: "list_all name_ok ps \<Longrightarrow> child (posix_path ps) name = posix_path (ps @ [name])"
proof -
  assume ok: "list_all name_ok ps"
  have j: "join_on c (qs @ [x]) = join_on c qs @ c # x" if "qs \<noteq> []" for c x qs
    using that by (induction c qs rule: join_on.induct) auto
  have "posix_path ps \<noteq> []" if "ps \<noteq> []"
    using that ok by (cases ps; cases "tl ps") (auto simp: name_ok_def)
  then show ?thesis using j[of ps] by (cases "ps = []") (auto simp: child_def)
qed

lemma all_less_Suc:
  "(\<forall>k. 0 < k \<longrightarrow> k < Suc n \<longrightarrow> P k) \<longleftrightarrow> (0 < n \<longrightarrow> P 1) \<and> (\<forall>k. 0 < k \<longrightarrow> k < n \<longrightarrow> P (Suc k))"
proof
  assume r: "(0 < n \<longrightarrow> P 1) \<and> (\<forall>k. 0 < k \<longrightarrow> k < n \<longrightarrow> P (Suc k))"
  show "\<forall>k. 0 < k \<longrightarrow> k < Suc n \<longrightarrow> P k"
  proof (intro allI impI)
    fix k assume k: "0 < k" "k < Suc n"
    then obtain j where j: "k = Suc j" by (cases k) auto
    show "P k"
    proof (cases "j = 0")
      case False
      then show ?thesis using r j k by simp
    qed (use r j k in simp)
  qed
qed auto

text \<open>Found are the excluded paths that have no excluded directory above them.\<close>

lemma walk_found:
  assumes "list_all name_ok ps" "names_ok entries"
  shows "r \<in> set (walk_excluded policy (posix_path ps) entries) \<longleftrightarrow>
    (\<exists>q \<in> set (tree_paths entries). r = posix_path (ps @ q) \<and> excluded_at policy (ps @ q) \<and>
       (\<forall>k. 0 < k \<longrightarrow> k < length q \<longrightarrow> \<not> excluded_at policy (ps @ take k q)))"
  using assms
proof (induction policy "posix_path ps" entries arbitrary: ps rule: walk_excluded.induct)
  case (2 policy name n entries)
  note ok = "2.prems"(2)[unfolded names_ok_Cons]
  let ?top = "ps @ [name]"
  have top: "list_all name_ok ?top" using ok "2.prems"(1) by simp
  have ex: "is_excluded policy (child (posix_path ps) name) \<longleftrightarrow> excluded_at policy ?top"
    using is_excluded_at[OF _ top] child_path[OF "2.prems"(1)] by simp
  let ?min = "\<lambda>q. \<forall>k. 0 < k \<longrightarrow> k < length q \<longrightarrow> \<not> excluded_at policy (ps @ take k q)"
  have here: "r \<in> set (if is_excluded policy (child (posix_path ps) name) then [child (posix_path ps) name]
      else (case n of DirNode es \<Rightarrow> walk_excluded policy (child (posix_path ps) name) es | _ \<Rightarrow> [])) \<longleftrightarrow>
    (\<exists>q \<in> insert [name] (case n of DirNode es \<Rightarrow> (#) name ` set (tree_paths es) | _ \<Rightarrow> {}).
       r = posix_path (ps @ q) \<and> excluded_at policy (ps @ q) \<and> ?min q)"
  proof (cases "excluded_at policy ?top")
    case True
    have "\<not> ?min (name # q)" if "q \<noteq> []" for q
      using that True by (auto intro!: exI[of _ 1])
    moreover have "[] \<notin> set (tree_paths es)" for es by (induction es rule: tree_paths.induct) (auto split: node.splits)
    ultimately have "?min (name # q) \<longrightarrow> q = []" "[] \<notin> set (tree_paths es)" for q es by blast+
    then show ?thesis using True ex child_path[OF "2.prems"(1)] by (auto split: node.splits)
  next
    case False
    have min: "?min (name # q) \<longleftrightarrow> (\<forall>k. 0 < k \<longrightarrow> k < length q \<longrightarrow> \<not> excluded_at policy (?top @ take k q))" for q
      using all_less_Suc[of "length q" "\<lambda>k. \<not> excluded_at policy (ps @ take k (name # q))"] False by simp
    show ?thesis
    proof (cases n)
      case (DirNode es)
      have "r \<in> set (walk_excluded policy (posix_path ?top) es) \<longleftrightarrow>
        (\<exists>q \<in> set (tree_paths es). r = posix_path (?top @ q) \<and> excluded_at policy (?top @ q) \<and>
          (\<forall>k. 0 < k \<longrightarrow> k < length q \<longrightarrow> \<not> excluded_at policy (?top @ take k q)))"
        by (rule "2.hyps"(1)) (use ex False DirNode child_path[OF "2.prems"(1)] top ok in auto)
      then show ?thesis
        using ex False DirNode child_path[OF "2.prems"(1)] min by simp
    qed (use ex False in auto)
  qed
  have rest: "r \<in> set (walk_excluded policy (posix_path ps) entries) \<longleftrightarrow>
      (\<exists>q \<in> set (tree_paths entries). r = posix_path (ps @ q) \<and> excluded_at policy (ps @ q) \<and> ?min q)"
    by (rule "2.hyps"(2)) (use "2.prems"(1) ok in simp_all)
  have "set (tree_paths ((name, n) # entries)) =
      insert [name] (case n of DirNode es \<Rightarrow> (#) name ` set (tree_paths es) | _ \<Rightarrow> {}) \<union> set (tree_paths entries)"
    by (auto split: node.splits)
  then show ?case using here rest by (simp only: walk_excluded.simps set_append Un_iff bex_Un)
qed simp

end
