(* ===== verification/WorkspaceProperties.thy ===== *)
theory WorkspaceProperties
  imports WorkspaceLaws
begin

text \<open>
  The properties of the capture exclusions, each with an instance: what a rule means, that
  the list given to restic covers exactly the excluded paths of a tree, that an ignore
  file only adds exclusions, and that the bounded read of that file ends with all of it.
\<close>

section \<open>Rules\<close>

text \<open>C28. A rule excludes a path exactly when some non-empty leading part of the path matches
  it segment by segment, ** taking any number of segments, where a rule of one
  segment reads as if **/ stood before it: the recursive matcher and its two
  shortcuts (a literal name after **, and a single segment) agree with that reading,
  and the glob rendered for restic is that very anchored rule.\<close>
theorem rule_reading:
  "(rule_matches path pattern \<longleftrightarrow> (\<exists>k \<in> {1..length path}. pattern_of (anchored pattern) (take k path))) \<and>
   restic_pattern pattern = posix_path (anchored pattern)"
proof -
  have "restic_pattern [p] = posix_path (anchored [p])" for p
    by (simp add: restic_pattern_def anchored_def)
  then have "restic_pattern pattern = posix_path (anchored pattern)"
    by (cases "length pattern = 1") (auto simp: length_Suc_conv restic_pattern_def anchored_def)
  then show ?thesis using rule_matches_pattern by blast
qed


section \<open>The list given to restic\<close>

text \<open>The reading of a quoted literal: a backslash stands for the character after it.\<close>

fun unquote_literal :: "string \<Rightarrow> string" where
  "unquote_literal [] = []"
| "unquote_literal [c] = [c]"
| "unquote_literal (c # d # s) = (if c = backslash then d # unquote_literal s else c # unquote_literal (d # s))"

lemma unquote_literal_plain: "c \<noteq> backslash \<Longrightarrow> unquote_literal (c # s) = c # unquote_literal s"
  by (cases s) auto

lemma unquote_restic_literal: "unquote_literal (restic_literal s) = s"
  by (induction s) (auto simp: restic_literal_def unquote_literal_plain)

lemma restic_literal_inj: "restic_literal s = restic_literal t \<longleftrightarrow> s = t"
  by (metis unquote_restic_literal)

lemma absolute_of_inj: "absolute_of r s = absolute_of r t \<longleftrightarrow> s = t"
  by (simp add: absolute_of_def)

lemma posix_path_inj:
  assumes "list_all name_ok ps" "list_all name_ok qs" "ps \<noteq> []" "qs \<noteq> []" "posix_path ps = posix_path qs"
  shows "ps = qs"
  using normalized_posix_path[OF assms(3,1), unfolded assms(5)] normalized_posix_path[OF assms(4,2)] by simp

lemma tree_paths_prefix:
  "q \<in> set (tree_paths entries) \<Longrightarrow> 0 < k \<Longrightarrow> k \<le> length q \<Longrightarrow> take k q \<in> set (tree_paths entries)"
proof (induction entries arbitrary: q k rule: tree_paths.induct)
  case (2 name n entries)
  show ?case
  proof (cases "q \<in> set (tree_paths entries)")
    case True
    then show ?thesis using "2.IH"(2) "2.prems"(2,3) by simp
  next
    case False
    show ?thesis
    proof (cases "q = [name]")
      case True
      then show ?thesis using "2.prems"(2,3) by (cases k) auto
    next
      case q: False
      then obtain es q' where es: "n = DirNode es" "q = name # q'" "q' \<in> set (tree_paths es)"
        using "2.prems"(1) False by (auto split: node.splits)
      obtain j where j: "k = Suc j" using "2.prems"(2) by (cases k) auto
      show ?thesis
      proof (cases "j = 0")
        case False
        then have "take j q' \<in> set (tree_paths es)" using "2.IH"(1)[OF es(1,3)] "2.prems"(3) es(2) j by simp
        then show ?thesis using es j by simp
      qed (simp add: es j)
    qed
  qed
qed simp

lemma resolved_values:
  assumes "resolved_restic_excludes policy root_path entries = Inr values"
  shows "restic_literal (absolute_of root_path r) \<in> set values \<longleftrightarrow> r \<in> set (walk_excluded policy [] entries)"
  using assms by (auto simp: resolved_restic_excludes_def Let_def restic_literal_inj absolute_of_inj split: if_splits)

text \<open>C8. The paths resolved for restic are exact: in every tree whose names contain no
  separator and no backslash, a file or directory is excluded by the policy if and only if
  the quoted absolute path of it or of a directory above it is in the list, although the
  walk never enters an excluded directory; so restic, which skips what is below a listed
  path, leaves out exactly what the policy excludes, in Git storage too.\<close>
theorem resolved_excludes_exact:
  assumes "names_ok entries" "resolved_restic_excludes policy root_path entries = Inr values" "q \<in> set (tree_paths entries)"
  shows "is_excluded policy (posix_path q) \<longleftrightarrow>
    (\<exists>k \<in> {1..length q}. restic_literal (absolute_of root_path (posix_path (take k q))) \<in> set values)"
proof -
  have ok: "list_all name_ok p" "p \<noteq> []" if "p \<in> set (tree_paths entries)" for p
  proof -
    show "list_all name_ok p" using that assms(1) by (simp add: names_ok_def)
    have "[] \<notin> set (tree_paths es)" for es by (induction es rule: tree_paths.induct) (auto split: node.splits)
    then show "p \<noteq> []" using that by metis
  qed
  note found = walk_found[of "[]" entries _ policy, simplified, OF assms(1)]
  have prefix: "take k q \<in> set (tree_paths entries)" if "k \<in> {1..length q}" for k
    using tree_paths_prefix[OF assms(3)] that by simp
  have "is_excluded policy (posix_path q) \<longleftrightarrow> excluded_at policy q" by (rule is_excluded_at) (use ok[OF assms(3)] in simp_all)
  also have "\<dots> \<longleftrightarrow> (\<exists>k \<in> {1..length q}. posix_path (take k q) \<in> set (walk_excluded policy [] entries))"
  proof
    assume e: "excluded_at policy q"
    define k where "k = (LEAST k. 0 < k \<and> excluded_at policy (take k q))"
    have whole: "0 < length q \<and> excluded_at policy (take (length q) q)" using e ok(2)[OF assms(3)] by simp
    have k: "0 < k \<and> excluded_at policy (take k q)" unfolding k_def by (rule LeastI[of _ "length q"]) (rule whole)
    have least: "\<not> excluded_at policy (take j q)" if "0 < j" "j < k" for j
      using not_less_Least[of j "\<lambda>k. 0 < k \<and> excluded_at policy (take k q)"] that by (simp add: k_def)
    have "k \<le> length q" unfolding k_def by (rule Least_le) (rule whole)
    then have "k \<in> {1..length q}" using k by simp
    moreover have "posix_path (take k q) \<in> set (walk_excluded policy [] entries)"
      unfolding found using prefix[OF calculation] k least by (intro bexI[of _ "take k q"]) (auto simp: min_def)
    ultimately show "\<exists>k \<in> {1..length q}. posix_path (take k q) \<in> set (walk_excluded policy [] entries)" by blast
  next
    assume "\<exists>k \<in> {1..length q}. posix_path (take k q) \<in> set (walk_excluded policy [] entries)"
    then obtain k p where k: "k \<in> {1..length q}" "p \<in> set (tree_paths entries)" "posix_path (take k q) = posix_path p" "excluded_at policy p"
      unfolding found by blast
    have "take k q = p" using posix_path_inj[OF _ _ _ _ k(3)] ok[OF prefix[OF k(1)]] ok[OF k(2)] by blast
    then show "excluded_at policy q" using excluded_at_below[OF k(4), of "drop k q"] by (metis append_take_drop_id)
  qed
  finally show ?thesis by (simp only: resolved_values[OF assms(2)])
qed

definition demo_tree :: "(string \<times> node) list" where
  "demo_tree = [(''a'', DirNode [(''b'', FileNode)]), (''c'', FileNode)]"

definition demo_capture :: CapturePolicy where
  "demo_capture = \<lparr>cp_sha256 = [], cp_patterns = [[''a'']], cp_active_runtime_relative = None, cp_capture_mode = ''full-repository''\<rparr>"

theorem resolved_excludes_exact_witness:
  "is_excluded demo_capture ''a/b'' \<and> \<not> is_excluded demo_capture ''c''"
proof -
  have a: "excluded_at demo_capture [''a'']" "\<not> excluded_at demo_capture [''c'']"
    by (auto simp: excluded_at_def rules_hit_def demo_capture_def under_runtime_def rule_matches_def glob_simps)
  have e: "is_excluded demo_capture ''a''" "\<not> is_excluded demo_capture ''c''"
    using is_excluded_at[of "[''a'']" demo_capture] is_excluded_at[of "[''c'']" demo_capture] a
    by (simp_all add: name_ok_def backslash_def)
  have r: "resolved_restic_excludes demo_capture ''/w'' demo_tree = Inr [''/w/a'']"
    using e by (simp add: resolved_restic_excludes_def demo_tree_def child_def absolute_of_def has_line_end_def restic_literal_def backslash_def)
  have n: "names_ok demo_tree" by (simp add: names_ok_def demo_tree_def name_ok_def backslash_def)
  show ?thesis
    using resolved_excludes_exact[OF n r, of "[''a'', ''b'']"] e(2)
    by (auto simp: demo_tree_def absolute_of_def restic_literal_def backslash_def intro!: bexI[of _ 1])
qed


section \<open>The ignore file\<close>

lemma rules_mono:
  assumes "set (cp_patterns base) \<subseteq> set (cp_patterns policy)"
    "cp_active_runtime_relative policy = cp_active_runtime_relative base"
    "under_runtime base segments \<or> list_ex (rule_matches segments) (cp_patterns base)"
  shows "under_runtime policy segments \<or> list_ex (rule_matches segments) (cp_patterns policy)"
  using assms by (auto simp: under_runtime_def list_ex_iff)

lemma is_excluded_mono:
  assumes "set (cp_patterns base) \<subseteq> set (cp_patterns policy)"
    "cp_active_runtime_relative policy = cp_active_runtime_relative base" "cp_capture_mode base \<noteq> ''source-only''"
  shows "is_excluded base p \<Longrightarrow> is_excluded policy p"
  using assms
proof (induction base p rule: is_excluded.induct)
  case (1 base p)
  show ?case
  proof (cases "normalized_relative p")
    case None
    then show ?thesis using "1.prems"(1) by (simp add: is_excluded.simps[of base p])
  next
    case (Some segments)
    let ?up = "posix_path (take (index_in ''.git'' segments) segments)"
    show ?thesis
    proof (cases "''.git'' \<in> set segments")
      case True
      then have "index_in ''.git'' segments \<noteq> 0" "is_excluded base ?up"
        using "1.prems"(1,4) Some by (auto simp: is_excluded.simps[of base p] Let_def split: if_splits)
      then show ?thesis
        using "1.IH"[OF Some True "1.prems"(4) refl] "1.prems"(2-4) Some True
        by (simp add: is_excluded.simps[of policy p])
    next
      case False
      then show ?thesis
        using "1.prems" Some rules_mono[OF "1.prems"(2,3), of segments]
        by (simp add: is_excluded.simps[of base p] is_excluded.simps[of policy p])
    qed
  qed
qed

lemma user_rules_length: "user_rules lines patterns = Inr ps \<Longrightarrow> length patterns \<le> MAX_RULES \<Longrightarrow> length ps \<le> MAX_RULES"
  by (induction lines patterns arbitrary: ps rule: user_rules.induct) (auto simp: Let_def check_simps split: if_splits)

lemma user_patterns_length: "user_patterns host contents = Inr ps \<Longrightarrow> length ps \<le> MAX_RULES"
  using user_rules_length[of _ "[]" ps] by (auto simp: user_patterns_def split: option.splits)

lemma load_capture_policy_Inr:
  assumes "load_capture_policy host runtime = Inr policy"
  obtains raw exclude ignore_raw defaults user where
    "read_defaults host = Inr (raw, exclude)" "read_ignore host = Inr ignore_raw"
    "capture_mode_of host ignore_raw = Inr (cp_capture_mode policy)"
    "map_r (parts ''workspace capture default'') exclude = Inr defaults" "user_patterns host ignore_raw = Inr user"
    "runtime_relative runtime = Inr (cp_active_runtime_relative policy)" "cp_patterns policy = defaults @ user"
  using assms by (auto simp: load_capture_policy_def check_simps split: if_splits)

text \<open>C24. An ignore file only excludes more: whatever the file contains, the policy loaded
  with it excludes every path that the policy without it excludes, whether the file switches
  to source-only capture or not, and it adds at most 128 rules to the packaged ones.\<close>
theorem ignore_file_only_excludes:
  assumes "load_capture_policy host runtime = Inr policy"
    "load_capture_policy (host\<lparr>wh_lstat := IgnoreAbsent\<rparr>) runtime = Inr base"
  shows "(is_excluded base p \<longrightarrow> is_excluded policy p) \<and> length (cp_patterns policy) \<le> length (cp_patterns base) + MAX_RULES"
proof -
  obtain raw exclude ignore_raw defaults user where p: "read_defaults host = Inr (raw, exclude)"
      "map_r (parts ''workspace capture default'') exclude = Inr defaults" "user_patterns host ignore_raw = Inr user"
      "runtime_relative runtime = Inr (cp_active_runtime_relative policy)" "cp_patterns policy = defaults @ user"
    by (rule load_capture_policy_Inr[OF assms(1)]) blast
  have host: "read_defaults (host\<lparr>wh_lstat := IgnoreAbsent\<rparr>) = read_defaults host"
      "read_ignore (host\<lparr>wh_lstat := IgnoreAbsent\<rparr>) = Inr None"
    by (simp_all add: read_defaults_def read_ignore_def cong: option.case_cong sum.case_cong)
  obtain b: "cp_patterns base = defaults" "cp_capture_mode base = ''full-repository''"
      "cp_active_runtime_relative base = cp_active_runtime_relative policy"
    by (rule load_capture_policy_Inr[OF assms(2)])
      (use p host in \<open>auto simp: user_patterns_def capture_mode_of_def splitlines_def\<close>)
  have "is_excluded base p \<Longrightarrow> is_excluded policy p"
    by (rule is_excluded_mono[of base policy p]) (use b p(5) in auto)
  then show ?thesis using user_patterns_length[OF p(3)] p(5) b(1) by simp
qed

definition demo_defaults :: string where
  "demo_defaults = CHR ''{'' # print_str True ''version'' @ '':1,'' @ print_str True ''exclude'' @ '':['' @ print_str True ''a'' @ '']}''"

definition demo_host :: "string workspace_host" where
  "demo_host = \<lparr>wh_is_dir = True, wh_defaults = Some demo_defaults,
     wh_lstat = IgnoreFile \<lparr>fi_regular = True, fi_size = 1, fi_dev = 0, fi_ino = 0\<rparr>,
     wh_open = Some (\<lparr>fi_regular = True, fi_size = 1, fi_dev = 0, fi_ino = 0\<rparr>, ''c''),
     wh_read = (\<lambda>s n. Some (take n s, drop n s)), wh_decode = Some, wh_sha256 = (\<lambda>_. []), wh_float = (\<lambda>_. 0)\<rparr>"

lemma demo_defaults_read: "read_defaults demo_host = Inr (demo_defaults, [JStr ''a''])"
  by code_simp

lemma demo_ignore_read: "read_ignore demo_host = Inr (Some ''c'')"
proof -
  have "read_chunks (\<lambda>s n. Some (take n s, drop n s)) ''c'' [] = Some ''c''"
    by (subst read_chunks.simps) (simp add: IGNORE_LIMIT_def)
  then have "read_chunks (\<lambda>s n. Some (take n s, drop n s)) [] ''c'' = Some ''c''"
    by (subst read_chunks.simps) (simp add: IGNORE_LIMIT_def IGNORE_READ_SIZE_def)
  then show ?thesis by (simp add: read_ignore_def demo_host_def IGNORE_LIMIT_def)
qed

lemma demo_rules:
  "map_r (parts ''workspace capture default'') [JStr ''a''] = Inr [[''a'']]"
  "user_patterns demo_host (Some ''c'') = Inr [[''c'']]"
  "capture_mode_of demo_host (Some ''c'') = Inr ''full-repository''"
  by code_simp+

theorem ignore_file_only_excludes_witness:
  "\<exists>policy base. load_capture_policy demo_host NoRuntime = Inr policy \<and> is_excluded base ''a'' \<and> is_excluded policy ''a'' \<and>
    cp_patterns policy = cp_patterns base @ [[''c'']]"
proof -
  obtain policy where policy: "load_capture_policy demo_host NoRuntime = Inr policy" "cp_patterns policy = [[''a''], [''c'']]"
    using demo_defaults_read demo_ignore_read demo_rules
    by (simp add: load_capture_policy_def runtime_relative_def demo_host_def)
  have host: "read_defaults (demo_host\<lparr>wh_lstat := IgnoreAbsent\<rparr>) = Inr (demo_defaults, [JStr ''a''])"
    using demo_defaults_read by (simp add: read_defaults_def demo_host_def)
  obtain base where base: "load_capture_policy (demo_host\<lparr>wh_lstat := IgnoreAbsent\<rparr>) NoRuntime = Inr base"
      "cp_patterns base = [[''a'']]"
    using host demo_rules(1)
    by (simp add: load_capture_policy_def runtime_relative_def demo_host_def read_ignore_def capture_mode_of_def splitlines_def user_patterns_def)
  have "normalized_relative ''a'' = Some [''a'']" by code_simp
  then have "is_excluded base ''a''"
    using base(2) by (simp add: is_excluded.simps[of base "''a''"] rule_matches_def glob_simps)
  then show ?thesis using ignore_file_only_excludes[OF policy(1) base(1), of "''a''"] policy base by force
qed

text \<open>C29. Reading the ignore file ends with the file: on any descriptor that hands out the
  contents in order, in pieces of whatever size between one byte and the number asked for,
  the loop terminates and returns exactly the first 65537 bytes, so a file within the limit
  is read completely and a longer one is recognised, whatever its size was when it was
  looked up.\<close>
theorem ignore_read_complete:
  assumes "\<And>s n. 0 < n \<Longrightarrow> \<exists>k \<le> n. read s n = Some (take k s, drop k s) \<and> (s \<noteq> [] \<longrightarrow> 0 < k)"
  shows "read_chunks read [] contents = Some (take (IGNORE_LIMIT + 1) contents)"
proof -
  have "read_chunks read chunks s = Some (take (IGNORE_LIMIT + 1) (chunks @ s))" if "length chunks \<le> IGNORE_LIMIT + 1" for chunks s
    using that
  proof (induction "IGNORE_LIMIT + 1 - length chunks" arbitrary: chunks s rule: less_induct)
    case less
    show ?case
    proof (cases "length chunks > IGNORE_LIMIT")
      case True
      then show ?thesis using less.prems by (simp add: read_chunks.simps[of read chunks s])
    next
      case False
      let ?n = "min IGNORE_READ_SIZE (IGNORE_LIMIT + 1 - length chunks)"
      have "0 < ?n" using False by (simp add: IGNORE_READ_SIZE_def)
      then obtain k where k: "k \<le> ?n" "read s ?n = Some (take k s, drop k s)" "s \<noteq> [] \<longrightarrow> 0 < k" using assms by blast
      show ?thesis
      proof (cases "take k s = []")
        case True
        then have "s = []" using k(3) by auto
        then show ?thesis using False k(2) by (subst read_chunks.simps) simp
      next
        case chunk: False
        have "length (take k s) \<le> ?n" "0 < length (take k s)" using k(1) chunk by auto
        then have l: "length (chunks @ take k s) \<le> IGNORE_LIMIT + 1" "length chunks < length (chunks @ take k s)"
          using False by auto
        have "read_chunks read (chunks @ take k s) (drop k s) = Some (take (IGNORE_LIMIT + 1) ((chunks @ take k s) @ drop k s))"
          by (rule less.hyps[OF diff_less_mono2[OF l(2)] l(1)]) (use False in simp)
        then show ?thesis using False k(2) chunk by (simp add: read_chunks.simps[of read chunks s])
      qed
    qed
  qed
  from this[of "[]" contents] show ?thesis by simp
qed

definition demo_read :: "string \<Rightarrow> nat \<Rightarrow> (string \<times> string) option" where
  "demo_read s n = Some (take 1 s, drop 1 s)"

theorem ignore_read_complete_witness: "read_chunks demo_read [] ''ab'' = Some ''ab''"
proof -
  have "\<And>s n. 0 < n \<Longrightarrow> \<exists>k \<le> n. demo_read s n = Some (take k s, drop k s) \<and> (s \<noteq> [] \<longrightarrow> 0 < k)"
    unfolding demo_read_def by (intro exI[of _ 1]) simp
  from ignore_read_complete[of demo_read, OF this, of "''ab''"] show ?thesis by (simp add: IGNORE_LIMIT_def)
qed

end
