(* ===== verification/Spec2Isabelle.thy ===== *)
theory Spec2Isabelle
  imports LocalStore KeysetLaws LogicalJat CatalogLaws OutboxBounds References Removal PolicyRemote WorkspaceProperties
begin

text \<open>
  \<^bold>\<open>Josh Room: a verification development.\<close>

  Josh Room (\<^verbatim>\<open>src/josh_room/\<close>) captures a workspace and its agent sessions, stores them
  encrypted in a content-addressed store, and keeps the catalog that finds them again.
\<close>

end
